(* ===== verification/Prelude.thy ===== *)
theory Prelude
  imports Complex_Main "HOL-Library.Word"
begin

text \<open>
  Shared vocabulary of the model of \<^verbatim>\<open>src/main.py\<close>: the Python exceptions the
  control loop can raise or receive, the detector's tag observation (the interface of
  the external \<^verbatim>\<open>pupil_apriltags\<close> detector), Python's \<^verbatim>\<open>int()\<close> on a
  float as truncation towards zero (\<open>py_int\<close>) and \<^verbatim>\<open>round()\<close> as rounding
  half to even (\<open>py_round\<close>), with the lemmas the component proofs share, and the collection \<open>model_defs\<close> of the definitions unfolded when a
  tick is evaluated on a concrete frame.

  Python floats are modelled as \<^typ>\<open>real\<close>: rounding of IEEE doubles is not
  modelled, every other operation (true division, \<^verbatim>\<open>abs\<close>, comparisons, the
  truncation of \<^verbatim>\<open>int()\<close>, the rounding of \<^verbatim>\<open>round()\<close>) is. Python's unbounded ints are \<^typ>\<open>int\<close>.
\<close>

named_theorems model_defs "definitions of the controller model, unfolded to evaluate a tick"

subsection \<open>Exceptions\<close>

text \<open>
  The exceptions that reach the handler of \<^verbatim>\<open>__main__\<close>
  (\<^verbatim>\<open>except (Exception, KeyboardInterrupt, SystemExit)\<close>):
  \<open>ZeroDivisionError\<close> is raised by the model itself (a frame width of 0 reaches
  \<^verbatim>\<open>rescale\<close> with an empty input range); \<open>ValueError\<close> is raised by the
  unpacking \<^verbatim>\<open>(ptA, ptB, ptC, ptD) = r.corners\<close> of a detection without four
  corners; \<open>ExternalFault\<close> is an exception of a library the loop calls (the
  \<^verbatim>\<open>cv2.error\<close> of \<^verbatim>\<open>cvtColor\<close> on a failed camera read, the detector, the
  serial port); the others come from the interpreter (Ctrl-C, \<^verbatim>\<open>sys.exit\<close>).
\<close>

datatype py_error =
    ZeroDivisionError
  | ValueError
  | KeyboardInterrupt
  | SystemExit
  | ExternalFault

type_synonym 'a result = "py_error + 'a"

type_synonym millis = int

subsection \<open>Tag observations\<close>

text \<open>
  One detection of \<^verbatim>\<open>Detector.detect\<close>: \<^verbatim>\<open>tag_id\<close>, \<^verbatim>\<open>center\<close> (pixel
  coordinates \<^verbatim>\<open>(x, y)\<close>), \<^verbatim>\<open>corners\<close> and the pose translation \<^verbatim>\<open>pose_t\<close>
  (a 3x1 array, \<^verbatim>\<open>pose_t[i][0]\<close> is component \<open>i\<close>).
\<close>

record detection =
  tag_id :: int
  center :: "real \<times> real"
  corners :: "(real \<times> real) list"
  pose_t :: "real \<times> real \<times> real"

abbreviation center_x :: "detection \<Rightarrow> real" where
  "center_x t \<equiv> fst (center t)"

abbreviation center_y :: "detection \<Rightarrow> real" where
  "center_y t \<equiv> snd (center t)"

subsection \<open>Python's \<^verbatim>\<open>int()\<close> of a float\<close>

text \<open>\<^verbatim>\<open>int(x)\<close> for a float \<open>x\<close> truncates towards zero.\<close>

definition py_int :: "real \<Rightarrow> int" where
  "py_int x = (if 0 \<le> x then \<lfloor>x\<rfloor> else \<lceil>x\<rceil>)"

declare py_int_def [model_defs]

lemma py_int_of_int [simp]: "py_int (of_int n) = n"
  by (simp add: py_int_def)

lemma py_int_zero [simp]: "py_int 0 = 0"
  by (simp add: py_int_def)

lemma py_int_uminus: "py_int (- x) = - py_int x"
  by (simp add: py_int_def ceiling_def)

lemma py_int_abs_le: "\<bar>of_int (py_int x)\<bar> \<le> \<bar>x\<bar>"
  by (simp add: py_int_def)

lemma py_int_nonneg: "0 \<le> x \<Longrightarrow> 0 \<le> py_int x"
  by (simp add: py_int_def)

lemma py_int_nonpos: "x \<le> 0 \<Longrightarrow> py_int x \<le> 0"
  by (simp add: py_int_def)

lemma py_int_pos_iff: "0 < py_int x \<longleftrightarrow> 1 \<le> x"
  by (simp add: py_int_def)

lemma py_int_small: "\<bar>x\<bar> < 1 \<Longrightarrow> py_int x = 0"
  by (simp add: py_int_def) linarith

lemma py_int_mono: "x \<le> y \<Longrightarrow> py_int x \<le> py_int y"
proof -
  assume "x \<le> y"
  then have "\<lfloor>x\<rfloor> \<le> \<lfloor>y\<rfloor>" and "\<lceil>x\<rceil> \<le> \<lceil>y\<rceil>"
    by (simp_all add: floor_mono ceiling_mono)
  moreover have "x < 0 \<Longrightarrow> \<lceil>x\<rceil> \<le> 0" and "0 \<le> y \<Longrightarrow> 0 \<le> \<lfloor>y\<rfloor>"
    by simp_all
  ultimately show ?thesis
    unfolding py_int_def by (auto; linarith)
qed

lemma py_int_bounded:
  assumes "\<bar>x\<bar> \<le> of_int m"
  shows "\<bar>py_int x\<bar> \<le> m"
proof -
  have "\<bar>of_int (py_int x)\<bar> \<le> (of_int m :: real)"
    using py_int_abs_le [of x] assms by linarith
  then show ?thesis by linarith
qed

text \<open>Truncation of a value below \<open>m + 1\<close> in magnitude stays within \<open>m\<close>.\<close>

lemma py_int_bounded_strict:
  assumes "\<bar>x\<bar> < of_int m + 1"
  shows "\<bar>py_int x\<bar> \<le> m"
  using assms by (simp add: py_int_def) linarith

subsection \<open>Python's \<^verbatim>\<open>round()\<close> of a float\<close>

text \<open>
  \<^verbatim>\<open>round(x)\<close> with no digits argument returns the integer nearest to \<open>x\<close>,
  a tie going to the even neighbour (banker's rounding), unlike HOL's \<^const>\<open>round\<close>,
  which rounds ties up.
\<close>

definition py_round :: "real \<Rightarrow> int" where
  "py_round x =
     (let f = \<lfloor>x\<rfloor>; d = x - of_int f
      in if d < 1 / 2 then f else if 1 / 2 < d then f + 1 else if even f then f else f + 1)"

declare py_round_def [model_defs]

lemma py_round_cases: "py_round x = \<lfloor>x\<rfloor> \<or> py_round x = \<lfloor>x\<rfloor> + 1"
  by (simp add: py_round_def Let_def)

lemma py_round_error: "\<bar>of_int (py_round x) - x\<bar> \<le> 1 / 2"
proof -
  have "of_int \<lfloor>x\<rfloor> \<le> x" "x < of_int \<lfloor>x\<rfloor> + 1" by linarith+
  then show ?thesis by (auto simp: py_round_def Let_def)
qed

lemma py_round_of_int [simp]: "py_round (of_int n) = n"
  by (simp add: py_round_def)

lemma py_round_zero [simp]: "py_round 0 = 0"
  using py_round_of_int [of 0] by simp

lemma py_round_mono:
  assumes "x \<le> y"
  shows "py_round x \<le> py_round y"
proof (cases "\<lfloor>x\<rfloor> = \<lfloor>y\<rfloor>")
  case True
  then show ?thesis using assms by (auto simp: py_round_def Let_def)
next
  case False
  with assms have "\<lfloor>x\<rfloor> < \<lfloor>y\<rfloor>" by (meson floor_mono order_le_neq_trans)
  then show ?thesis using py_round_cases [of x] py_round_cases [of y] by arith
qed

text \<open>Python's \<^verbatim>\<open>round\<close> exceeds an int exactly past the half, or at the half
  when the int is odd (ties go to the even neighbour).\<close>

lemma py_round_gt_iff:
  "n < py_round x \<longleftrightarrow> of_int n + 1 / 2 < x \<or> (x = of_int n + 1 / 2 \<and> odd n)"
proof -
  define f where "f = \<lfloor>x\<rfloor>"
  have f: "of_int f \<le> x" "x < of_int f + 1" using f_def by linarith+
  show ?thesis
  proof (cases "x - of_int f < 1 / 2")
    case True
    then have "py_round x = f" by (simp add: py_round_def f_def Let_def)
    moreover have "n < f \<longleftrightarrow> of_int n + 1 / 2 < x \<or> (x = of_int n + 1 / 2 \<and> odd n)"
    proof
      assume "n < f" then have "of_int n + 1 \<le> (of_int f :: real)" by linarith
      then show "of_int n + 1 / 2 < x \<or> (x = of_int n + 1 / 2 \<and> odd n)" using f by linarith
    next
      assume "of_int n + 1 / 2 < x \<or> (x = of_int n + 1 / 2 \<and> odd n)"
      then have "of_int n + 1 / 2 \<le> x" by linarith
      with True have "of_int n < (of_int f :: real)" by linarith
      then show "n < f" by linarith
    qed
    ultimately show ?thesis by simp
  next
    case False
    show ?thesis
    proof (cases "1 / 2 < x - of_int f")
      case True
      then have "py_round x = f + 1" using False by (simp add: py_round_def f_def Let_def)
      moreover have "n < f + 1 \<longleftrightarrow> of_int n + 1 / 2 < x \<or> (x = of_int n + 1 / 2 \<and> odd n)"
      proof
        assume "n < f + 1" then have "n \<le> f" by simp
        then have "(of_int n :: real) \<le> of_int f" by linarith
        then show "of_int n + 1 / 2 < x \<or> (x = of_int n + 1 / 2 \<and> odd n)" using True by linarith
      next
        assume "of_int n + 1 / 2 < x \<or> (x = of_int n + 1 / 2 \<and> odd n)"
        then have "of_int n + 1 / 2 \<le> x" by linarith
        with f have "of_int n < (of_int f + 1 :: real)" by linarith
        then show "n < f + 1" by linarith
      qed
      ultimately show ?thesis by simp
    next
      case False2: False
      with False have half: "x = of_int f + 1 / 2" by linarith
      have r: "py_round x = (if even f then f else f + 1)"
        using False False2 by (simp add: py_round_def f_def Let_def)
      have "x = of_int n + 1 / 2 \<longleftrightarrow> n = f" using half by linarith
      moreover have "of_int n + 1 / 2 < x \<longleftrightarrow> n < f" using half by linarith
      ultimately show ?thesis using r by auto
    qed
  qed
qed

subsection \<open>Lists\<close>

lemma find_Some_member: "find P xs = Some x \<Longrightarrow> P x \<and> x \<in> set xs"
  by (induction xs) (auto split: if_splits)

end
