(* ===== verification/PowerModel.thy ===== *)
theory PowerModel
  imports Prelude
begin

text \<open>
  The pure power model of \<^verbatim>\<open>src/main.py\<close> (lines 23--34): \<^verbatim>\<open>rescale\<close>, the
  linear map between two ranges, which raises \<open>ZeroDivisionError\<close> on an empty input
  range, and \<^verbatim>\<open>get_left_right_power_for_tag\<close>, which turns a tag's pose distance and
  horizontal pixel offset into a pair of wheel powers. The lemmas give the closed form
  of both (a refinement of the spec's description in terms of \<open>forward_power\<close> and
  \<open>turning_power\<close>), the error case, the boundary behaviour the spec names, and the
  bounds of the powers on in-range inputs together with the counterexample to the
  spec's bound \<open>[-max_power, max_power]\<close>.
\<close>

subsection \<open>Definitions\<close>

definition rescale :: "real \<Rightarrow> real \<Rightarrow> real \<Rightarrow> real \<Rightarrow> real \<Rightarrow> real result" where
  "rescale val in_min in_max out_min out_max =
     (if in_max - in_min = 0 then Inl ZeroDivisionError
      else Inr (out_min + (val - in_min) * ((out_max - out_min) / (in_max - in_min))))"

definition tag_distance :: "detection \<Rightarrow> real" where
  "tag_distance tag =
     (case pose_t tag of (x, y, z) \<Rightarrow>
        (let distance_total = x ^ 2 + y ^ 2 + z ^ 2 in sqrt distance_total))"

definition get_left_right_power_for_tag :: "detection \<Rightarrow> int \<Rightarrow> int \<Rightarrow> (int \<times> int) result" where
  "get_left_right_power_for_tag tag frame_width max_power =
     (let distance_sqrt = tag_distance tag;
          half_width = of_int frame_width / 2
      in case rescale distance_sqrt 0 3 0 (of_int max_power) of
           Inl e \<Rightarrow> Inl e
         | Inr fwd \<Rightarrow>
            (let forward_speed = py_int fwd
             in case rescale (of_int (py_int half_width) - center_x tag)
                       (-1 * half_width) half_width
                       (-1 * (of_int max_power / 1)) (of_int max_power / 1) of
                  Inl e \<Rightarrow> Inl e
                | Inr trn \<Rightarrow>
                   (let turning_speed = py_int trn;
                        left_speed = forward_speed - turning_speed;
                        right_speed = forward_speed + turning_speed
                    in Inr (left_speed, right_speed))))"

declare rescale_def [model_defs] tag_distance_def [model_defs]
  get_left_right_power_for_tag_def [model_defs]

text \<open>
  The spec's description of the power model (section 4.1): the distance mapped
  linearly from \<open>[0, 3]\<close> to \<open>[0, max_power]\<close>, the horizontal pixel offset mapped
  from \<open>[-w/2, w/2]\<close> to \<open>[-max_power, max_power]\<close>, each truncated towards zero.
\<close>

definition forward_power :: "real \<Rightarrow> int \<Rightarrow> int" where
  "forward_power d max_power = py_int (d * of_int max_power / 3)"

definition turning_power :: "real \<Rightarrow> int \<Rightarrow> int \<Rightarrow> int" where
  "turning_power offset max_power w = py_int (2 * of_int max_power * offset / of_int w)"

definition pixel_offset :: "detection \<Rightarrow> int \<Rightarrow> real" where
  "pixel_offset tag w = of_int (py_int (of_int w / 2)) - center_x tag"

definition power_spec :: "detection \<Rightarrow> int \<Rightarrow> int \<Rightarrow> int \<times> int" where
  "power_spec tag w max_power =
     (let f = forward_power (tag_distance tag) max_power;
          t = turning_power (pixel_offset tag w) max_power w
      in (f - t, f + t))"

subsection \<open>Closed forms\<close>

lemma rescale_ok:
  "in_max \<noteq> in_min \<Longrightarrow>
   rescale v in_min in_max out_min out_max
     = Inr (out_min + (v - in_min) * ((out_max - out_min) / (in_max - in_min)))"
  by (simp add: rescale_def)

lemma rescale_empty_range: "rescale v a a c d = Inl ZeroDivisionError"
  by (simp add: rescale_def)

lemma tag_distance_nonneg: "0 \<le> tag_distance tag"
  by (simp add: tag_distance_def split: prod.splits)

lemma turning_rescale:
  assumes "w \<noteq> 0"
  shows "rescale v (- (of_int w / 2)) (of_int w / 2) (- of_int m) (of_int m)
         = Inr (2 * of_int m * v / of_int w)"
proof -
  have w: "(of_int w :: real) \<noteq> 0" using assms by simp
  have "- of_int m + (v + of_int w / 2) * ((of_int m + of_int m) / (of_int w / 2 + of_int w / 2))
        = 2 * of_int m * v / (of_int w :: real)"
    using w by (simp add: field_simps)
  with w show ?thesis by (simp add: rescale_def)
qed

lemma get_left_right_power_for_tag_spec:
  assumes "w \<noteq> 0"
  shows "get_left_right_power_for_tag tag w m = Inr (power_spec tag w m)"
proof -
  have fwd: "rescale (tag_distance tag) 0 3 0 (of_int m) = Inr (tag_distance tag * of_int m / 3)"
    by (simp add: rescale_def)
  show ?thesis
    using assms
    by (simp add: get_left_right_power_for_tag_def fwd turning_rescale power_spec_def
        forward_power_def turning_power_def pixel_offset_def Let_def)
qed

lemma get_left_right_power_for_tag_zero_width:
  "get_left_right_power_for_tag tag 0 m = Inl ZeroDivisionError"
  by (simp add: get_left_right_power_for_tag_def rescale_def Let_def)

lemma half_width_trunc:
  assumes "0 \<le> w"
  shows "py_int (of_int w / 2) = w div 2"
proof -
  have "0 \<le> (of_int w / 2 :: real)" using assms by simp
  then have "py_int (of_int w / 2) = \<lfloor>of_int w / (of_int 2 :: real)\<rfloor>"
    by (simp add: py_int_def)
  also have "\<dots> = w div 2" by (rule floor_divide_of_int_eq)
  finally show ?thesis .
qed

lemma pixel_offset_range:
  assumes "0 < w" "0 \<le> center_x tag" "center_x tag \<le> of_int w"
  shows "- (of_int w + 1) / 2 \<le> pixel_offset tag w" and "pixel_offset tag w \<le> of_int w / 2"
proof -
  have h: "py_int (of_int w / 2) = w div 2" using assms(1) by (simp add: half_width_trunc)
  have "w - 1 \<le> 2 * (w div 2)" and "2 * (w div 2) \<le> w" by presburger+
  then have "real_of_int (w - 1) \<le> of_int (2 * (w div 2))" and "real_of_int (2 * (w div 2)) \<le> of_int w"
    by (simp_all only: of_int_le_iff)
  then have "(of_int w - 1) / 2 \<le> (of_int (w div 2) :: real)" and "of_int (w div 2) \<le> (of_int w / 2 :: real)"
    by simp_all
  with assms(2,3) h show "- (of_int w + 1) / 2 \<le> pixel_offset tag w" and "pixel_offset tag w \<le> of_int w / 2"
    by (simp_all add: pixel_offset_def)
qed

lemma forward_power_range:
  assumes "0 \<le> m" "0 \<le> d" "d \<le> 3"
  shows "0 \<le> forward_power d m" and "forward_power d m \<le> m"
proof -
  have "0 \<le> d * of_int m / 3" using assms by simp
  moreover have "d * of_int m \<le> 3 * of_int m" using assms by (simp add: mult_right_mono)
  ultimately have "\<bar>d * of_int m / 3\<bar> \<le> of_int m" by simp
  then show "forward_power d m \<le> m"
    using py_int_bounded [of "d * of_int m / 3" m] by (simp add: forward_power_def)
  show "0 \<le> forward_power d m"
    using \<open>0 \<le> d * of_int m / 3\<close> by (simp add: forward_power_def py_int_nonneg)
qed

lemma turning_power_range:
  assumes "0 \<le> m" "m < w" "- (of_int w + 1) / 2 \<le> off" "off \<le> of_int w / 2"
  shows "\<bar>turning_power off m w\<bar> \<le> m"
proof -
  have w: "(0::real) < of_int w" using assms(1,2) by simp
  have m: "(0::real) \<le> of_int m" "(of_int m::real) < of_int w" using assms(1,2) by simp_all
  have "2 * of_int m * off \<le> 2 * of_int m * (of_int w / 2)"
    using mult_left_mono [OF assms(4), of "2 * of_int m"] m by simp
  then have up: "2 * of_int m * off / of_int w \<le> of_int m"
    using w by (simp add: pos_divide_le_eq)
  have "2 * of_int m * (- (of_int w + 1) / 2) \<le> 2 * of_int m * off"
    using mult_left_mono [OF assms(3), of "2 * of_int m"] m by simp
  moreover have "- (of_int m + 1) * of_int w < 2 * of_int m * (- (of_int w + 1) / (2::real))"
    using m by (simp add: algebra_simps)
  ultimately have "- (of_int m + 1) < 2 * of_int m * off / of_int w"
    using w by (simp add: pos_less_divide_eq)
  with up have "\<bar>2 * of_int m * off / of_int w\<bar> < of_int m + 1" by linarith
  then show ?thesis by (simp add: turning_power_def py_int_bounded_strict)
qed

lemma power_spec_bounded:
  assumes "0 \<le> m" "m < w" "tag_distance tag \<le> 3"
    and "0 \<le> center_x tag" "center_x tag \<le> of_int w"
  shows "\<bar>fst (power_spec tag w m)\<bar> \<le> 2 * m \<and> \<bar>snd (power_spec tag w m)\<bar> \<le> 2 * m"
proof -
  have w: "0 < w" using assms(1,2) by simp
  have f: "0 \<le> forward_power (tag_distance tag) m" "forward_power (tag_distance tag) m \<le> m"
    using forward_power_range [OF assms(1) tag_distance_nonneg assms(3)] by simp_all
  have t: "\<bar>turning_power (pixel_offset tag w) m w\<bar> \<le> m"
    using turning_power_range [OF assms(1,2)] pixel_offset_range [OF w assms(4,5)] by simp
  from f t show ?thesis by (simp add: power_spec_def Let_def) linarith
qed

subsection \<open>Properties of the power model\<close>

text \<open>
  Claim C16. \<^verbatim>\<open>get_left_right_power_for_tag\<close> implements the spec's power
  model: for a non-zero frame width it returns the forward power minus and plus the
  turning power, each truncated towards zero; for frame width 0 it raises
  \<open>ZeroDivisionError\<close> and returns nothing.
\<close>

theorem get_left_right_power_for_tag_refines:
  "get_left_right_power_for_tag tag w m =
     (if w = 0 then Inl ZeroDivisionError else Inr (power_spec tag w m))"
  by (simp add: get_left_right_power_for_tag_spec get_left_right_power_for_tag_zero_width)

text \<open>
  Claim C17. A tag whose centre lies exactly at the horizontal midpoint of the frame gets
  no turning power: both wheels receive the forward power. For an odd frame width the
  code compares against \<^verbatim>\<open>int(frame_width/2)\<close>, half a pixel left of the
  midpoint, so this needs the maximum power to be below the frame width.
\<close>

theorem get_left_right_power_centered:
  assumes "0 \<le> m" "m < w" "center_x tag = of_int w / 2"
  shows "get_left_right_power_for_tag tag w m
           = Inr (forward_power (tag_distance tag) m, forward_power (tag_distance tag) m)"
proof -
  have w: "0 < w" "w \<noteq> 0" using assms(1,2) by simp_all
  have "pixel_offset tag w \<le> 0"
    using half_width_trunc [of w] w assms(3)
    by (simp add: pixel_offset_def floor_divide_of_int_eq)
  have "\<bar>2 * of_int m * pixel_offset tag w / of_int w\<bar> < 1"
  proof -
    have off: "- 1 / 2 \<le> pixel_offset tag w"
      using half_width_trunc [of w] w assms(3)
      by (simp add: pixel_offset_def floor_divide_of_int_eq)
    have mw: "(0::real) \<le> of_int m" "(of_int m :: real) < of_int w" "(0::real) < of_int w"
      using assms(1,2) by simp_all
    have "2 * of_int m * (- 1 / 2) \<le> 2 * of_int m * pixel_offset tag w"
      using mult_left_mono [OF off, of "2 * of_int m"] mw by simp
    then have "- 1 < 2 * of_int m * pixel_offset tag w / of_int w"
      using mw by (simp add: pos_less_divide_eq)
    moreover have "2 * of_int m * pixel_offset tag w \<le> 0"
      using mw \<open>pixel_offset tag w \<le> 0\<close> by (simp add: mult_nonneg_nonpos)
    then have "2 * of_int m * pixel_offset tag w / of_int w \<le> 0"
      using mw by (simp add: divide_nonpos_pos)
    ultimately show ?thesis by linarith
  qed
  then have "turning_power (pixel_offset tag w) m w = 0"
    by (simp add: turning_power_def py_int_small)
  with w show ?thesis
    by (simp add: get_left_right_power_for_tag_spec power_spec_def Let_def)
qed

theorem get_left_right_power_centered_witness:
  "get_left_right_power_for_tag
     \<lparr>tag_id = 1, center = (320, 100), corners = [], pose_t = (0, 0, 3 / 2)\<rparr> 640 127 = Inr (63, 63)"
proof -
  have "get_left_right_power_for_tag
     \<lparr>tag_id = 1, center = (320, 100), corners = [], pose_t = (0, 0, 3 / 2)\<rparr> 640 127
    = Inr (forward_power (tag_distance \<lparr>tag_id = 1, center = (320, 100), corners = [], pose_t = (0, 0, 3 / 2)\<rparr>) 127,
           forward_power (tag_distance \<lparr>tag_id = 1, center = (320, 100), corners = [], pose_t = (0, 0, 3 / 2)\<rparr>) 127)"
    by (rule get_left_right_power_centered) simp_all
  then show ?thesis by (simp add: forward_power_def tag_distance_def py_int_def)
qed

text \<open>
  Claim C18. The forward power is the distance mapped from \<open>[0, 3]\<close> metres onto
  \<open>[0, max_power]\<close>: a tag at distance 0 gives wheel powers that sum to 0, a tag
  at distance 3 gives wheel powers that sum to twice the maximum power (the turning
  power cancels in the sum).
\<close>

theorem get_left_right_power_distance_endpoints:
  assumes "get_left_right_power_for_tag tag w m = Inr (l, r)"
  shows "(tag_distance tag = 0 \<longrightarrow> l + r = 0) \<and> (tag_distance tag = 3 \<longrightarrow> l + r = 2 * m)"
proof -
  have "w \<noteq> 0" using assms get_left_right_power_for_tag_zero_width by (cases "w = 0") simp_all
  then have "(l, r) = power_spec tag w m"
    using assms by (simp add: get_left_right_power_for_tag_spec)
  then have "l + r = 2 * forward_power (tag_distance tag) m"
    by (simp add: power_spec_def Let_def)
  then show ?thesis by (simp add: forward_power_def)
qed

theorem get_left_right_power_distance_endpoints_witness:
  "get_left_right_power_for_tag \<lparr>tag_id = 1, center = (100, 50), corners = [], pose_t = (0, 0, 3)\<rparr> 640 127 = Inr (40, 214) \<and> tag_distance \<lparr>tag_id = 1, center = (100, 50), corners = [], pose_t = (0, 0, 3)\<rparr> = 3 \<and> (40::int) + 214 = 2 * 127"
proof -
  have run: "get_left_right_power_for_tag \<lparr>tag_id = 1, center = (100, 50), corners = [], pose_t = (0, 0, 3)\<rparr> 640 127 = Inr (40, 214)"
    by (simp add: model_defs)
  have d: "tag_distance \<lparr>tag_id = 1, center = (100, 50), corners = [], pose_t = (0, 0, 3)\<rparr> = 3" by (simp add: tag_distance_def)
  from get_left_right_power_distance_endpoints [OF run] d run show ?thesis by simp
qed

text \<open>
  Claim C19. For a tag at most 3 metres away whose centre lies inside the frame, and a
  maximum power below the frame width, the forward power lies in \<open>[0, max_power]\<close>,
  the turning power in \<open>[-max_power, max_power]\<close>, so each wheel power lies in
  \<open>[-2 max_power, 2 max_power]\<close>.
\<close>

theorem get_left_right_power_bounded:
  assumes "0 \<le> m" "m < w" "tag_distance tag \<le> 3"
    and "0 \<le> center_x tag" "center_x tag \<le> of_int w"
    and "get_left_right_power_for_tag tag w m = Inr (l, r)"
  shows "\<bar>l\<bar> \<le> 2 * m \<and> \<bar>r\<bar> \<le> 2 * m"
proof -
  have "w \<noteq> 0" using assms(1,2) by simp
  then have "(l, r) = power_spec tag w m"
    using assms(6) by (simp add: get_left_right_power_for_tag_spec)
  with power_spec_bounded [OF assms(1-5)] show ?thesis
    by (metis fst_conv snd_conv)
qed

theorem get_left_right_power_bounded_witness:
  "get_left_right_power_for_tag \<lparr>tag_id = 1, center = (100, 50), corners = [], pose_t = (0, 0, 3)\<rparr> 640 127 = Inr (40, 214) \<and> \<bar>214::int\<bar> \<le> 2 * 127"
proof -
  have run: "get_left_right_power_for_tag \<lparr>tag_id = 1, center = (100, 50), corners = [], pose_t = (0, 0, 3)\<rparr> 640 127 = Inr (40, 214)"
    by (simp add: model_defs)
  have "\<bar>40::int\<bar> \<le> 2 * 127 \<and> \<bar>214::int\<bar> \<le> 2 * 127"
    by (rule get_left_right_power_bounded [OF _ _ _ _ _ run]) (simp_all add: tag_distance_def)
  with run show ?thesis by simp
qed

text \<open>
  Claim C20. The spec's invariant that wheel powers stay within
  \<open>[-max_power, max_power]\<close> does not hold for the code, for any maximum power and
  any even frame width: a tag at the left edge of the frame gets the full turning power
  \<open>max_power\<close> on top of its forward power, so its right wheel power exceeds
  \<open>max_power\<close> as soon as the forward power is positive (a distance of at least
  \<open>3 / max_power\<close> metres, well inside the 3 m range). At 3 m with
  \<open>max_power = 127\<close> the right power is 254.
\<close>

theorem get_left_right_power_exceeds_max:
  assumes "0 < m" "0 < w" "even w" "center_x tag = 0" "3 \<le> of_int m * tag_distance tag"
  shows "get_left_right_power_for_tag tag w m
           = Inr (forward_power (tag_distance tag) m - m, forward_power (tag_distance tag) m + m)
         \<and> m < forward_power (tag_distance tag) m + m"
proof -
  have w: "(of_int w :: real) \<noteq> 0" using assms(2) by simp
  have "py_int (of_int w / 2) = w div 2" using assms(2) by (simp add: half_width_trunc)
  moreover have "of_int (w div 2) = (of_int w / 2 :: real)" using assms(3) by (auto elim: evenE)
  ultimately have off: "pixel_offset tag w = of_int w / 2" using assms(4) by (simp add: pixel_offset_def)
  have "turning_power (pixel_offset tag w) m w = m"
    using w by (simp add: off turning_power_def)
  moreover have "1 \<le> tag_distance tag * of_int m / 3" using assms(5) by (simp add: mult.commute)
  then have "0 < forward_power (tag_distance tag) m" by (simp add: forward_power_def py_int_pos_iff)
  ultimately show ?thesis
    using get_left_right_power_for_tag_spec [of w tag m] assms(2) by (simp add: power_spec_def Let_def)
qed

theorem get_left_right_power_exceeds_max_witness:
  "get_left_right_power_for_tag \<lparr>tag_id = 1, center = (0, 240), corners = [], pose_t = (0, 0, 3)\<rparr> 640 127 = Inr (0, 254)
   \<and> (127 :: int) < 254"
proof -
  have d: "tag_distance \<lparr>tag_id = 1, center = (0, 240), corners = [], pose_t = (0, 0, 3)\<rparr> = 3"
    by (simp add: tag_distance_def)
  have "forward_power 3 127 = 127" using py_int_of_int [of 127] by (simp add: forward_power_def)
  then show ?thesis
    using get_left_right_power_exceeds_max [of 127 640 "\<lparr>tag_id = 1, center = (0, 240), corners = [], pose_t = (0, 0, 3)\<rparr>"] d
    by simp
qed

text \<open>
  \<^verbatim>\<open>rescale\<close> with the two ranges swapped undoes \<^verbatim>\<open>rescale\<close>,
  when both ranges are non-empty.
\<close>

theorem rescale_roundtrip:
  assumes "a \<noteq> b" "c \<noteq> d" "rescale v a b c d = Inr y"
  shows "rescale y c d a b = Inr v"
proof -
  have y: "y = c + (v - a) * ((d - c) / (b - a))"
    using assms by (simp add: rescale_def)
  have ba: "b - a \<noteq> 0" and dc: "d - c \<noteq> 0" using assms(1,2) by simp_all
  have "y - c = (v - a) * (d - c) / (b - a)" using y by simp
  then have "(y - c) * ((b - a) / (d - c)) = (v - a) * ((d - c) / (d - c)) * ((b - a) / (b - a))"
    by simp
  also have "\<dots> = v - a" using ba dc by simp
  finally have "a + (y - c) * ((b - a) / (d - c)) = v" by simp
  with assms(2) show ?thesis by (simp add: rescale_def)
qed

theorem rescale_roundtrip_witness:
  "rescale (3 / 2) 0 3 0 127 = Inr (127 / 2) \<and> rescale (127 / 2) 0 127 0 3 = Inr (3 / 2)"
proof -
  have fwd: "rescale (3 / 2) 0 3 0 127 = Inr (127 / 2)" by (simp add: rescale_def)
  have "rescale (127 / 2) 0 127 0 3 = Inr (3 / 2)"
    by (rule rescale_roundtrip [OF _ _ fwd]) simp_all
  with fwd show ?thesis by simp
qed

end
