(* ===== verification/TagSelector.thy ===== *)
theory TagSelector
  imports Prelude
begin

text \<open>
  The tag scans of the control loop of \<^verbatim>\<open>src/main.py\<close>: the search for the
  farthest tag (lines 96--99, the smallest vertical image coordinate, first one on
  ties), the scan for the turn tag in \<^verbatim>\<open>STATE_GO_FARTHEST\<close> (lines 114--117) and
  in \<^verbatim>\<open>STATE_GO_TURN\<close> (lines 119--123), and the search for the farthest tag that
  is not the turn tag in \<^verbatim>\<open>STATE_TURN_LEFT\<close> (lines 138--141). Each \<^verbatim>\<open>for\<close>
  loop is a recursive function over the detection list, its accumulator the loop
  variable. The lemmas prove them equal to reference definitions: the first tag of
  minimal vertical coordinate, \<^const>\<open>find\<close>, and the farthest tag of the filtered list.
\<close>

subsection \<open>Definitions\<close>

definition TAG_FORWARD :: int where
  "TAG_FORWARD = 1"

definition TAG_TURN_LEFT :: int where
  "TAG_TURN_LEFT = 2"

text \<open>
  The body of the farthest-tag loops (line 98, and line 140 after its id test):
  \<^verbatim>\<open>if farthest_tag is None or tag.center[1] < farthest_tag.center[1]: farthest_tag = tag\<close>.
\<close>

definition keep_farther :: "detection option \<Rightarrow> detection \<Rightarrow> detection option" where
  "keep_farther farthest tag =
     (case farthest of
        None \<Rightarrow> Some tag
      | Some f \<Rightarrow> if center_y tag < center_y f then Some tag else farthest)"

fun farthest_loop :: "detection option \<Rightarrow> detection list \<Rightarrow> detection option" where
  "farthest_loop farthest [] = farthest"
| "farthest_loop farthest (tag # tags) = farthest_loop (keep_farther farthest tag) tags"

definition farthest_tag :: "detection list \<Rightarrow> detection option" where
  "farthest_tag tags = farthest_loop None tags"

text \<open>\<^verbatim>\<open>STATE_GO_FARTHEST\<close>: \<^verbatim>\<open>for tag in tags: if tag.tag_id == TAG_TURN_LEFT: state = STATE_GO_TURN; break\<close>.\<close>

fun turn_tag_seen :: "detection list \<Rightarrow> bool" where
  "turn_tag_seen [] = False"
| "turn_tag_seen (tag # tags) = (if tag_id tag = TAG_TURN_LEFT then True else turn_tag_seen tags)"

text \<open>\<^verbatim>\<open>STATE_GO_TURN\<close>: the first tag with the turn id, \<^verbatim>\<open>None\<close> when there is none.\<close>

fun find_turn_tag :: "detection list \<Rightarrow> detection option" where
  "find_turn_tag [] = None"
| "find_turn_tag (tag # tags) = (if tag_id tag = TAG_TURN_LEFT then Some tag else find_turn_tag tags)"

text \<open>\<^verbatim>\<open>STATE_TURN_LEFT\<close>: the farthest tag whose id is not the turn id.\<close>

fun target_loop :: "detection option \<Rightarrow> detection list \<Rightarrow> detection option" where
  "target_loop target [] = target"
| "target_loop target (tag # tags) =
     target_loop (if tag_id tag \<noteq> TAG_TURN_LEFT then keep_farther target tag else target) tags"

definition target_tag :: "detection list \<Rightarrow> detection option" where
  "target_tag tags = target_loop None tags"

declare TAG_TURN_LEFT_def [model_defs] TAG_FORWARD_def [model_defs] keep_farther_def [model_defs]
  farthest_tag_def [model_defs] target_tag_def [model_defs]

subsection \<open>Reference definitions\<close>

text \<open>The first tag, in input order, whose vertical coordinate is the minimum.\<close>

definition first_min_y :: "detection list \<Rightarrow> detection option" where
  "first_min_y tags = find (\<lambda>t. center_y t = Min (center_y ` set tags)) tags"

subsection \<open>Loop lemmas\<close>

lemma farthest_loop_Some:
  "farthest_loop (Some f) tags
     = find (\<lambda>t. center_y t = Min (insert (center_y f) (center_y ` set tags))) (f # tags)"
proof (induction tags arbitrary: f)
  case Nil
  show ?case by simp
next
  case (Cons u us)
  let ?m = "Min (insert (center_y f) (center_y ` set (u # us)))"
  show ?case
  proof (cases "center_y u < center_y f")
    case True
    let ?mu = "Min (insert (center_y u) (center_y ` set us))"
    have "?m = min (center_y f) ?mu" by simp
    moreover have "?mu \<le> center_y u" by simp
    ultimately have m: "?m = ?mu" and "center_y f \<noteq> ?mu" using True by (auto simp: min_def)
    then show ?thesis unfolding m using True Cons.IH [of u]
      by (simp add: keep_farther_def)
  next
    case False
    let ?m' = "Min (insert (center_y f) (center_y ` set us))"
    have m: "?m = min (center_y u) ?m'"
      by (cases "us = []") (simp_all add: min.commute min.left_commute)
    have le: "?m' \<le> center_y f" by simp
    have keep: "farthest_loop (Some f) (u # us) = farthest_loop (Some f) us"
      using False by (simp add: keep_farther_def)
    show ?thesis
    proof (cases "center_y f = ?m'")
      case True
      with False m have m2: "?m = ?m'" by (simp add: min_def)
      show ?thesis unfolding m2 keep Cons.IH [of f] using True by simp
    next
      case ne: False
      have lt: "?m' < center_y f" using le ne by linarith
      have "min (center_y u) ?m' = ?m'" using lt False by (intro min_absorb2) linarith
      with m have m2: "?m = ?m'" by (rule trans)
      have "center_y u \<noteq> ?m'" using lt False by linarith
      then show ?thesis unfolding m2 keep Cons.IH [of f] using ne by simp
    qed
  qed
qed

lemma farthest_loop_None:
  "farthest_loop None tags = (case tags of [] \<Rightarrow> None | t # ts \<Rightarrow> farthest_loop (Some t) ts)"
  by (cases tags) (simp_all add: keep_farther_def)

lemma target_loop_filter:
  "target_loop acc tags = farthest_loop acc (filter (\<lambda>t. tag_id t \<noteq> TAG_TURN_LEFT) tags)"
  by (induction tags arbitrary: acc) simp_all

lemma farthest_tag_member: "farthest_tag tags = Some t \<Longrightarrow> t \<in> set tags"
  by (cases tags)
     (auto simp: farthest_tag_def farthest_loop_Some keep_farther_def dest: find_Some_member
       simp del: find.simps)

lemma farthest_tag_None_iff: "farthest_tag tags = None \<longleftrightarrow> tags = []"
proof (cases tags)
  case Nil
  then show ?thesis by (simp add: farthest_tag_def)
next
  case (Cons x xs)
  define M where "M = Min (insert (center_y x) (center_y ` set xs))"
  have eq: "farthest_tag tags = find (\<lambda>t. center_y t = M) tags"
    using Cons by (simp add: farthest_tag_def farthest_loop_Some keep_farther_def M_def del: find.simps)
  have "M \<in> insert (center_y x) (center_y ` set xs)"
    unfolding M_def by (rule Min_in) simp_all
  then have "M \<in> center_y ` set tags" using Cons by simp
  then obtain t0 where "t0 \<in> set tags" "center_y t0 = M" by auto
  then have "find (\<lambda>t. center_y t = M) tags \<noteq> None" by (auto simp: find_None_iff)
  with eq Cons show ?thesis by simp
qed

lemma find_turn_tag_member: "find_turn_tag tags = Some t \<Longrightarrow> t \<in> set tags"
  by (induction tags) (auto split: if_splits)

lemma target_tag_member: "target_tag tags = Some t \<Longrightarrow> t \<in> set tags"
  by (auto simp: target_tag_def target_loop_filter farthest_tag_def [symmetric]
      dest: farthest_tag_member)

lemma turn_tag_seen_list_ex: "turn_tag_seen tags = list_ex (\<lambda>t. tag_id t = TAG_TURN_LEFT) tags"
  by (induction tags) simp_all

subsection \<open>Properties of the tag selection\<close>

text \<open>
  Claim C21. The farthest-tag loop computes the first tag, in detection order, whose
  vertical image coordinate is the minimum over the frame (ties go to the tag
  encountered first, the strict \<^verbatim>\<open><\<close> of line 98). So it returns nothing exactly
  when no tag was detected; otherwise it returns one of the detected tags, and its
  vertical image coordinate is at most that of every detected tag.
\<close>

theorem farthest_tag_correct:
  "farthest_tag tags = first_min_y tags \<and>
   (farthest_tag tags = None \<longleftrightarrow> tags = []) \<and>
   (\<forall>t. farthest_tag tags = Some t \<longrightarrow> t \<in> set tags \<and> (\<forall>u \<in> set tags. center_y t \<le> center_y u))"
proof (cases tags)
  case Nil
  then show ?thesis by (simp add: farthest_tag_def first_min_y_def)
next
  case (Cons x xs)
  define M where "M = Min (insert (center_y x) (center_y ` set xs))"
  have first: "farthest_tag tags = first_min_y tags"
    using Cons by (simp add: farthest_tag_def first_min_y_def farthest_loop_Some keep_farther_def)
  have eq: "farthest_tag tags = find (\<lambda>t. center_y t = M) tags"
    using Cons by (simp add: farthest_tag_def farthest_loop_Some keep_farther_def M_def del: find.simps)
  have min: "t \<in> set tags \<and> (\<forall>u \<in> set tags. center_y t \<le> center_y u)"
    if "find (\<lambda>t. center_y t = M) tags = Some t" for t
  proof -
    from find_Some_member [OF that] have "center_y t = M" and "t \<in> set tags" by simp_all
    moreover have "\<forall>u \<in> set tags. M \<le> center_y u"
      unfolding M_def using Cons by simp
    ultimately show ?thesis by simp
  qed
  have "\<forall>t. farthest_tag tags = Some t \<longrightarrow> t \<in> set tags \<and> (\<forall>u \<in> set tags. center_y t \<le> center_y u)"
  proof (intro allI impI)
    fix t
    assume "farthest_tag tags = Some t"
    then have "find (\<lambda>t. center_y t = M) tags = Some t" by (simp only: eq)
    then show "t \<in> set tags \<and> (\<forall>u \<in> set tags. center_y t \<le> center_y u)" by (rule min)
  qed
  then show ?thesis by (rule conjI [OF first conjI [OF farthest_tag_None_iff]])
qed

theorem farthest_tag_correct_witness:
  "farthest_tag [\<lparr>tag_id = 1, center = (100, 300), corners = [], pose_t = (0, 0, 1)\<rparr>, \<lparr>tag_id = 2, center = (200, 120), corners = [], pose_t = (0, 0, 2)\<rparr>, \<lparr>tag_id = 1, center = (400, 120), corners = [], pose_t = (0, 0, 2)\<rparr>] = Some \<lparr>tag_id = 2, center = (200, 120), corners = [], pose_t = (0, 0, 2)\<rparr> \<and> \<lparr>tag_id = 2, center = (200, 120), corners = [], pose_t = (0, 0, 2)\<rparr> \<in> set [\<lparr>tag_id = 1, center = (100, 300), corners = [], pose_t = (0, 0, 1)\<rparr>, \<lparr>tag_id = 2, center = (200, 120), corners = [], pose_t = (0, 0, 2)\<rparr>, \<lparr>tag_id = 1, center = (400, 120), corners = [], pose_t = (0, 0, 2)\<rparr>]
   \<and> list_all (\<lambda>u. center_y \<lparr>tag_id = 2, center = (200, 120), corners = [], pose_t = (0, 0, 2)\<rparr> \<le> center_y u) [\<lparr>tag_id = 1, center = (100, 300), corners = [], pose_t = (0, 0, 1)\<rparr>, \<lparr>tag_id = 2, center = (200, 120), corners = [], pose_t = (0, 0, 2)\<rparr>, \<lparr>tag_id = 1, center = (400, 120), corners = [], pose_t = (0, 0, 2)\<rparr>]"
proof -
  have run: "farthest_tag [\<lparr>tag_id = 1, center = (100, 300), corners = [], pose_t = (0, 0, 1)\<rparr>, \<lparr>tag_id = 2, center = (200, 120), corners = [], pose_t = (0, 0, 2)\<rparr>, \<lparr>tag_id = 1, center = (400, 120), corners = [], pose_t = (0, 0, 2)\<rparr>] = Some \<lparr>tag_id = 2, center = (200, 120), corners = [], pose_t = (0, 0, 2)\<rparr>"
    by (simp add: model_defs)
  from farthest_tag_correct [of "[\<lparr>tag_id = 1, center = (100, 300), corners = [], pose_t = (0, 0, 1)\<rparr>, \<lparr>tag_id = 2, center = (200, 120), corners = [], pose_t = (0, 0, 2)\<rparr>, \<lparr>tag_id = 1, center = (400, 120), corners = [], pose_t = (0, 0, 2)\<rparr>]"] run
  have "\<lparr>tag_id = 2, center = (200, 120), corners = [], pose_t = (0, 0, 2)\<rparr> \<in> set [\<lparr>tag_id = 1, center = (100, 300), corners = [], pose_t = (0, 0, 1)\<rparr>, \<lparr>tag_id = 2, center = (200, 120), corners = [], pose_t = (0, 0, 2)\<rparr>, \<lparr>tag_id = 1, center = (400, 120), corners = [], pose_t = (0, 0, 2)\<rparr>] \<and> (\<forall>u \<in> set [\<lparr>tag_id = 1, center = (100, 300), corners = [], pose_t = (0, 0, 1)\<rparr>, \<lparr>tag_id = 2, center = (200, 120), corners = [], pose_t = (0, 0, 2)\<rparr>, \<lparr>tag_id = 1, center = (400, 120), corners = [], pose_t = (0, 0, 2)\<rparr>]. center_y \<lparr>tag_id = 2, center = (200, 120), corners = [], pose_t = (0, 0, 2)\<rparr> \<le> center_y u)"
    by blast
  with run show ?thesis by (simp add: list_all_iff)
qed

text \<open>
  Claim C22. The three other tag scans of the loop equal reference searches: the target
  search of \<^verbatim>\<open>STATE_TURN_LEFT\<close>, which tests the id inside the farthest-tag loop, is
  the farthest-tag search run on the tags whose id is not the turn id; the turn-tag scan
  of \<^verbatim>\<open>STATE_GO_TURN\<close> returns the first tag with the turn id (\<^const>\<open>find\<close>); the
  breaking scan of \<^verbatim>\<open>STATE_GO_FARTHEST\<close> fires exactly when that search finds a tag.
\<close>

theorem tag_scans_equal_references:
  "target_tag tags = farthest_tag (filter (\<lambda>t. tag_id t \<noteq> TAG_TURN_LEFT) tags)
   \<and> find_turn_tag tags = find (\<lambda>t. tag_id t = TAG_TURN_LEFT) tags
   \<and> turn_tag_seen tags = (find_turn_tag tags \<noteq> None)"
proof -
  have "target_tag tags = farthest_tag (filter (\<lambda>t. tag_id t \<noteq> TAG_TURN_LEFT) tags)"
    by (simp add: target_tag_def farthest_tag_def target_loop_filter)
  moreover have "find_turn_tag tags = find (\<lambda>t. tag_id t = TAG_TURN_LEFT) tags
      \<and> turn_tag_seen tags = (find_turn_tag tags \<noteq> None)"
    by (induction tags) simp_all
  ultimately show ?thesis by blast
qed

end
