(* ===== verification/MotionCommander.thy ===== *)
theory MotionCommander
  imports Prelude
begin

text \<open>
  The motor side of \<^verbatim>\<open>src/main.py\<close>: the Roboclaw commands the program issues,
  the per-tick translation of the two wheel powers into commands (lines 165--173) and
  the stop the exception handler of \<^verbatim>\<open>__main__\<close> sends (lines 194--195). The
  Roboclaw driver itself (\<^verbatim>\<open>roboclaw_3\<close>) is external: a command is a value of
  \<open>roboclaw_cmd\<close>, with the packet address (the byte \<^verbatim>\<open>0x80\<close>) and the integer
  the code passes as the speed.
\<close>

datatype roboclaw_cmd =
    ForwardM1 "8 word" int
  | BackwardM1 "8 word" int
  | ForwardM2 "8 word" int
  | BackwardM2 "8 word" int

definition ROBOCLAW_ADDRESS :: "8 word" where
  "ROBOCLAW_ADDRESS = 0x80"

text \<open>
  \<^verbatim>\<open>if left_speed > 0: roboclaw.ForwardM1(0x80, int(left_speed))\<close>
  \<^verbatim>\<open>else: roboclaw.BackwardM1(0x80, abs(int(left_speed)))\<close>, then the same for the
  right wheel on motor 2.
\<close>

definition drive_wheels :: "real \<Rightarrow> real \<Rightarrow> roboclaw_cmd list" where
  "drive_wheels left_speed right_speed =
     [if left_speed > 0 then ForwardM1 ROBOCLAW_ADDRESS (py_int left_speed)
      else BackwardM1 ROBOCLAW_ADDRESS \<bar>py_int left_speed\<bar>,
      if right_speed > 0 then ForwardM2 ROBOCLAW_ADDRESS (py_int right_speed)
      else BackwardM2 ROBOCLAW_ADDRESS \<bar>py_int right_speed\<bar>]"

text \<open>The guaranteed stop of the exception handler.\<close>

definition shutdown_stop :: "roboclaw_cmd list" where
  "shutdown_stop = [ForwardM1 ROBOCLAW_ADDRESS 0, ForwardM2 ROBOCLAW_ADDRESS 0]"

text \<open>The signed speed a command asks of its motor, and the motor it drives (1 or 2).\<close>

fun cmd_speed :: "roboclaw_cmd \<Rightarrow> int" where
  "cmd_speed (ForwardM1 _ v) = v"
| "cmd_speed (BackwardM1 _ v) = - v"
| "cmd_speed (ForwardM2 _ v) = v"
| "cmd_speed (BackwardM2 _ v) = - v"

fun cmd_motor :: "roboclaw_cmd \<Rightarrow> nat" where
  "cmd_motor (ForwardM1 _ _) = 1"
| "cmd_motor (BackwardM1 _ _) = 1"
| "cmd_motor (ForwardM2 _ _) = 2"
| "cmd_motor (BackwardM2 _ _) = 2"

fun cmd_magnitude :: "roboclaw_cmd \<Rightarrow> int" where
  "cmd_magnitude (ForwardM1 _ v) = v"
| "cmd_magnitude (BackwardM1 _ v) = v"
| "cmd_magnitude (ForwardM2 _ v) = v"
| "cmd_magnitude (BackwardM2 _ v) = v"

text \<open>The speed last commanded to motor \<open>m\<close> by a sequence of commands, if any.\<close>

definition motor_speed :: "nat \<Rightarrow> roboclaw_cmd list \<Rightarrow> int option" where
  "motor_speed m cmds = map_option cmd_speed (find (\<lambda>c. cmd_motor c = m) (rev cmds))"

declare drive_wheels_def [model_defs] shutdown_stop_def [model_defs] ROBOCLAW_ADDRESS_def [model_defs]

lemma drive_wheels_motors: "map cmd_motor (drive_wheels l r) = [1, 2]"
  by (simp add: drive_wheels_def)

lemma length_drive_wheels [simp]: "length (drive_wheels l r) = 2"
  by (simp add: drive_wheels_def)

lemma drive_wheels_speeds: "map cmd_speed (drive_wheels l r) = [py_int l, py_int r]"
proof -
  have "cmd_speed (if x > 0 then ForwardM1 a (py_int x) else BackwardM1 a \<bar>py_int x\<bar>) = py_int x"
    for x :: real and a
    using py_int_nonpos [of x] by auto
  moreover have "cmd_speed (if x > 0 then ForwardM2 a (py_int x) else BackwardM2 a \<bar>py_int x\<bar>) = py_int x"
    for x :: real and a
    using py_int_nonpos [of x] by auto
  ultimately show ?thesis by (simp add: drive_wheels_def)
qed

lemma drive_wheels_magnitudes: "map cmd_magnitude (drive_wheels l r) = [\<bar>py_int l\<bar>, \<bar>py_int r\<bar>]"
  using py_int_nonneg [of l] py_int_nonneg [of r] by (simp add: drive_wheels_def)

lemma motor_speed_shutdown:
  "motor_speed 1 (out @ shutdown_stop) = Some 0 \<and> motor_speed 2 (out @ shutdown_stop) = Some 0"
  by (simp add: motor_speed_def shutdown_stop_def)

lemma motor_speed_drive_wheels:
  "motor_speed 1 (out @ drive_wheels l r) = Some (py_int l)
   \<and> motor_speed 2 (out @ drive_wheels l r) = Some (py_int r)"
  using py_int_nonpos [of l] py_int_nonpos [of r]
  by (auto simp: motor_speed_def drive_wheels_def)

text \<open>The first command of a tick is motor 1's: alone, it changes motor 1 only.\<close>

lemma motor_speed_hd_drive_wheels:
  "motor_speed 1 (out @ [hd (drive_wheels l r)]) = Some (py_int l)
   \<and> motor_speed 2 (out @ [hd (drive_wheels l r)]) = motor_speed 2 out"
  using py_int_nonpos [of l] by (auto simp: motor_speed_def drive_wheels_def)

subsection \<open>Properties of the motor commands\<close>

text \<open>
  Claim C25. Each tick issues exactly two commands, motor 1 (left wheel) first and
  motor 2 (right wheel) second; each asks its motor for the truncated wheel power, with
  a non-negative magnitude, forward exactly when the power is positive.
\<close>

theorem drive_wheels_contract:
  "map cmd_motor (drive_wheels l r) = [1, 2]
   \<and> map cmd_speed (drive_wheels l r) = [py_int l, py_int r]
   \<and> list_all (\<lambda>c. 0 \<le> cmd_magnitude c) (drive_wheels l r)
   \<and> (drive_wheels l r ! 0 = ForwardM1 ROBOCLAW_ADDRESS (py_int l) \<longleftrightarrow> 0 < l)
   \<and> (drive_wheels l r ! 1 = ForwardM2 ROBOCLAW_ADDRESS (py_int r) \<longleftrightarrow> 0 < r)"
  using drive_wheels_motors drive_wheels_speeds drive_wheels_magnitudes [of l r]
  by (simp add: drive_wheels_def)

text \<open>
  Claim C26. A wheel power of exactly zero is sent as \<^verbatim>\<open>BackwardM1(0x80, 0)\<close> and
  \<^verbatim>\<open>BackwardM2(0x80, 0)\<close>: the test is \<^verbatim>\<open>> 0\<close>, so zero takes the backward branch,
  where the spec (section 4.4) says zero routes to forward-at-zero. The same holds for
  any power in \<open>(-1, 0]\<close>.
\<close>

theorem drive_wheels_zero_goes_backward:
  assumes "-1 < l" "l \<le> 0" "-1 < r" "r \<le> 0"
  shows "drive_wheels l r = [BackwardM1 ROBOCLAW_ADDRESS 0, BackwardM2 ROBOCLAW_ADDRESS 0]"
proof -
  have "py_int l = 0" "py_int r = 0" using assms by (simp_all add: py_int_small)
  with assms show ?thesis by (simp add: drive_wheels_def)
qed

theorem drive_wheels_zero_goes_backward_witness:
  "drive_wheels 0 0 = [BackwardM1 0x80 0, BackwardM2 0x80 0]"
  using drive_wheels_zero_goes_backward [of 0 0] by (simp add: ROBOCLAW_ADDRESS_def)

end
