(* ===== verification/Controller.thy ===== *)
theory Controller
  imports Prelude PowerModel TagSelector
begin

text \<open>
  The behaviour state machine of \<^verbatim>\<open>src/main.py\<close>: the local variables of
  \<^verbatim>\<open>main\<close> that live across iterations of the \<^verbatim>\<open>while\<close> loop (lines 46--54)
  as the record \<open>controller\<close>, the three states as \<open>nav_state\<close>, one handler per
  branch of the state dispatch (lines 105--150), the bookkeeping of missing frames and
  of the last time a tag was seen (lines 152--156), the snap of near-zero powers
  (lines 160--163) and their composition \<open>tick\<close>, one iteration of the loop from the
  detections to the powers handed to the motors (lines 95--163). \<open>run_ticks\<close> runs
  the ticks of a sequence of frames; \<open>state_name\<close> gives the string values the code
  stores in \<^verbatim>\<open>state\<close>. The reachable controllers are an inductive predicate; the
  invariant of snapped powers is proved over it by rule induction. The lemmas then give
  the error paths of a tick, the behaviour of each state, the decay on empty frames and
  the liveness of the turn state and of its timeout. The other invariants and the
  properties of runs are in theory \<open>ControllerInvariants\<close>.
\<close>

subsection \<open>State\<close>

datatype nav_state = STATE_GO_FARTHEST | STATE_GO_TURN | STATE_TURN_LEFT

text \<open>The code keeps the state as a string; these are the values of the three constants.\<close>

fun state_name :: "nav_state \<Rightarrow> string" where
  "state_name STATE_GO_FARTHEST = ''state_go_farthest''"
| "state_name STATE_GO_TURN = ''state_go_turn''"
| "state_name STATE_TURN_LEFT = ''state_turn_left''"

record controller =
  left_speed :: real
  right_speed :: real
  max_speed :: int
  state :: nav_state
  tag_missing_frames :: nat
  tag_last_seen :: millis
  width :: int

text \<open>The values \<^verbatim>\<open>main\<close> starts the loop with; \<open>w\<close> is the camera's frame width.\<close>

definition init_controller :: "int \<Rightarrow> controller" where
  "init_controller w =
     \<lparr>left_speed = 0, right_speed = 0, max_speed = 127, state = STATE_GO_FARTHEST,
      tag_missing_frames = 0, tag_last_seen = 0, width = w\<rparr>"

subsection \<open>The handlers of the three states\<close>

text \<open>\<^verbatim>\<open>left_speed, right_speed = get_left_right_power_for_tag(tag, width, max_speed)\<close>\<close>

definition set_speeds_for_tag :: "controller \<Rightarrow> detection \<Rightarrow> controller result" where
  "set_speeds_for_tag c tag =
     (case get_left_right_power_for_tag tag (width c) (max_speed c) of
        Inl e \<Rightarrow> Inl e
      | Inr (l, r) \<Rightarrow> Inr (c\<lparr>left_speed := of_int l, right_speed := of_int r\<rparr>))"

text \<open>\<^verbatim>\<open>left_speed = left_speed / 2; right_speed = right_speed / 2\<close>\<close>

definition halve_speeds :: "controller \<Rightarrow> controller" where
  "halve_speeds c = c\<lparr>left_speed := left_speed c / 2, right_speed := right_speed c / 2\<rparr>"

definition go_farthest_step :: "controller \<Rightarrow> detection list \<Rightarrow> controller result" where
  "go_farthest_step c tags =
     (let r = (case farthest_tag tags of
                 Some ft \<Rightarrow> set_speeds_for_tag c ft
               | None \<Rightarrow> Inr (halve_speeds c))
      in case r of
           Inl e \<Rightarrow> Inl e
         | Inr c' \<Rightarrow> Inr (if turn_tag_seen tags then c'\<lparr>state := STATE_GO_TURN\<rparr> else c'))"

definition go_turn_step :: "controller \<Rightarrow> detection list \<Rightarrow> millis \<Rightarrow> controller result" where
  "go_turn_step c tags now =
     (let turn_tag = find_turn_tag tags
      in if now - tag_last_seen c > 3000 then Inr (c\<lparr>state := STATE_TURN_LEFT\<rparr>)
         else case turn_tag of
                Some tt \<Rightarrow> set_speeds_for_tag c tt
              | None \<Rightarrow> Inr (halve_speeds c))"

definition turn_left_step :: "controller \<Rightarrow> detection list \<Rightarrow> controller result" where
  "turn_left_step c tags =
     (let turning_speed = 30 :: real;
          c1 = c\<lparr>left_speed := -1 * turning_speed, right_speed := turning_speed\<rparr>
      in case target_tag tags of
           None \<Rightarrow> Inr c1
         | Some target \<Rightarrow>
            (let center_error_percentage = 15 :: real;
                 distance_from_center = center_x target - of_int (width c) / 2
             in case rescale distance_from_center (-1 * (of_int (width c) / 2)) (of_int (width c) / 2)
                       (-100) 100 of
                  Inl e \<Rightarrow> Inl e
                | Inr distance_percentage \<Rightarrow>
                    if \<bar>distance_percentage\<bar> < center_error_percentage
                    then Inr (c1\<lparr>left_speed := 0, right_speed := 0, state := STATE_GO_FARTHEST\<rparr>)
                    else Inr c1))"

definition state_machine_step :: "controller \<Rightarrow> detection list \<Rightarrow> millis \<Rightarrow> controller result" where
  "state_machine_step c tags now =
     (case state c of
        STATE_GO_FARTHEST \<Rightarrow> go_farthest_step c tags
      | STATE_GO_TURN \<Rightarrow> go_turn_step c tags now
      | STATE_TURN_LEFT \<Rightarrow> turn_left_step c tags)"

subsection \<open>Bookkeeping, snap, one tick\<close>

definition update_tag_seen :: "controller \<Rightarrow> detection list \<Rightarrow> millis \<Rightarrow> controller" where
  "update_tag_seen c tags now =
     (if length tags = 0 then c\<lparr>tag_missing_frames := tag_missing_frames c + 1\<rparr>
      else c\<lparr>tag_missing_frames := 0, tag_last_seen := now\<rparr>)"

definition snap_speed :: "real \<Rightarrow> real" where
  "snap_speed x = (if \<bar>x\<bar> < 0.1 then 0 else x)"

definition snap_speeds :: "controller \<Rightarrow> controller" where
  "snap_speeds c = c\<lparr>left_speed := snap_speed (left_speed c), right_speed := snap_speed (right_speed c)\<rparr>"

definition tick :: "controller \<Rightarrow> detection list \<Rightarrow> millis \<Rightarrow> controller result" where
  "tick c tags now =
     (case state_machine_step c tags now of
        Inl e \<Rightarrow> Inl e
      | Inr c' \<Rightarrow> Inr (snap_speeds (update_tag_seen c' tags now)))"

fun run_ticks :: "controller \<Rightarrow> (detection list \<times> millis) list \<Rightarrow> controller result" where
  "run_ticks c [] = Inr c"
| "run_ticks c ((tags, now) # frames) =
     (case tick c tags now of Inl e \<Rightarrow> Inl e | Inr c' \<Rightarrow> run_ticks c' frames)"

declare init_controller_def [model_defs] set_speeds_for_tag_def [model_defs]
  halve_speeds_def [model_defs] go_farthest_step_def [model_defs] go_turn_step_def [model_defs]
  turn_left_step_def [model_defs] state_machine_step_def [model_defs]
  update_tag_seen_def [model_defs] snap_speed_def [model_defs] snap_speeds_def [model_defs]
  tick_def [model_defs]

subsection \<open>Reachable controllers\<close>

inductive reachable :: "controller \<Rightarrow> bool" where
  init: "reachable (init_controller w)"
| step: "reachable c \<Longrightarrow> tick c tags now = Inr c' \<Longrightarrow> reachable c'"

subsection \<open>Invariants and run predicates\<close>

text \<open>Each power is exactly 0 or at least 0.1 in magnitude.\<close>

definition speeds_snapped :: "controller \<Rightarrow> bool" where
  "speeds_snapped c \<longleftrightarrow>
     (left_speed c = 0 \<or> 0.1 \<le> \<bar>left_speed c\<bar>) \<and> (right_speed c = 0 \<or> 0.1 \<le> \<bar>right_speed c\<bar>)"

text \<open>One tick of the powers on an empty frame in \<^verbatim>\<open>STATE_GO_FARTHEST\<close>.\<close>

definition decay_step :: "real \<Rightarrow> real" where
  "decay_step x = snap_speed (x / 2)"

text \<open>
  The centring test of \<^verbatim>\<open>STATE_TURN_LEFT\<close> on a frame (lines 138--147): a target
  (farthest non-turn) tag within 15% of the half-width from the centre.
\<close>

definition target_centered :: "int \<Rightarrow> detection list \<Rightarrow> bool" where
  "target_centered w tags =
     (case target_tag tags of
        None \<Rightarrow> False
      | Some t \<Rightarrow> \<bar>200 * (center_x t - of_int w / 2) / of_int w\<bar> < 15)"

subsection \<open>Lemmas of the handlers\<close>

text \<open>
  The three strings differ, so the code's comparisons \<^verbatim>\<open>state == STATE_...\<close>
  dispatch exactly as the datatype's \<open>case\<close> does.
\<close>

lemma state_name_inj: "state_name s = state_name s' \<longleftrightarrow> s = s'"
  by (cases s; cases s') simp_all

lemma snap_speed_abs_le: "\<bar>snap_speed x\<bar> \<le> \<bar>x\<bar>"
  by (simp add: snap_speed_def)

lemma snap_speed_id: "x = 0 \<or> 0.1 \<le> \<bar>x\<bar> \<Longrightarrow> snap_speed x = x"
  by (auto simp: snap_speed_def)

lemma snap_speed_snapped: "snap_speed x = 0 \<or> 0.1 \<le> \<bar>snap_speed x\<bar>"
  by (simp add: snap_speed_def)

lemma snap_speed_sign: "0 \<le> x \<Longrightarrow> 0 \<le> snap_speed x"
  by (simp add: snap_speed_def)

lemma py_int_snap_speed [simp]: "py_int (snap_speed x) = py_int x"
  by (simp add: snap_speed_def py_int_small)

lemma set_speeds_for_tag_ok:
  "width c \<noteq> 0 \<Longrightarrow> set_speeds_for_tag c t =
     Inr (c\<lparr>left_speed := of_int (fst (power_spec t (width c) (max_speed c))),
            right_speed := of_int (snd (power_spec t (width c) (max_speed c)))\<rparr>)"
  by (simp add: set_speeds_for_tag_def get_left_right_power_for_tag_spec split: prod.splits)

lemma set_speeds_for_tag_zero_width:
  "width c = 0 \<Longrightarrow> set_speeds_for_tag c t = Inl ZeroDivisionError"
  by (simp add: set_speeds_for_tag_def get_left_right_power_for_tag_zero_width)

lemma percentage_rescale:
  assumes "w \<noteq> 0"
  shows "rescale d (- (of_int w / 2)) (of_int w / 2) (- 100) 100 = Inr (200 * d / of_int w)"
proof -
  have w: "(of_int w :: real) \<noteq> 0" using assms by simp
  have "- 100 + (d + of_int w / 2) * ((100 + 100) / (of_int w / 2 + of_int w / 2))
        = 200 * d / (of_int w :: real)"
    using w by (simp add: field_simps)
  with w show ?thesis by (simp add: rescale_def)
qed

lemma turn_left_step_eq:
  assumes "width c \<noteq> 0"
  shows "turn_left_step c tags =
    Inr (case target_tag tags of
           None \<Rightarrow> c\<lparr>left_speed := -30, right_speed := 30\<rparr>
         | Some target \<Rightarrow>
             if \<bar>200 * (center_x target - of_int (width c) / 2) / of_int (width c)\<bar> < 15
             then c\<lparr>left_speed := 0, right_speed := 0, state := STATE_GO_FARTHEST\<rparr>
             else c\<lparr>left_speed := -30, right_speed := 30\<rparr>)"
  using assms by (simp add: turn_left_step_def percentage_rescale split: option.splits)

lemma turn_left_step_error: "turn_left_step c tags = Inl e \<Longrightarrow> e = ZeroDivisionError"
  by (auto simp: turn_left_step_def rescale_def Let_def split: option.splits if_splits)

lemma turn_left_step_ok: "width c \<noteq> 0 \<Longrightarrow> \<exists>c'. turn_left_step c tags = Inr c'"
  by (auto simp: turn_left_step_def percentage_rescale Let_def split: option.splits)

lemma set_speeds_for_tag_error: "set_speeds_for_tag c t = Inl e \<Longrightarrow> e = ZeroDivisionError"
  by (cases "width c = 0") (simp_all add: set_speeds_for_tag_ok set_speeds_for_tag_zero_width)

lemma state_machine_step_total:
  "width c \<noteq> 0 \<Longrightarrow> \<exists>c'. state_machine_step c tags now = Inr c'"
  by (auto simp: state_machine_step_def go_farthest_step_def go_turn_step_def turn_left_step_ok
        set_speeds_for_tag_ok Let_def split: nav_state.splits option.splits)

lemma state_machine_step_error:
  assumes "state_machine_step c tags now = Inl e"
  shows "e = ZeroDivisionError \<and> width c = 0"
proof
  show "e = ZeroDivisionError"
    using assms
    by (auto simp: state_machine_step_def go_farthest_step_def go_turn_step_def Let_def
        dest: turn_left_step_error set_speeds_for_tag_error
        split: nav_state.splits option.splits if_splits sum.splits)
  show "width c = 0"
    using assms state_machine_step_total [of c tags now] by auto
qed

lemma tick_total: "width c \<noteq> 0 \<Longrightarrow> \<exists>c'. tick c tags now = Inr c'"
  using state_machine_step_total [of c tags now] by (auto simp: tick_def)

lemma tick_Inr:
  "tick c tags now = Inr c' \<longleftrightarrow>
   (\<exists>c1. state_machine_step c tags now = Inr c1 \<and> c' = snap_speeds (update_tag_seen c1 tags now))"
  by (auto simp: tick_def split: sum.splits)

lemma state_machine_step_frame:
  "state_machine_step c tags now = Inr c' \<Longrightarrow> width c' = width c \<and> max_speed c' = max_speed c"
  by (auto simp: state_machine_step_def go_farthest_step_def go_turn_step_def turn_left_step_def
        set_speeds_for_tag_def halve_speeds_def Let_def
        split: nav_state.splits option.splits if_splits sum.splits prod.splits)

lemma tick_frame:
  "tick c tags now = Inr c' \<Longrightarrow> width c' = width c \<and> max_speed c' = max_speed c"
  by (auto simp: tick_Inr update_tag_seen_def snap_speeds_def dest: state_machine_step_frame)

lemma tick_go_farthest_tagless:
  "state c = STATE_GO_FARTHEST \<Longrightarrow>
   \<exists>c'. tick c [] now = Inr c' \<and> state c' = STATE_GO_FARTHEST \<and> width c' = width c"
  by (simp add: tick_def state_machine_step_def go_farthest_step_def halve_speeds_def
      update_tag_seen_def snap_speeds_def turn_tag_seen_list_ex farthest_tag_None_iff [THEN iffD2, OF refl])

lemma tick_go_farthest_zero_width:
  "state c = STATE_GO_FARTHEST \<Longrightarrow> width c = 0 \<Longrightarrow> tags \<noteq> [] \<Longrightarrow>
   tick c tags now = Inl ZeroDivisionError"
  by (cases "farthest_tag tags")
     (simp_all add: farthest_tag_None_iff tick_def state_machine_step_def go_farthest_step_def
      set_speeds_for_tag_zero_width)

lemma snap_speeds_snapped: "speeds_snapped (snap_speeds c)"
  using snap_speed_snapped [of "left_speed c"] snap_speed_snapped [of "right_speed c"]
  by (simp add: speeds_snapped_def snap_speeds_def)

lemma snap_speeds_id: "speeds_snapped c \<Longrightarrow> snap_speeds c = c"
  by (simp add: speeds_snapped_def snap_speeds_def snap_speed_id)

lemma tick_snapped: "tick c tags now = Inr c' \<Longrightarrow> speeds_snapped c'"
  by (auto simp: tick_Inr snap_speeds_snapped)

lemma state_machine_step_keeps_bookkeeping:
  "state_machine_step c tags now = Inr c1 \<Longrightarrow>
   tag_missing_frames c1 = tag_missing_frames c \<and> tag_last_seen c1 = tag_last_seen c"
  by (auto simp: state_machine_step_def go_farthest_step_def go_turn_step_def turn_left_step_def
        set_speeds_for_tag_def halve_speeds_def Let_def
        split: nav_state.splits option.splits if_splits sum.splits prod.splits)

lemma tick_bookkeeping:
  "tick c tags now = Inr c' \<Longrightarrow>
   tag_missing_frames c' = (if tags = [] then tag_missing_frames c + 1 else 0) \<and>
   tag_last_seen c' = (if tags = [] then tag_last_seen c else now)"
  by (auto simp: tick_Inr update_tag_seen_def snap_speeds_def dest: state_machine_step_keeps_bookkeeping)

lemma run_ticks_append:
  "run_ticks c (xs @ ys) = (case run_ticks c xs of Inl e \<Rightarrow> Inl e | Inr c' \<Rightarrow> run_ticks c' ys)"
  by (induction c xs rule: run_ticks.induct) (simp_all split: sum.splits)

lemma run_ticks_frame:
  "run_ticks c frames = Inr c' \<Longrightarrow> width c' = width c \<and> max_speed c' = max_speed c"
  by (induction c frames rule: run_ticks.induct) (auto split: sum.splits dest: tick_frame)

subsubsection \<open>Decay of the powers on empty frames\<close>

lemma tick_go_farthest_empty:
  "state c = STATE_GO_FARTHEST \<Longrightarrow>
   tick c [] now = Inr (c\<lparr>left_speed := decay_step (left_speed c), right_speed := decay_step (right_speed c),
                          tag_missing_frames := tag_missing_frames c + 1\<rparr>)"
  by (simp add: tick_def state_machine_step_def go_farthest_step_def farthest_tag_def halve_speeds_def
      update_tag_seen_def snap_speeds_def decay_step_def)

lemma run_ticks_go_farthest_empty:
  "state c = STATE_GO_FARTHEST \<Longrightarrow> list_all (\<lambda>f. fst f = []) frames \<Longrightarrow>
   run_ticks c frames =
     Inr (c\<lparr>left_speed := (decay_step ^^ length frames) (left_speed c),
            right_speed := (decay_step ^^ length frames) (right_speed c),
            tag_missing_frames := tag_missing_frames c + length frames\<rparr>)"
proof (induction frames arbitrary: c)
  case Nil
  then show ?case by simp
next
  case (Cons f frames)
  obtain tags now where f: "f = (tags, now)" by (cases f)
  with Cons.prems have "tags = []" by simp
  with f Cons show ?case
    by (simp add: tick_go_farthest_empty funpow_Suc_right del: funpow.simps)
qed

lemma decay_abs_le: "\<bar>(decay_step ^^ n) x\<bar> \<le> \<bar>x\<bar> / 2 ^ n"
proof (induction n arbitrary: x)
  case 0
  then show ?case by simp
next
  case (Suc n)
  have "\<bar>decay_step x\<bar> \<le> \<bar>x\<bar> / 2"
    using snap_speed_abs_le [of "x / 2"] by (simp add: decay_step_def)
  then have "\<bar>decay_step x\<bar> / 2 ^ n \<le> \<bar>x\<bar> / 2 / 2 ^ n"
    by (rule divide_right_mono) simp
  with Suc.IH [of "decay_step x"] show ?case
    by (simp add: funpow_Suc_right del: funpow.simps)
qed

lemma decay_reaches_zero: "\<bar>x\<bar> < 2 ^ Suc n / 10 \<Longrightarrow> (decay_step ^^ Suc n) x = 0"
proof (induction n arbitrary: x)
  case 0
  then show ?case by (simp add: decay_step_def snap_speed_def)
next
  case (Suc n)
  have "\<bar>decay_step x\<bar> \<le> \<bar>x\<bar> / 2"
    using snap_speed_abs_le [of "x / 2"] by (simp add: decay_step_def)
  with Suc.prems have "\<bar>decay_step x\<bar> < 2 ^ Suc n / 10" by simp
  with Suc.IH [of "decay_step x"] show ?case
    by (simp only: funpow_Suc_right comp_def)
qed

lemma decay_nonneg: "0 \<le> x \<Longrightarrow> 0 \<le> (decay_step ^^ n) x"
  by (induction n arbitrary: x) (simp_all add: funpow_Suc_right decay_step_def snap_speed_sign del: funpow.simps)

subsubsection \<open>The pivot of the turn state\<close>

lemma tick_turn_left:
  assumes "state c = STATE_TURN_LEFT" "width c \<noteq> 0"
  shows "tick c tags now = Inr (update_tag_seen
           (if target_centered (width c) tags
            then c\<lparr>left_speed := 0, right_speed := 0, state := STATE_GO_FARTHEST\<rparr>
            else c\<lparr>left_speed := -30, right_speed := 30\<rparr>) tags now)"
  using assms
  by (auto simp: tick_def state_machine_step_def turn_left_step_def percentage_rescale Let_def
      target_centered_def update_tag_seen_def snap_speeds_def snap_speed_def split: option.splits)

lemma run_ticks_turn_left_pivots:
  assumes "state c = STATE_TURN_LEFT" "width c \<noteq> 0"
    and "list_all (\<lambda>f. \<not> target_centered (width c) (fst f)) frames"
  shows "\<exists>c1. run_ticks c frames = Inr c1 \<and> state c1 = STATE_TURN_LEFT \<and> width c1 = width c
           \<and> (frames \<noteq> [] \<longrightarrow> left_speed c1 = -30 \<and> right_speed c1 = 30)"
  using assms
proof (induction frames arbitrary: c)
  case Nil
  then show ?case by simp
next
  case (Cons f frames)
  obtain tags now where f: "f = (tags, now)" by (cases f)
  let ?c = "update_tag_seen (c\<lparr>left_speed := -30, right_speed := 30\<rparr>) tags now"
  have tick: "tick c tags now = Inr ?c"
    using tick_turn_left [OF Cons.prems(1,2)] Cons.prems(3) f by simp
  have c: "state ?c = STATE_TURN_LEFT" "width ?c = width c" "left_speed ?c = -30" "right_speed ?c = 30"
    using Cons.prems(1) by (simp_all add: update_tag_seen_def)
  with Cons.prems Cons.IH [of ?c] obtain c1 where
    "run_ticks ?c frames = Inr c1" "state c1 = STATE_TURN_LEFT" "width c1 = width c"
    "frames \<noteq> [] \<longrightarrow> left_speed c1 = -30 \<and> right_speed c1 = 30"
    by auto
  with tick c f show ?case by (cases "frames = []") auto
qed

lemma decay_nonpos: "x \<le> 0 \<Longrightarrow> (decay_step ^^ n) x \<le> 0"
  by (induction n arbitrary: x) (simp_all add: funpow_Suc_right decay_step_def snap_speed_def del: funpow.simps)

subsubsection \<open>The timeout of the turn-tag state\<close>

lemma tick_go_turn_empty:
  "state c = STATE_GO_TURN \<Longrightarrow> now - tag_last_seen c \<le> 3000 \<Longrightarrow>
   tick c [] now = Inr (c\<lparr>left_speed := decay_step (left_speed c), right_speed := decay_step (right_speed c),
                          tag_missing_frames := tag_missing_frames c + 1\<rparr>)"
  by (simp add: tick_def state_machine_step_def go_turn_step_def halve_speeds_def
      update_tag_seen_def snap_speeds_def decay_step_def)

lemma run_ticks_go_turn_empty:
  "state c = STATE_GO_TURN \<Longrightarrow> list_all (\<lambda>f. fst f = [] \<and> snd f - tag_last_seen c \<le> 3000) frames \<Longrightarrow>
   run_ticks c frames =
     Inr (c\<lparr>left_speed := (decay_step ^^ length frames) (left_speed c),
            right_speed := (decay_step ^^ length frames) (right_speed c),
            tag_missing_frames := tag_missing_frames c + length frames\<rparr>)"
proof (induction frames arbitrary: c)
  case Nil
  then show ?case by simp
next
  case (Cons f frames)
  obtain tags now where f: "f = (tags, now)" by (cases f)
  with Cons.prems have "tags = []" "now - tag_last_seen c \<le> 3000" by simp_all
  with f Cons show ?case
    by (simp add: tick_go_turn_empty funpow_Suc_right del: funpow.simps)
qed

subsection \<open>Properties of the state machine\<close>

text \<open>
  Claim C12. A tick fails only with \<open>ZeroDivisionError\<close>, and only for a frame width of
  0; for any other width every tick, in every state and on every frame, returns.
\<close>

theorem tick_errors_only_on_zero_width:
  "(\<forall>e. tick c tags now = Inl e \<longrightarrow> e = ZeroDivisionError \<and> width c = 0)
   \<and> (width c \<noteq> 0 \<longrightarrow> (\<exists>c'. tick c tags now = Inr c'))"
  using state_machine_step_error [of c tags now] state_machine_step_total [of c tags now]
  by (auto simp: tick_def split: sum.splits)

theorem tick_errors_only_on_zero_width_witness:
  "tick (init_controller 0) [\<lparr>tag_id = 2, center = (320, 100), corners = [], pose_t = (0, 0, 3 / 2)\<rparr>] 1000 = Inl ZeroDivisionError
   \<and> (\<exists>c'. tick (init_controller 640) [\<lparr>tag_id = 2, center = (320, 100), corners = [], pose_t = (0, 0, 3 / 2)\<rparr>] 1000 = Inr c')"
proof -
  have "tick (init_controller 0) [\<lparr>tag_id = 2, center = (320, 100), corners = [], pose_t = (0, 0, 3 / 2)\<rparr>] 1000 = Inl ZeroDivisionError"
    by (simp add: model_defs)
  moreover have "width (init_controller 640) \<noteq> 0" by (simp add: init_controller_def)
  ultimately show ?thesis
    using tick_errors_only_on_zero_width [of "init_controller 640" "[\<lparr>tag_id = 2, center = (320, 100), corners = [], pose_t = (0, 0, 3 / 2)\<rparr>]" 1000] by blast
qed

text \<open>
  Claim C6. In every controller reachable from the start, each wheel power is either
  exactly 0 or at least 0.1 in magnitude: the snap of lines 160--163 runs last in every
  tick and writes back into the loop variables.
\<close>

theorem reachable_speeds_snapped: "reachable c \<Longrightarrow> speeds_snapped c"
proof (induction rule: reachable.induct)
  case (init w)
  show ?case by (simp add: init_controller_def speeds_snapped_def)
next
  case (step c tags now c')
  from step.hyps(2) show ?case by (rule tick_snapped)
qed

theorem reachable_speeds_snapped_witness: "speeds_snapped \<lparr>left_speed = 63, right_speed = 63, max_speed = 127, state = STATE_GO_TURN, tag_missing_frames = 0, tag_last_seen = 1000, width = 640\<rparr>"
proof -
  have "tick (init_controller 640) [\<lparr>tag_id = 2, center = (320, 100), corners = [], pose_t = (0, 0, 3 / 2)\<rparr>] 1000 = Inr \<lparr>left_speed = 63, right_speed = 63, max_speed = 127, state = STATE_GO_TURN, tag_missing_frames = 0, tag_last_seen = 1000, width = 640\<rparr>"
    by (simp add: model_defs)
  then have "reachable \<lparr>left_speed = 63, right_speed = 63, max_speed = 127, state = STATE_GO_TURN, tag_missing_frames = 0, tag_last_seen = 1000, width = 640\<rparr>" by (rule reachable.step [OF reachable.init])
  then show ?thesis by (rule reachable_speeds_snapped)
qed

text \<open>
  Claim C7. In \<^verbatim>\<open>STATE_GO_FARTHEST\<close>, a frame containing the turn tag (id 2)
  moves the controller to \<^verbatim>\<open>STATE_GO_TURN\<close> on that tick, and records the tick's
  time as the last time a tag was seen.
\<close>

theorem tick_go_farthest_turn_tag:
  assumes "state c = STATE_GO_FARTHEST" "width c \<noteq> 0"
    and "list_ex (\<lambda>t. tag_id t = TAG_TURN_LEFT) tags"
  shows "\<exists>c'. tick c tags now = Inr c' \<and> state c' = STATE_GO_TURN \<and> tag_last_seen c' = now"
proof -
  have "tags \<noteq> []" using assms(3) by auto
  then obtain ft where ft: "farthest_tag tags = Some ft"
    using farthest_tag_None_iff [of tags] by auto
  with assms \<open>tags \<noteq> []\<close> show ?thesis
    by (simp add: tick_def state_machine_step_def go_farthest_step_def set_speeds_for_tag_ok
        turn_tag_seen_list_ex update_tag_seen_def snap_speeds_def)
qed

theorem tick_go_farthest_turn_tag_witness:
  "\<exists>c'. tick (init_controller 640) [\<lparr>tag_id = 2, center = (320, 100), corners = [], pose_t = (0, 0, 3 / 2)\<rparr>] 1000 = Inr c' \<and> state c' = STATE_GO_TURN \<and> tag_last_seen c' = 1000"
  by (rule tick_go_farthest_turn_tag) (simp_all add: init_controller_def TAG_TURN_LEFT_def)

text \<open>
  Claim C9. In \<^verbatim>\<open>STATE_GO_TURN\<close>, once more than 3000 ms have passed since a
  tag was last seen, the tick moves to \<^verbatim>\<open>STATE_TURN_LEFT\<close> and leaves the wheel
  powers as they were (for the snapped powers every reachable controller has), whatever
  the frame holds and whatever the frame width.
\<close>

theorem tick_go_turn_timeout:
  assumes "state c = STATE_GO_TURN" "3000 < now - tag_last_seen c" "speeds_snapped c"
  shows "\<exists>c'. tick c tags now = Inr c' \<and> state c' = STATE_TURN_LEFT
              \<and> left_speed c' = left_speed c \<and> right_speed c' = right_speed c"
proof -
  have "snap_speed (left_speed c) = left_speed c" "snap_speed (right_speed c) = right_speed c"
    using assms(3) by (simp_all add: speeds_snapped_def snap_speed_id)
  with assms(1,2) show ?thesis
    by (simp add: tick_def state_machine_step_def go_turn_step_def update_tag_seen_def snap_speeds_def)
qed

theorem tick_go_turn_timeout_witness:
  "\<exists>c'. tick \<lparr>left_speed = 63, right_speed = 63, max_speed = 127, state = STATE_GO_TURN, tag_missing_frames = 0, tag_last_seen = 1000, width = 640\<rparr> [] 4001 = Inr c' \<and> state c' = STATE_TURN_LEFT \<and> left_speed c' = 63 \<and> right_speed c' = 63"
  using tick_go_turn_timeout [of "\<lparr>left_speed = 63, right_speed = 63, max_speed = 127, state = STATE_GO_TURN, tag_missing_frames = 0, tag_last_seen = 1000, width = 640\<rparr>" 4001 "[]"] by (simp add: speeds_snapped_def)

text \<open>
  Claim C10. In \<^verbatim>\<open>STATE_TURN_LEFT\<close>, when the farthest non-turn tag lies within 15%
  of the half-width from the centre (the code's percentage
  \<^verbatim>\<open>rescale(x - w/2, -w/2, w/2, -100, 100)\<close>, which is \<open>200 (x - w/2) / w\<close>), the
  tick stops both wheels and moves to \<^verbatim>\<open>STATE_GO_FARTHEST\<close>.
\<close>

theorem tick_turn_left_centered:
  assumes "state c = STATE_TURN_LEFT" "width c \<noteq> 0" "target_tag tags = Some t"
    and "\<bar>200 * (center_x t - of_int (width c) / 2) / of_int (width c)\<bar> < 15"
  shows "\<exists>c'. tick c tags now = Inr c' \<and> state c' = STATE_GO_FARTHEST
              \<and> left_speed c' = 0 \<and> right_speed c' = 0"
  using assms
  by (simp add: tick_def state_machine_step_def turn_left_step_eq update_tag_seen_def
      snap_speeds_def snap_speed_def)

theorem tick_turn_left_centered_witness:
  "\<exists>c'. tick \<lparr>left_speed = -30, right_speed = 30, max_speed = 127, state = STATE_TURN_LEFT, tag_missing_frames = 0, tag_last_seen = 1000, width = 640\<rparr> [\<lparr>tag_id = 1, center = (352, 200), corners = [], pose_t = (0, 0, 2)\<rparr>] 1500 = Inr c' \<and> state c' = STATE_GO_FARTHEST
        \<and> left_speed c' = 0 \<and> right_speed c' = 0"
proof -
  have "target_tag [\<lparr>tag_id = 1, center = (352, 200), corners = [], pose_t = (0, 0, 2)\<rparr>] = Some \<lparr>tag_id = 1, center = (352, 200), corners = [], pose_t = (0, 0, 2)\<rparr>" by (simp add: model_defs)
  then show ?thesis
    by (rule tick_turn_left_centered [rotated 2]) simp_all
qed

text \<open>
  Claim C11. In \<^verbatim>\<open>STATE_TURN_LEFT\<close>, unless a non-turn tag is centred within 15%,
  the tick sets the pivot powers \<open>-30\<close> (left) and \<open>30\<close> (right) and stays in
  \<^verbatim>\<open>STATE_TURN_LEFT\<close>; a centred turn tag does not count.
\<close>

theorem tick_turn_left_pivot:
  assumes "state c = STATE_TURN_LEFT" "width c \<noteq> 0"
    and "\<forall>t. target_tag tags = Some t \<longrightarrow>
           15 \<le> \<bar>200 * (center_x t - of_int (width c) / 2) / of_int (width c)\<bar>"
  shows "\<exists>c'. tick c tags now = Inr c' \<and> state c' = STATE_TURN_LEFT
              \<and> left_speed c' = -30 \<and> right_speed c' = 30"
  using assms
  by (auto simp: tick_def state_machine_step_def turn_left_step_eq update_tag_seen_def
      snap_speeds_def snap_speed_def split: option.splits)

theorem tick_turn_left_pivot_witness:
  "\<exists>c'. tick \<lparr>left_speed = -30, right_speed = 30, max_speed = 127, state = STATE_TURN_LEFT, tag_missing_frames = 0, tag_last_seen = 1000, width = 640\<rparr> [\<lparr>tag_id = 2, center = (320, 100), corners = [], pose_t = (0, 0, 3 / 2)\<rparr>, \<lparr>tag_id = 1, center = (600, 200), corners = [], pose_t = (0, 0, 2)\<rparr>] 1500 = Inr c' \<and> state c' = STATE_TURN_LEFT
        \<and> left_speed c' = -30 \<and> right_speed c' = 30"
proof -
  have "target_tag [\<lparr>tag_id = 2, center = (320, 100), corners = [], pose_t = (0, 0, 3 / 2)\<rparr>, \<lparr>tag_id = 1, center = (600, 200), corners = [], pose_t = (0, 0, 2)\<rparr>] = Some \<lparr>tag_id = 1, center = (600, 200), corners = [], pose_t = (0, 0, 2)\<rparr>" by (simp add: model_defs)
  then show ?thesis by (intro tick_turn_left_pivot) simp_all
qed

text \<open>
  Claim C14. In \<^verbatim>\<open>STATE_GO_FARTHEST\<close>, frames without tags halve both powers on
  every tick and the snap then sets them to exactly 0: after \<open>n \<ge> 1\<close> empty frames,
  powers below \<open>2^n / 10\<close> in magnitude have reached 0, and the state has not changed.
\<close>

theorem go_farthest_empty_frames_stop:
  assumes "state c = STATE_GO_FARTHEST" "frames \<noteq> []" "list_all (\<lambda>f. fst f = []) frames"
    and "\<bar>left_speed c\<bar> < 2 ^ length frames / 10" "\<bar>right_speed c\<bar> < 2 ^ length frames / 10"
  shows "\<exists>c'. run_ticks c frames = Inr c' \<and> state c' = STATE_GO_FARTHEST
              \<and> left_speed c' = 0 \<and> right_speed c' = 0"
proof -
  obtain n where n: "length frames = Suc n" using assms(2) by (cases frames) auto
  have "(decay_step ^^ Suc n) (left_speed c) = 0" "(decay_step ^^ Suc n) (right_speed c) = 0"
    using assms(4,5) n by (simp_all only: decay_reaches_zero)
  with run_ticks_go_farthest_empty [OF assms(1,3)] n assms(1) show ?thesis by simp
qed

theorem go_farthest_empty_frames_stop_witness:
  "\<exists>c'. run_ticks \<lparr>left_speed = 12, right_speed = -12, max_speed = 127, state = STATE_GO_FARTHEST, tag_missing_frames = 0, tag_last_seen = 1000, width = 640\<rparr> (replicate 7 ([], 0)) = Inr c' \<and> state c' = STATE_GO_FARTHEST
        \<and> left_speed c' = 0 \<and> right_speed c' = 0"
  by (rule go_farthest_empty_frames_stop) (simp_all add: list_all_iff)

text \<open>
  Claim C15. In \<^verbatim>\<open>STATE_GO_FARTHEST\<close>, after \<open>n\<close> frames without tags each power
  is at most its starting magnitude divided by \<open>2^n\<close>, and it never changes sign:
  the decay moves towards 0 without crossing it.
\<close>

theorem go_farthest_empty_frames_halve:
  assumes "state c = STATE_GO_FARTHEST" "list_all (\<lambda>f. fst f = []) frames"
  shows "\<exists>c'. run_ticks c frames = Inr c' \<and> state c' = STATE_GO_FARTHEST
     \<and> \<bar>left_speed c'\<bar> \<le> \<bar>left_speed c\<bar> / 2 ^ length frames
     \<and> \<bar>right_speed c'\<bar> \<le> \<bar>right_speed c\<bar> / 2 ^ length frames
     \<and> (0 \<le> left_speed c \<longrightarrow> 0 \<le> left_speed c') \<and> (left_speed c \<le> 0 \<longrightarrow> left_speed c' \<le> 0)
     \<and> (0 \<le> right_speed c \<longrightarrow> 0 \<le> right_speed c') \<and> (right_speed c \<le> 0 \<longrightarrow> right_speed c' \<le> 0)"
  using run_ticks_go_farthest_empty [OF assms] assms(1)
  by (simp add: decay_abs_le decay_nonneg decay_nonpos del: funpow.simps)

theorem go_farthest_empty_frames_halve_witness:
  "\<exists>c'. run_ticks \<lparr>left_speed = 12, right_speed = -12, max_speed = 127, state = STATE_GO_FARTHEST, tag_missing_frames = 0, tag_last_seen = 1000, width = 640\<rparr> [([], 0), ([], 0)] = Inr c' \<and> state c' = STATE_GO_FARTHEST
     \<and> \<bar>left_speed c'\<bar> \<le> 12 / 4 \<and> \<bar>right_speed c'\<bar> \<le> 12 / 4 \<and> 0 \<le> left_speed c' \<and> right_speed c' \<le> 0"
  using go_farthest_empty_frames_halve [of "\<lparr>left_speed = 12, right_speed = -12, max_speed = 127, state = STATE_GO_FARTHEST, tag_missing_frames = 0, tag_last_seen = 1000, width = 640\<rparr>" "[([], 0), ([], 0)]"] by simp

text \<open>
  Claim C31. Liveness of \<^verbatim>\<open>STATE_TURN_LEFT\<close>: from the turn state, on frames
  without a centred non-turn tag the robot pivots in place at \<open>(-30, 30)\<close> and stays
  in the state, after each of them; the first frame with a centred non-turn tag ends the
  turn, stopping both wheels in \<^verbatim>\<open>STATE_GO_FARTHEST\<close>.
\<close>

theorem turn_left_until_centered:
  assumes "state c = STATE_TURN_LEFT" "width c \<noteq> 0"
    and "list_all (\<lambda>f. \<not> target_centered (width c) (fst f)) pre"
    and "target_centered (width c) tags"
  shows "\<exists>c'. run_ticks c (pre @ [(tags, now)]) = Inr c' \<and> state c' = STATE_GO_FARTHEST
              \<and> left_speed c' = 0 \<and> right_speed c' = 0
              \<and> list_all (\<lambda>i. \<exists>ci. run_ticks c (take (Suc i) pre) = Inr ci
                                 \<and> state ci = STATE_TURN_LEFT \<and> left_speed ci = -30 \<and> right_speed ci = 30)
                   [0..<length pre]"
proof -
  from run_ticks_turn_left_pivots [OF assms(1-3)] obtain c1 where
    run: "run_ticks c pre = Inr c1" and c1: "state c1 = STATE_TURN_LEFT" "width c1 = width c"
    by blast
  let ?c = "update_tag_seen (c1\<lparr>left_speed := 0, right_speed := 0, state := STATE_GO_FARTHEST\<rparr>) tags now"
  have "tick c1 tags now = Inr ?c"
    using tick_turn_left [of c1 tags now] c1 assms(2,4) by simp
  then have "run_ticks c (pre @ [(tags, now)]) = Inr ?c"
    using run by (simp add: run_ticks_append)
  moreover have "state ?c = STATE_GO_FARTHEST" "left_speed ?c = 0" "right_speed ?c = 0"
    by (simp_all add: update_tag_seen_def)
  moreover have "\<exists>ci. run_ticks c (take (Suc i) pre) = Inr ci
                   \<and> state ci = STATE_TURN_LEFT \<and> left_speed ci = -30 \<and> right_speed ci = 30"
    if "i < length pre" for i
  proof -
    have "list_all (\<lambda>f. \<not> target_centered (width c) (fst f)) (take (Suc i) pre)"
      using assms(3) by (auto simp: list_all_iff dest: in_set_takeD)
    from run_ticks_turn_left_pivots [OF assms(1,2) this] that show ?thesis by auto
  qed
  ultimately show ?thesis by (auto simp: list_all_iff)
qed

theorem turn_left_until_centered_witness:
  "\<exists>c'. run_ticks \<lparr>left_speed = -30, right_speed = 30, max_speed = 127, state = STATE_TURN_LEFT, tag_missing_frames = 0, tag_last_seen = 1000, width = 640\<rparr>
          [([], 1100), ([\<lparr>tag_id = 2, center = (320, 200), corners = [], pose_t = (0, 0, 2)\<rparr>], 1150), ([\<lparr>tag_id = 1, center = (352, 200), corners = [], pose_t = (0, 0, 2)\<rparr>], 1200)] = Inr c'
     \<and> state c' = STATE_GO_FARTHEST \<and> left_speed c' = 0 \<and> right_speed c' = 0"
proof -
  have "\<exists>c'. run_ticks \<lparr>left_speed = -30, right_speed = 30, max_speed = 127, state = STATE_TURN_LEFT, tag_missing_frames = 0, tag_last_seen = 1000, width = 640\<rparr>
          ([([], 1100), ([\<lparr>tag_id = 2, center = (320, 200), corners = [], pose_t = (0, 0, 2)\<rparr>], 1150)] @ [([\<lparr>tag_id = 1, center = (352, 200), corners = [], pose_t = (0, 0, 2)\<rparr>], 1200)]) = Inr c'
     \<and> state c' = STATE_GO_FARTHEST \<and> left_speed c' = 0 \<and> right_speed c' = 0
     \<and> list_all (\<lambda>i. \<exists>ci. run_ticks \<lparr>left_speed = -30, right_speed = 30, max_speed = 127, state = STATE_TURN_LEFT, tag_missing_frames = 0, tag_last_seen = 1000, width = 640\<rparr>
            (take (Suc i) [([], 1100), ([\<lparr>tag_id = 2, center = (320, 200), corners = [], pose_t = (0, 0, 2)\<rparr>], 1150)]) = Inr ci
          \<and> state ci = STATE_TURN_LEFT \<and> left_speed ci = -30 \<and> right_speed ci = 30)
          [0..<length [([], 1100 :: millis), ([\<lparr>tag_id = 2, center = (320, 200), corners = [], pose_t = (0, 0, 2)\<rparr>], 1150)]]"
    by (rule turn_left_until_centered) (simp_all add: target_centered_def model_defs)
  then show ?thesis by (simp only: append_Cons append_Nil) blast
qed


text \<open>
  Claim C23. Liveness of \<^verbatim>\<open>STATE_GO_TURN\<close> by its timeout: on frames without tags
  that come within 3000 ms of the last sighting, the state stays and the powers decay
  (each at most the start power divided by \<open>2^n\<close> after \<open>n\<close> frames); the first
  frame more than 3000 ms after the last sighting moves to \<^verbatim>\<open>STATE_TURN_LEFT\<close>,
  whatever it shows, the turn tag included, since the timeout is tested first.
\<close>

theorem go_turn_times_out:
  assumes "state c = STATE_GO_TURN"
    and "list_all (\<lambda>f. fst f = [] \<and> snd f - tag_last_seen c \<le> 3000) pre"
    and "3000 < now - tag_last_seen c"
  shows "\<exists>c'. run_ticks c (pre @ [(tags, now)]) = Inr c' \<and> state c' = STATE_TURN_LEFT
              \<and> \<bar>left_speed c'\<bar> \<le> \<bar>left_speed c\<bar> / 2 ^ length pre
              \<and> \<bar>right_speed c'\<bar> \<le> \<bar>right_speed c\<bar> / 2 ^ length pre"
proof -
  let ?n = "length pre"
  let ?c1 = "c\<lparr>left_speed := (decay_step ^^ ?n) (left_speed c),
                right_speed := (decay_step ^^ ?n) (right_speed c),
                tag_missing_frames := tag_missing_frames c + ?n\<rparr>"
  have run: "run_ticks c pre = Inr ?c1" by (rule run_ticks_go_turn_empty [OF assms(1,2)])
  let ?c' = "snap_speeds (update_tag_seen (?c1\<lparr>state := STATE_TURN_LEFT\<rparr>) tags now)"
  have "tick ?c1 tags now = Inr ?c'"
    using assms(1,3) by (simp add: tick_def state_machine_step_def go_turn_step_def)
  with run have "run_ticks c (pre @ [(tags, now)]) = Inr ?c'"
    by (simp add: run_ticks_append)
  moreover have "state ?c' = STATE_TURN_LEFT"
    by (simp add: snap_speeds_def update_tag_seen_def)
  moreover have "\<bar>left_speed ?c'\<bar> \<le> \<bar>left_speed c\<bar> / 2 ^ ?n"
    using snap_speed_abs_le [of "(decay_step ^^ ?n) (left_speed c)"] decay_abs_le [of ?n "left_speed c"]
    by (simp add: snap_speeds_def update_tag_seen_def)
  moreover have "\<bar>right_speed ?c'\<bar> \<le> \<bar>right_speed c\<bar> / 2 ^ ?n"
    using snap_speed_abs_le [of "(decay_step ^^ ?n) (right_speed c)"] decay_abs_le [of ?n "right_speed c"]
    by (simp add: snap_speeds_def update_tag_seen_def)
  ultimately show ?thesis by blast
qed

theorem go_turn_times_out_witness:
  "\<exists>c'. run_ticks \<lparr>left_speed = 63, right_speed = 63, max_speed = 127, state = STATE_GO_TURN, tag_missing_frames = 0, tag_last_seen = 1000, width = 640\<rparr>
          [([], 2000), ([], 3500), ([\<lparr>tag_id = 2, center = (320, 100), corners = [], pose_t = (0, 0, 3 / 2)\<rparr>], 4001)] = Inr c'
     \<and> state c' = STATE_TURN_LEFT \<and> \<bar>left_speed c'\<bar> \<le> 63 / 4 \<and> \<bar>right_speed c'\<bar> \<le> 63 / 4"
proof -
  have "\<exists>c'. run_ticks \<lparr>left_speed = 63, right_speed = 63, max_speed = 127, state = STATE_GO_TURN, tag_missing_frames = 0, tag_last_seen = 1000, width = 640\<rparr>
          ([([], 2000), ([], 3500)] @ [([\<lparr>tag_id = 2, center = (320, 100), corners = [], pose_t = (0, 0, 3 / 2)\<rparr>], 4001)]) = Inr c'
     \<and> state c' = STATE_TURN_LEFT
     \<and> \<bar>left_speed c'\<bar> \<le> \<bar>left_speed \<lparr>left_speed = 63, right_speed = 63, max_speed = 127, state = STATE_GO_TURN, tag_missing_frames = 0, tag_last_seen = 1000, width = 640\<rparr>\<bar> / 2 ^ length [([] :: detection list, 2000 :: millis), ([], 3500)]
     \<and> \<bar>right_speed c'\<bar> \<le> \<bar>right_speed \<lparr>left_speed = 63, right_speed = 63, max_speed = 127, state = STATE_GO_TURN, tag_missing_frames = 0, tag_last_seen = 1000, width = 640\<rparr>\<bar> / 2 ^ length [([] :: detection list, 2000 :: millis), ([], 3500)]"
    by (rule go_turn_times_out) simp_all
  then show ?thesis by (simp only: append_Cons append_Nil) simp
qed

end
