(* ===== verification/ControllerInvariants.thy ===== *)
theory ControllerInvariants
  imports Controller
begin

text \<open>
  The invariants of the state machine of \<^verbatim>\<open>src/main.py\<close> (lines 96--160) and the
  properties of runs of it, over the handlers of theory \<open>Controller\<close>: the transition
  table of the spec as the relation \<open>nav_transition\<close>; the bound on the powers for
  controllers reached on frames within range (\<open>reachable_in_range\<close>), which the motor
  commands of \<open>MainLoop\<close> rely on; the exact dyadic values the powers take
  (\<open>halved_int\<close>); the bookkeeping of a run; the hold of the turn-tag state while tags
  are seen; and the last-seen time along a run, which follows the wall clock.
\<close>

subsection \<open>The transition table and the range of frames\<close>

text \<open>
  Frames the camera can produce for the power bound: every tag at most 3 metres away
  with its centre inside the frame.
\<close>

definition frame_in_range :: "int \<Rightarrow> detection list \<Rightarrow> bool" where
  "frame_in_range w tags =
     list_all (\<lambda>t. tag_distance t \<le> 3 \<and> 0 \<le> center_x t \<and> center_x t \<le> of_int w) tags"

inductive reachable_in_range :: "controller \<Rightarrow> bool" where
  init: "127 < w \<Longrightarrow> reachable_in_range (init_controller w)"
| step: "reachable_in_range c \<Longrightarrow> frame_in_range (width c) tags \<Longrightarrow> tick c tags now = Inr c'
         \<Longrightarrow> reachable_in_range c'"


text \<open>
  The transition table of the spec (section 4.3): each state may stay, and the only moves
  are \<^verbatim>\<open>GoFarthest\<close> to \<^verbatim>\<open>GoTurn\<close>, \<^verbatim>\<open>GoTurn\<close> to \<^verbatim>\<open>TurnLeft\<close>
  and \<^verbatim>\<open>TurnLeft\<close> to \<^verbatim>\<open>GoFarthest\<close>.
\<close>

inductive nav_transition :: "nav_state \<Rightarrow> nav_state \<Rightarrow> bool" where
  stay: "nav_transition s s"
| farthest_to_turn: "nav_transition STATE_GO_FARTHEST STATE_GO_TURN"
| turn_to_left: "nav_transition STATE_GO_TURN STATE_TURN_LEFT"
| left_to_farthest: "nav_transition STATE_TURN_LEFT STATE_GO_FARTHEST"

inductive_cases nav_transition_fromE: "nav_transition s t"

inductive_simps nav_transition_simps: "nav_transition s t"

subsection \<open>Invariants and run predicates\<close>

text \<open>The maximum power, the frame width and the bound on the powers.\<close>

definition speeds_bounded :: "controller \<Rightarrow> bool" where
  "speeds_bounded c \<longleftrightarrow>
     max_speed c = 127 \<and> 127 < width c \<and> \<bar>left_speed c\<bar> \<le> 254 \<and> \<bar>right_speed c\<bar> \<le> 254"

text \<open>
  A power as a Python value: an int, or an int divided by 2 some number of times. Halving
  an int is exact in binary floating point, so these are the values the model's reals
  take exactly.
\<close>

definition halved_int :: "real \<Rightarrow> bool" where
  "halved_int x \<longleftrightarrow> (\<exists>k :: int. \<exists>j :: nat. x = of_int k / 2 ^ j)"

definition speeds_halved_int :: "controller \<Rightarrow> bool" where
  "speeds_halved_int c \<longleftrightarrow> halved_int (left_speed c) \<and> halved_int (right_speed c)"

text \<open>Every frame shows some tag and comes at most 3000 ms after the previous one.\<close>

fun tags_seen_within :: "millis \<Rightarrow> (detection list \<times> millis) list \<Rightarrow> bool" where
  "tags_seen_within last_seen [] = True"
| "tags_seen_within last_seen ((tags, now) # frames) =
     (tags \<noteq> [] \<and> now - last_seen \<le> 3000 \<and> tags_seen_within now frames)"

subsection \<open>Lemmas of the invariants\<close>

lemma halved_int_of_int [simp]: "halved_int (of_int k)"
  unfolding halved_int_def by (rule exI [of _ k], rule exI [of _ 0]) simp

lemma halved_int_numerals [simp]: "halved_int 0" "halved_int (numeral n)" "halved_int (- numeral n)"
  using halved_int_of_int [of 0] halved_int_of_int [of "numeral n"] halved_int_of_int [of "- numeral n"]
  by simp_all

lemma halved_int_half: "halved_int x \<Longrightarrow> halved_int (x / 2)"
proof -
  assume "halved_int x"
  then obtain k j where "x = of_int k / 2 ^ j" by (auto simp: halved_int_def)
  then have "x / 2 = of_int k / 2 ^ Suc j" by simp
  then show ?thesis unfolding halved_int_def by blast
qed

lemma halved_int_snap: "halved_int x \<Longrightarrow> halved_int (snap_speed x)"
  by (simp add: snap_speed_def)

lemma state_machine_step_transition:
  "state_machine_step c tags now = Inr c' \<Longrightarrow> nav_transition (state c) (state c')"
  by (auto simp: state_machine_step_def go_farthest_step_def go_turn_step_def turn_left_step_def
        set_speeds_for_tag_def halve_speeds_def nav_transition_simps Let_def
        split: nav_state.splits option.splits if_splits sum.splits prod.splits)

lemma set_speeds_for_tag_bounded:
  assumes "speeds_bounded c" "tag_distance t \<le> 3" "0 \<le> center_x t" "center_x t \<le> of_int (width c)"
  shows "\<exists>c'. set_speeds_for_tag c t = Inr c' \<and> speeds_bounded c'"
proof -
  have m: "max_speed c = 127" "127 < width c" using assms(1) by (simp_all add: speeds_bounded_def)
  then have "0 \<le> max_speed c" "max_speed c < width c" by simp_all
  from power_spec_bounded [OF this assms(2-4)] m
  have "\<bar>fst (power_spec t (width c) (max_speed c))\<bar> \<le> 254"
       "\<bar>snd (power_spec t (width c) (max_speed c))\<bar> \<le> 254" by simp_all
  then have "\<bar>(of_int (fst (power_spec t (width c) (max_speed c))) :: real)\<bar> \<le> 254"
            "\<bar>(of_int (snd (power_spec t (width c) (max_speed c))) :: real)\<bar> \<le> 254"
    by linarith+
  with m show ?thesis by (simp add: set_speeds_for_tag_ok speeds_bounded_def)
qed

lemma speeds_bounded_state_update [simp]: "speeds_bounded (c\<lparr>state := s\<rparr>) = speeds_bounded c"
  by (simp add: speeds_bounded_def)

lemma halve_speeds_bounded: "speeds_bounded c \<Longrightarrow> speeds_bounded (halve_speeds c)"
  by (simp add: speeds_bounded_def halve_speeds_def)

lemma state_machine_step_bounded:
  assumes "speeds_bounded c" "frame_in_range (width c) tags" "state_machine_step c tags now = Inr c'"
  shows "speeds_bounded c'"
proof -
  have in_range: "tag_distance t \<le> 3 \<and> 0 \<le> center_x t \<and> center_x t \<le> of_int (width c)"
    if "t \<in> set tags" for t
    using assms(2) that by (simp add: frame_in_range_def list_all_iff)
  have tag_ok: "speeds_bounded c1" if "set_speeds_for_tag c t = Inr c1" "t \<in> set tags" for t c1
    using set_speeds_for_tag_bounded [OF assms(1)] in_range [OF that(2)] that(1) by fastforce
  have c: "speeds_bounded c" "width c \<noteq> 0" using assms(1) by (auto simp: speeds_bounded_def)
  show ?thesis
  proof (cases "state c")
    case STATE_GO_FARTHEST
    with assms(3) c show ?thesis
      by (auto simp: state_machine_step_def go_farthest_step_def halve_speeds_bounded
          dest: tag_ok farthest_tag_member split: option.splits sum.splits if_splits)
  next
    case STATE_GO_TURN
    with assms(3) c show ?thesis
      by (auto simp: state_machine_step_def go_turn_step_def halve_speeds_bounded
          dest: tag_ok find_turn_tag_member split: option.splits if_splits)
  next
    case STATE_TURN_LEFT
    with assms(3) c show ?thesis
      by (auto simp: state_machine_step_def turn_left_step_def speeds_bounded_def Let_def
          split: option.splits if_splits sum.splits)
  qed
qed

lemma tick_bounded:
  assumes "speeds_bounded c" "frame_in_range (width c) tags" "tick c tags now = Inr c'"
  shows "speeds_bounded c'"
proof -
  obtain c1 where c1: "state_machine_step c tags now = Inr c1"
    and c': "c' = snap_speeds (update_tag_seen c1 tags now)"
    using assms(3) by (auto simp: tick_Inr)
  have "speeds_bounded c1" using state_machine_step_bounded [OF assms(1,2) c1] .
  then show ?thesis
    using snap_speed_abs_le [of "left_speed c1"] snap_speed_abs_le [of "right_speed c1"]
    by (simp add: c' speeds_bounded_def snap_speeds_def update_tag_seen_def)
qed

lemma set_speeds_for_tag_halved_int:
  "set_speeds_for_tag c t = Inr c' \<Longrightarrow> speeds_halved_int c'"
  by (auto simp: set_speeds_for_tag_def speeds_halved_int_def split: sum.splits prod.splits)

lemma state_machine_step_halved_int:
  assumes "speeds_halved_int c" "state_machine_step c tags now = Inr c'"
  shows "speeds_halved_int c'"
proof (cases "state c")
  case STATE_GO_FARTHEST
  with assms show ?thesis
    by (auto simp: state_machine_step_def go_farthest_step_def halve_speeds_def speeds_halved_int_def
        halved_int_half dest: set_speeds_for_tag_halved_int split: option.splits sum.splits if_splits)
next
  case STATE_GO_TURN
  with assms show ?thesis
    by (auto simp: state_machine_step_def go_turn_step_def halve_speeds_def speeds_halved_int_def
        halved_int_half dest: set_speeds_for_tag_halved_int split: option.splits if_splits)
next
  case STATE_TURN_LEFT
  with assms show ?thesis
    by (auto simp: state_machine_step_def turn_left_step_def speeds_halved_int_def Let_def
        split: option.splits if_splits sum.splits)
qed

lemma tick_halved_int:
  assumes "speeds_halved_int c" "tick c tags now = Inr c'"
  shows "speeds_halved_int c'"
proof -
  from assms(2) obtain c1 where
    "state_machine_step c tags now = Inr c1" and c': "c' = snap_speeds (update_tag_seen c1 tags now)"
    by (auto simp: tick_Inr)
  with state_machine_step_halved_int [OF assms(1)] have "speeds_halved_int c1" by blast
  with c' show ?thesis
    by (simp add: speeds_halved_int_def snap_speeds_def update_tag_seen_def halved_int_snap)
qed

subsubsection \<open>The turn state holds while any tag is seen\<close>

lemma tick_go_turn_recent:
  assumes "state c = STATE_GO_TURN" "width c \<noteq> 0" "tags \<noteq> []" "now - tag_last_seen c \<le> 3000"
  shows "\<exists>c'. tick c tags now = Inr c' \<and> state c' = STATE_GO_TURN \<and> tag_last_seen c' = now
              \<and> width c' = width c"
  using assms
  by (auto simp: tick_def state_machine_step_def go_turn_step_def set_speeds_for_tag_ok halve_speeds_def
      update_tag_seen_def snap_speeds_def split: option.splits)

subsubsection \<open>The last-seen time along a run\<close>

lemma run_ticks_last_seen_sorted:
  "run_ticks c frames = Inr c' \<Longrightarrow> sorted (tag_last_seen c # map snd (frames @ later)) \<Longrightarrow>
   tag_last_seen c \<le> tag_last_seen c' \<and> sorted (tag_last_seen c' # map snd later)"
proof (induction frames arbitrary: c)
  case Nil
  then show ?case by simp
next
  case (Cons f frames)
  obtain tags now where f: "f = (tags, now)" by (cases f)
  with Cons.prems(1) obtain c1 where c1: "tick c tags now = Inr c1" and run: "run_ticks c1 frames = Inr c'"
    by (auto split: sum.splits)
  have le: "tag_last_seen c \<le> now" and rest: "sorted (now # map snd (frames @ later))"
    using Cons.prems(2) f by simp_all
  have "tag_last_seen c1 = (if tags = [] then tag_last_seen c else now)"
    using tick_bookkeeping [OF c1] by blast
  with le rest Cons.prems(2) f have "tag_last_seen c \<le> tag_last_seen c1"
    "sorted (tag_last_seen c1 # map snd (frames @ later))"
    by (auto simp del: sorted_simps(2) simp: sorted_wrt_append)
  with Cons.IH [OF run] show ?case by fastforce
qed

subsection \<open>Properties of the invariants and of runs\<close>

text \<open>
  Claim C35. In every reachable controller each wheel power is an int or an int
  halved some number of times: the values the code's ints take, and the floats that
  \<^verbatim>\<open>left_speed / 2\<close> makes of them, which binary floating point holds exactly. The
  spec's "powers are always integers" holds only for the first kind.
\<close>

theorem reachable_speeds_halved_int: "reachable c \<Longrightarrow> speeds_halved_int c"
proof (induction rule: reachable.induct)
  case (init w)
  show ?case by (simp add: init_controller_def speeds_halved_int_def)
next
  case (step c tags now c')
  then show ?case by (blast intro: tick_halved_int)
qed

theorem reachable_speeds_halved_int_witness:
  "speeds_halved_int \<lparr>left_speed = 63 / 2, right_speed = 63 / 2, max_speed = 127, state = STATE_GO_TURN, tag_missing_frames = 1, tag_last_seen = 1000, width = 640\<rparr>"
proof -
  have "tick (init_controller 640) [\<lparr>tag_id = 2, center = (320, 100), corners = [], pose_t = (0, 0, 3 / 2)\<rparr>] 1000 = Inr \<lparr>left_speed = 63, right_speed = 63, max_speed = 127, state = STATE_GO_TURN, tag_missing_frames = 0, tag_last_seen = 1000, width = 640\<rparr>"
    by (simp add: model_defs)
  then have "reachable \<lparr>left_speed = 63, right_speed = 63, max_speed = 127, state = STATE_GO_TURN, tag_missing_frames = 0, tag_last_seen = 1000, width = 640\<rparr>"
    by (rule reachable.step [OF reachable.init])
  moreover have "tick \<lparr>left_speed = 63, right_speed = 63, max_speed = 127, state = STATE_GO_TURN, tag_missing_frames = 0, tag_last_seen = 1000, width = 640\<rparr> [] 1100 = Inr \<lparr>left_speed = 63 / 2, right_speed = 63 / 2, max_speed = 127, state = STATE_GO_TURN, tag_missing_frames = 1, tag_last_seen = 1000, width = 640\<rparr>"
    by (simp add: model_defs)
  ultimately have "reachable \<lparr>left_speed = 63 / 2, right_speed = 63 / 2, max_speed = 127, state = STATE_GO_TURN, tag_missing_frames = 1, tag_last_seen = 1000, width = 640\<rparr>"
    by (rule reachable.step)
  then show ?thesis by (rule reachable_speeds_halved_int)
qed

text \<open>
  Claim C8. When every detected tag is at most 3 metres away and centred inside a frame
  wider than 127 pixels, every reachable controller keeps \<open>max_speed = 127\<close> and wheel
  powers within \<open>[-254, 254]\<close>, twice the maximum power and not the spec's
  \<open>[-127, 127]\<close>.
\<close>

theorem reachable_in_range_speeds_bounded: "reachable_in_range c \<Longrightarrow> speeds_bounded c"
proof (induction rule: reachable_in_range.induct)
  case (init w)
  then show ?case by (simp add: init_controller_def speeds_bounded_def)
next
  case (step c tags now c')
  then show ?case by (blast intro: tick_bounded)
qed

theorem reachable_in_range_speeds_bounded_witness: "speeds_bounded \<lparr>left_speed = 63, right_speed = 63, max_speed = 127, state = STATE_GO_TURN, tag_missing_frames = 0, tag_last_seen = 1000, width = 640\<rparr>"
proof -
  have "reachable_in_range (init_controller 640)" by (rule reachable_in_range.init) simp
  moreover have "frame_in_range (width (init_controller 640)) [\<lparr>tag_id = 2, center = (320, 100), corners = [], pose_t = (0, 0, 3 / 2)\<rparr>]"
    by (simp add: frame_in_range_def init_controller_def tag_distance_def)
  moreover have "tick (init_controller 640) [\<lparr>tag_id = 2, center = (320, 100), corners = [], pose_t = (0, 0, 3 / 2)\<rparr>] 1000 = Inr \<lparr>left_speed = 63, right_speed = 63, max_speed = 127, state = STATE_GO_TURN, tag_missing_frames = 0, tag_last_seen = 1000, width = 640\<rparr>"
    by (simp add: model_defs)
  ultimately have "reachable_in_range \<lparr>left_speed = 63, right_speed = 63, max_speed = 127, state = STATE_GO_TURN, tag_missing_frames = 0, tag_last_seen = 1000, width = 640\<rparr>" by (rule reachable_in_range.step)
  then show ?thesis by (rule reachable_in_range_speeds_bounded)
qed

text \<open>
  Claim C13. The timeout of \<^verbatim>\<open>STATE_GO_TURN\<close> measures the time since any tag was
  seen, not since the turn tag was: as long as every frame shows some tag and frames
  come at most 3000 ms apart, the controller stays in \<^verbatim>\<open>STATE_GO_TURN\<close> however
  long the turn tag has been out of sight.
\<close>

theorem go_turn_holds_while_tags_visible:
  assumes "state c = STATE_GO_TURN" "width c \<noteq> 0" "tags_seen_within (tag_last_seen c) frames"
  shows "\<exists>c'. run_ticks c frames = Inr c' \<and> state c' = STATE_GO_TURN"
  using assms
proof (induction frames arbitrary: c)
  case Nil
  then show ?case by simp
next
  case (Cons f frames)
  obtain tags now where f: "f = (tags, now)" by (cases f)
  with Cons.prems have "tags \<noteq> []" "now - tag_last_seen c \<le> 3000" "tags_seen_within now frames"
    by simp_all
  with Cons.prems(1,2) obtain c1 where
    c1: "tick c tags now = Inr c1" "state c1 = STATE_GO_TURN" "tag_last_seen c1 = now" "width c1 = width c"
    using tick_go_turn_recent by blast
  with Cons.IH [of c1] Cons.prems(2) \<open>tags_seen_within now frames\<close> f show ?case by simp
qed

theorem go_turn_holds_while_tags_visible_witness:
  "\<not> list_ex (\<lambda>f. list_ex (\<lambda>t. tag_id t = TAG_TURN_LEFT) (fst f)) [([\<lparr>tag_id = 1, center = (100, 300), corners = [], pose_t = (0, 0, 1)\<rparr>], 3000), ([\<lparr>tag_id = 1, center = (100, 300), corners = [], pose_t = (0, 0, 1)\<rparr>], 6000), ([\<lparr>tag_id = 1, center = (100, 300), corners = [], pose_t = (0, 0, 1)\<rparr>], 9000)]
   \<and> (\<exists>c'. run_ticks \<lparr>left_speed = 63, right_speed = 63, max_speed = 127, state = STATE_GO_TURN, tag_missing_frames = 0, tag_last_seen = 1000, width = 640\<rparr> [([\<lparr>tag_id = 1, center = (100, 300), corners = [], pose_t = (0, 0, 1)\<rparr>], 3000), ([\<lparr>tag_id = 1, center = (100, 300), corners = [], pose_t = (0, 0, 1)\<rparr>], 6000), ([\<lparr>tag_id = 1, center = (100, 300), corners = [], pose_t = (0, 0, 1)\<rparr>], 9000)] = Inr c' \<and> state c' = STATE_GO_TURN)"
  using go_turn_holds_while_tags_visible [of "\<lparr>left_speed = 63, right_speed = 63, max_speed = 127, state = STATE_GO_TURN, tag_missing_frames = 0, tag_last_seen = 1000, width = 640\<rparr>" "[([\<lparr>tag_id = 1, center = (100, 300), corners = [], pose_t = (0, 0, 1)\<rparr>], 3000), ([\<lparr>tag_id = 1, center = (100, 300), corners = [], pose_t = (0, 0, 1)\<rparr>], 6000), ([\<lparr>tag_id = 1, center = (100, 300), corners = [], pose_t = (0, 0, 1)\<rparr>], 9000)]"]
  by (simp add: TAG_TURN_LEFT_def)

text \<open>
  Claim C29. Over any run, the missing-frame counter is the number of empty frames at the
  end of the run (added to the starting count when every frame was empty), and the
  last-seen time is the time of the last frame with at least one tag of any id (the
  starting value when there was none).
\<close>

theorem run_ticks_bookkeeping:
  assumes "run_ticks c frames = Inr c'"
  shows "tag_missing_frames c' =
           (if list_all (\<lambda>f. fst f = []) frames then tag_missing_frames c + length frames
            else length (takeWhile (\<lambda>f. fst f = []) (rev frames)))
       \<and> tag_last_seen c' =
           (case find (\<lambda>f. fst f \<noteq> []) (rev frames) of None \<Rightarrow> tag_last_seen c | Some f \<Rightarrow> snd f)"
  using assms
proof (induction frames arbitrary: c' rule: rev_induct)
  case Nil
  then show ?case by simp
next
  case (snoc f frames)
  obtain tags now where f: "f = (tags, now)" by (cases f)
  from snoc.prems f obtain c1 where c1: "run_ticks c frames = Inr c1" "tick c1 tags now = Inr c'"
    by (auto simp: run_ticks_append split: sum.splits)
  from snoc.IH [OF c1(1)] tick_bookkeeping [OF c1(2)] f show ?case by auto
qed

theorem run_ticks_bookkeeping_witness:
  "run_ticks (init_controller 640) [([\<lparr>tag_id = 2, center = (320, 100), corners = [], pose_t = (0, 0, 3 / 2)\<rparr>], 1000), ([], 1100), ([], 1200)] = Inr \<lparr>left_speed = 63 / 4, right_speed = 63 / 4, max_speed = 127, state = STATE_GO_TURN, tag_missing_frames = 2, tag_last_seen = 1000, width = 640\<rparr>
   \<and> tag_missing_frames \<lparr>left_speed = 63 / 4, right_speed = 63 / 4, max_speed = 127, state = STATE_GO_TURN, tag_missing_frames = 2, tag_last_seen = 1000, width = 640\<rparr> = 2 \<and> tag_last_seen \<lparr>left_speed = 63 / 4, right_speed = 63 / 4, max_speed = 127, state = STATE_GO_TURN, tag_missing_frames = 2, tag_last_seen = 1000, width = 640\<rparr> = 1000"
proof -
  have run: "run_ticks (init_controller 640) [([\<lparr>tag_id = 2, center = (320, 100), corners = [], pose_t = (0, 0, 3 / 2)\<rparr>], 1000), ([], 1100), ([], 1200)] = Inr \<lparr>left_speed = 63 / 4, right_speed = 63 / 4, max_speed = 127, state = STATE_GO_TURN, tag_missing_frames = 2, tag_last_seen = 1000, width = 640\<rparr>"
    by (simp add: model_defs)
  from run_ticks_bookkeeping [OF run] run show ?thesis by simp
qed

text \<open>
  Claim C32. Every tick moves the state along the spec's transition table: it stays, or
  goes from \<^verbatim>\<open>STATE_GO_FARTHEST\<close> to \<^verbatim>\<open>STATE_GO_TURN\<close>, from
  \<^verbatim>\<open>STATE_GO_TURN\<close> to \<^verbatim>\<open>STATE_TURN_LEFT\<close>, or from \<^verbatim>\<open>STATE_TURN_LEFT\<close> to
  \<^verbatim>\<open>STATE_GO_FARTHEST\<close>; in particular no tick skips a state of the cycle.
\<close>

theorem tick_refines_transition_table:
  assumes "tick c tags now = Inr c'"
  shows "nav_transition (state c) (state c')
         \<and> (state c = STATE_GO_FARTHEST \<longrightarrow> state c' \<noteq> STATE_TURN_LEFT)
         \<and> (state c = STATE_GO_TURN \<longrightarrow> state c' \<noteq> STATE_GO_FARTHEST)
         \<and> (state c = STATE_TURN_LEFT \<longrightarrow> state c' \<noteq> STATE_GO_TURN)"
proof -
  from assms obtain c1 where c1: "state_machine_step c tags now = Inr c1"
    and c': "c' = snap_speeds (update_tag_seen c1 tags now)"
    by (auto simp: tick_Inr)
  have "state c' = state c1" by (simp add: c' snap_speeds_def update_tag_seen_def)
  with state_machine_step_transition [OF c1] show ?thesis
    by (auto elim: nav_transition_fromE)
qed

theorem tick_refines_transition_table_witness:
  "tick (init_controller 640) [\<lparr>tag_id = 2, center = (320, 100), corners = [], pose_t = (0, 0, 3 / 2)\<rparr>] 1000 = Inr \<lparr>left_speed = 63, right_speed = 63, max_speed = 127, state = STATE_GO_TURN, tag_missing_frames = 0, tag_last_seen = 1000, width = 640\<rparr>
   \<and> nav_transition STATE_GO_FARTHEST STATE_GO_TURN"
proof -
  have run: "tick (init_controller 640) [\<lparr>tag_id = 2, center = (320, 100), corners = [], pose_t = (0, 0, 3 / 2)\<rparr>] 1000 = Inr \<lparr>left_speed = 63, right_speed = 63, max_speed = 127, state = STATE_GO_TURN, tag_missing_frames = 0, tag_last_seen = 1000, width = 640\<rparr>"
    by (simp add: model_defs)
  from tick_refines_transition_table [OF run] run show ?thesis
    by (simp add: init_controller_def)
qed

end
