(* ===== verification/Overlay.thy ===== *)
theory Overlay
  imports Prelude
begin

text \<open>
  The debug overlay of each iteration (lines 74--93 of \<^verbatim>\<open>src/main.py\<close>): for every
  detection the loop unpacks its four corners, truncates them and the centre to integer
  pixels, and draws the box, a dot at the centre and the tag id as text. The frame itself
  is not modelled: a drawing call is a value of \<open>draw_op\<close> with the arguments the code
  passes. The one behaviour of the overlay that reaches the rest of the program is its
  error: a detection without exactly four corners makes the unpacking raise
  \<open>ValueError\<close>, which leaves the loop. Python's \<^verbatim>\<open>str()\<close> of an int is
  \<open>py_str_int\<close>, with a decimal reader \<open>parse_int\<close> to show that the label identifies
  the tag.
\<close>

type_synonym pixel = "int \<times> int"
type_synonym colour = "int \<times> int \<times> int"

datatype draw_op =
    DrawLine pixel pixel colour int
  | DrawCircle pixel int colour int
  | DrawText string pixel int real colour int

text \<open>OpenCV's constants as the code uses them (BGR colours).\<close>

definition GREEN :: colour where "GREEN = (0, 255, 0)"
definition RED :: colour where "RED = (0, 0, 255)"
definition FONT_HERSHEY_SIMPLEX :: int where "FONT_HERSHEY_SIMPLEX = 0"

text \<open>\<^verbatim>\<open>(int(p[0]), int(p[1]))\<close>.\<close>

definition int_point :: "real \<times> real \<Rightarrow> pixel" where
  "int_point p = (py_int (fst p), py_int (snd p))"

subsection \<open>Python's \<^verbatim>\<open>str()\<close> of an int\<close>

definition digit_char :: "nat \<Rightarrow> char" where
  "digit_char d = ''0123456789'' ! d"

fun nat_digits :: "nat \<Rightarrow> string" where
  "nat_digits n =
     (if n < 10 then [digit_char n] else nat_digits (n div 10) @ [digit_char (n mod 10)])"

declare nat_digits.simps [simp del]

definition py_str_int :: "int \<Rightarrow> string" where
  "py_str_int i = (if i < 0 then CHR ''-'' # nat_digits (nat (- i)) else nat_digits (nat i))"

text \<open>A decimal reader, the inverse the label is checked against.\<close>

definition char_digit :: "char \<Rightarrow> nat option" where
  "char_digit ch = (let n = of_char ch :: nat in if 48 \<le> n \<and> n < 58 then Some (n - 48) else None)"

fun parse_digits :: "nat \<Rightarrow> string \<Rightarrow> nat option" where
  "parse_digits acc [] = Some acc"
| "parse_digits acc (ch # chs) =
     (case char_digit ch of None \<Rightarrow> None | Some d \<Rightarrow> parse_digits (10 * acc + d) chs)"

definition parse_int :: "string \<Rightarrow> int option" where
  "parse_int s =
     (if s = [] then None
      else if hd s = CHR ''-'' then
        (if tl s = [] then None else map_option (\<lambda>n. - int n) (parse_digits 0 (tl s)))
      else map_option int (parse_digits 0 s))"

subsection \<open>The drawing loop\<close>

text \<open>One iteration of \<^verbatim>\<open>for r in tags\<close> (lines 77--93).\<close>

definition overlay_tag :: "detection \<Rightarrow> draw_op list result" where
  "overlay_tag r =
     (case corners r of
        [ptA, ptB, ptC, ptD] \<Rightarrow>
          (let a = int_point ptA; b = int_point ptB; c = int_point ptC; d = int_point ptD;
               ctr = int_point (center r)
           in Inr [DrawLine a b GREEN 2, DrawLine b c GREEN 2, DrawLine c d GREEN 2,
                   DrawLine d a GREEN 2, DrawCircle ctr 5 RED (-1),
                   DrawText (py_str_int (tag_id r)) ctr FONT_HERSHEY_SIMPLEX (1 / 2) GREEN 2])
      | _ \<Rightarrow> Inl ValueError)"

fun overlay :: "detection list \<Rightarrow> draw_op list result" where
  "overlay [] = Inr []"
| "overlay (r # rs) =
     (case overlay_tag r of
        Inl e \<Rightarrow> Inl e
      | Inr ops \<Rightarrow> (case overlay rs of Inl e \<Rightarrow> Inl e | Inr ops' \<Rightarrow> Inr (ops @ ops')))"

text \<open>The labels a list of drawing calls puts on the frame, with their positions.\<close>

fun draw_labels :: "draw_op list \<Rightarrow> (string \<times> pixel) list" where
  "draw_labels [] = []"
| "draw_labels (DrawText txt p font scale col thick # ops) = (txt, p) # draw_labels ops"
| "draw_labels (DrawLine a b col thick # ops) = draw_labels ops"
| "draw_labels (DrawCircle p r col thick # ops) = draw_labels ops"

text \<open>The detector's contract: every detection has four corners.\<close>

definition wf_detection :: "detection \<Rightarrow> bool" where
  "wf_detection r = (length (corners r) = 4)"

declare overlay_tag_def [model_defs] int_point_def [model_defs] GREEN_def [model_defs]
  RED_def [model_defs] FONT_HERSHEY_SIMPLEX_def [model_defs] py_str_int_def [model_defs]
  digit_char_def [model_defs] wf_detection_def [model_defs]

subsection \<open>Lemmas of the printer and the reader\<close>

lemma char_digit_digit_char: "d < 10 \<Longrightarrow> char_digit (digit_char d) = Some d"
  by (auto simp: less_Suc_eq numeral_eq_Suc char_digit_def digit_char_def)

lemma digit_char_not_minus: "d < 10 \<Longrightarrow> digit_char d \<noteq> CHR ''-''"
  by (auto simp: less_Suc_eq numeral_eq_Suc digit_char_def)

lemma parse_digits_append:
  "parse_digits acc (xs @ ys) = (case parse_digits acc xs of None \<Rightarrow> None | Some a \<Rightarrow> parse_digits a ys)"
  by (induction acc xs rule: parse_digits.induct) (auto split: option.split)

lemma parse_digits_nat_digits: "parse_digits 0 (nat_digits n) = Some n"
proof (induction n rule: nat_digits.induct)
  case (1 n)
  show ?case
  proof (cases "n < 10")
    case True
    then show ?thesis by (simp add: nat_digits.simps char_digit_digit_char)
  next
    case False
    then have "nat_digits n = nat_digits (n div 10) @ [digit_char (n mod 10)]"
      by (simp add: nat_digits.simps)
    with False 1 show ?thesis by (simp add: parse_digits_append char_digit_digit_char)
  qed
qed

lemma nat_digits_hd: "nat_digits n \<noteq> [] \<and> hd (nat_digits n) \<noteq> CHR ''-''"
proof (induction n rule: nat_digits.induct)
  case (1 n)
  then show ?case by (cases "n < 10") (auto simp: nat_digits.simps digit_char_not_minus)
qed

lemma overlay_tag_ok: "wf_detection r \<Longrightarrow> \<exists>ops. overlay_tag r = Inr ops \<and> length ops = 6"
  by (auto simp: wf_detection_def overlay_tag_def Let_def numeral_eq_Suc length_Suc_conv)

lemma overlay_tag_error: "\<not> wf_detection r \<Longrightarrow> overlay_tag r = Inl ValueError"
  by (auto simp: wf_detection_def overlay_tag_def split: list.split)

lemma overlay_cases:
  "(list_all wf_detection tags \<and> (\<exists>ops. overlay tags = Inr ops \<and> length ops = 6 * length tags))
   \<or> (\<not> list_all wf_detection tags \<and> overlay tags = Inl ValueError)"
proof (induction tags)
  case Nil
  then show ?case by simp
next
  case (Cons r tags)
  show ?case
  proof (cases "wf_detection r")
    case True
    with overlay_tag_ok obtain ops where "overlay_tag r = Inr ops" "length ops = 6" by blast
    with True Cons.IH show ?thesis by auto
  next
    case False
    then show ?thesis by (simp add: overlay_tag_error)
  qed
qed

text \<open>
  Python's \<^verbatim>\<open>str()\<close> of an int reads back as the int, negative ids included: the
  decimal printer is injective.
\<close>

lemma overlay_label_roundtrip: "parse_int (py_str_int i) = Some i"
proof (cases "i < 0")
  case True
  have "nat_digits (nat (- i)) \<noteq> []" using nat_digits_hd by blast
  with True show ?thesis by (simp add: py_str_int_def parse_int_def parse_digits_nat_digits)
next
  case False
  with nat_digits_hd [of "nat i"] show ?thesis
    by (simp add: py_str_int_def parse_int_def parse_digits_nat_digits)
qed

lemma draw_labels_append [simp]: "draw_labels (xs @ ys) = draw_labels xs @ draw_labels ys"
  by (induction xs rule: draw_labels.induct) simp_all

lemma overlay_labels:
  "overlay tags = Inr ops \<Longrightarrow> draw_labels ops = map (\<lambda>r. (py_str_int (tag_id r), int_point (center r))) tags"
proof (induction tags arbitrary: ops)
  case Nil
  then show ?case by simp
next
  case (Cons r tags)
  then obtain ops1 ops2 where o1: "overlay_tag r = Inr ops1" and o2: "overlay tags = Inr ops2"
    and ops: "ops = ops1 @ ops2"
    by (auto split: sum.splits)
  from o1 have "draw_labels ops1 = [(py_str_int (tag_id r), int_point (center r))]"
    by (auto simp: overlay_tag_def Let_def split: list.splits)
  with Cons.IH [OF o2] ops show ?case by simp
qed

subsection \<open>Properties of the overlay\<close>

text \<open>
  Claim C40. When the overlay succeeds it draws exactly one label per detection, in the
  order of the detections, each at the tag's centre truncated to pixels, and each label,
  \<^verbatim>\<open>str(r.tag_id)\<close>, reads back in decimal as that tag's id: the labels on the
  frame identify the tags, negative ids included.
\<close>

theorem overlay_labels_identify_tags:
  assumes "overlay tags = Inr ops"
  shows "map (\<lambda>(txt, p). (parse_int txt, p)) (draw_labels ops)
         = map (\<lambda>r. (Some (tag_id r), int_point (center r))) tags"
  using overlay_labels [OF assms] by (simp add: overlay_label_roundtrip)

theorem overlay_labels_identify_tags_witness:
  "map (\<lambda>(txt, p). (parse_int txt, p)) (draw_labels [DrawLine (0, 0) (1, 0) GREEN 2, DrawLine (1, 0) (1, 1) GREEN 2,
       DrawLine (1, 1) (0, 1) GREEN 2, DrawLine (0, 1) (0, 0) GREEN 2, DrawCircle (0, 0) 5 RED (-1),
       DrawText ''-12'' (0, 0) FONT_HERSHEY_SIMPLEX (1 / 2) GREEN 2])
   = [(Some (-12), (0, 0))]"
proof -
  have "overlay [\<lparr>tag_id = -12, center = (1 / 2, 1 / 2), corners = [(0, 0), (1, 0), (1, 1), (0, 1)], pose_t = (0, 0, 1)\<rparr>]
      = Inr [DrawLine (0, 0) (1, 0) GREEN 2, DrawLine (1, 0) (1, 1) GREEN 2,
       DrawLine (1, 1) (0, 1) GREEN 2, DrawLine (0, 1) (0, 0) GREEN 2, DrawCircle (0, 0) 5 RED (-1),
       DrawText ''-12'' (0, 0) FONT_HERSHEY_SIMPLEX (1 / 2) GREEN 2]"
    by (simp add: overlay_tag_def int_point_def py_str_int_def nat_digits.simps digit_char_def
        py_int_def Let_def)
  from overlay_labels_identify_tags [OF this] show ?thesis by (simp add: py_int_def)
qed

text \<open>
  Claim C39. The overlay fails exactly when a detection does not have four corners, and
  then with \<open>ValueError\<close> from the unpacking \<^verbatim>\<open>(ptA, ptB, ptC, ptD) = r.corners\<close>;
  otherwise it issues six drawing calls per tag (four box edges, the centre dot, the
  label).
\<close>

theorem overlay_error_iff:
  "(overlay tags = Inl ValueError \<longleftrightarrow> \<not> list_all wf_detection tags)
   \<and> (list_all wf_detection tags \<longleftrightarrow> (\<exists>ops. overlay tags = Inr ops \<and> length ops = 6 * length tags))"
  using overlay_cases [of tags] by auto

end
