(* ===== verification/MainLoop.thy ===== *)
theory MainLoop
  imports ControllerInvariants MotionCommander Overlay "HOL-Library.Stream"
begin

text \<open>
  The control loop of \<^verbatim>\<open>main\<close> and the entry point of \<^verbatim>\<open>src/main.py\<close>. One
  iteration of the \<^verbatim>\<open>while True\<close> loop (lines 56--180) reads a camera frame
  (\<^verbatim>\<open>ret, frame = vid.read()\<close>; \<^verbatim>\<open>cvtColor\<close> raises on a failed read), runs the
  detector, reads the clock (\<^verbatim>\<open>millis()\<close>, lines 19--20), draws the overlay, runs
  the tick of the controller, sends the two motor commands and polls the keyboard
  (\<^verbatim>\<open>cv2.waitKey(1) & 0xFF == ord('q')\<close>). What the environment supplies to one
  iteration is a \<open>camera_frame\<close>; an exception from outside the core (Ctrl-C, a
  serial or detector fault) is the event \<open>Fault f k e\<close>: the iteration on \<open>f\<close>
  is interrupted by \<open>e\<close> after \<open>k\<close> of its motor commands (0 before the first, 1
  between the two, 2 or more after both).

  The loop is modelled twice. \<open>main_loop\<close> runs it over a finite list of events,
  leaving it \<open>Running\<close> when the list is used up; \<open>main_loop_forever\<close> runs it
  over an infinite stream of events as the program does, a
  \<^theory_text>\<open>partial_function (option)\<close> that is \<open>None\<close> when the loop never ends. Both
  share \<open>loop_step\<close>, one iteration, which either leaves the loop (\<open>Inl\<close> of the
  outcome) or continues it (\<open>Inr\<close> of the next controller and the commands so far).
  \<open>finish\<close> is the \<^verbatim>\<open>__main__\<close> block (lines 185--199) after \<^verbatim>\<open>main\<close>: its
  exception handler sends the stop to both motors. The lemmas relate the two loops and
  show when the unbounded one returns: at the first event that is not a good frame (C4),
  never on good frames (C5), on \<^verbatim>\<open>q\<close> (C34) read from the low byte of the key code
  (C37), with the error of an unprocessable frame before its commands (C28); they give
  the timeout of \<^verbatim>\<open>STATE_GO_TURN\<close> in seconds of the clock (C38) and the run on a
  camera that reports a zero width (C30), with \<open>frame_width\<close> the truncation of
  line 46.
\<close>

unbundle bit_operations_syntax

record camera_frame =
  ret :: bool
  detections :: "detection list"
  clock :: real
  key :: int

text \<open>\<^verbatim>\<open>millis()\<close>: \<^verbatim>\<open>round(time.time() * 1000)\<close>, the time in seconds being the
  frame's \<open>clock\<close>.\<close>

definition millis :: "real \<Rightarrow> millis" where
  "millis t = py_round (t * 1000)"

text \<open>\<^verbatim>\<open>cv2.waitKey(1) & 0xFF == ord('q')\<close>; \<^verbatim>\<open>waitKey\<close> returns -1 when no key
  was pressed.\<close>

definition KEY_Q :: int where
  "KEY_Q = of_char CHR ''q''"

definition quit_pressed :: "int \<Rightarrow> bool" where
  "quit_pressed k = (k AND 0xFF = KEY_Q)"

text \<open>The two console lines each iteration prints before the state machine runs
  (\<^verbatim>\<open>print(chr(27) + "[2J")\<close>, \<^verbatim>\<open>print('State: ' + state)\<close>): a clear-screen
  escape and the state at the start of the tick. The powers printed after it
  (lines 158--159) are not modelled.\<close>

definition console_header :: "controller \<Rightarrow> string list" where
  "console_header c = [CHR 0x1B # ''[2J'', ''State: '' @ state_name (state c)]"

text \<open>One iteration up to the motor commands (lines 58--173).\<close>

definition iteration :: "controller \<Rightarrow> camera_frame \<Rightarrow> (controller \<times> roboclaw_cmd list) result" where
  "iteration c f =
     (if \<not> ret f then Inl ExternalFault
      else case overlay (detections f) of
        Inl e \<Rightarrow> Inl e
      | Inr _ \<Rightarrow>
          (case tick c (detections f) (millis (clock f)) of
             Inl e \<Rightarrow> Inl e
           | Inr c' \<Rightarrow> Inr (c', drive_wheels (left_speed c') (right_speed c'))))"

datatype loop_event =
    Frame camera_frame
  | Fault camera_frame nat py_error

datatype loop_outcome =
    Running controller "roboclaw_cmd list"
  | Quit "roboclaw_cmd list"
  | Raised py_error "roboclaw_cmd list"

text \<open>One pass of the loop body, with the commands sent so far.\<close>

definition loop_step ::
  "controller \<Rightarrow> loop_event \<Rightarrow> roboclaw_cmd list \<Rightarrow> loop_outcome + controller \<times> roboclaw_cmd list" where
  "loop_step c ev out =
     (case ev of
        Frame f \<Rightarrow>
          (case iteration c f of
             Inl e \<Rightarrow> Inl (Raised e out)
           | Inr (c', cmds) \<Rightarrow>
               if quit_pressed (key f) then Inl (Quit (out @ cmds)) else Inr (c', out @ cmds))
      | Fault f k e \<Rightarrow>
          (case iteration c f of
             Inl e' \<Rightarrow> Inl (Raised e' out)
           | Inr (c', cmds) \<Rightarrow> Inl (Raised e (out @ take k cmds))))"

fun main_loop :: "controller \<Rightarrow> loop_event list \<Rightarrow> roboclaw_cmd list \<Rightarrow> loop_outcome" where
  "main_loop c [] out = Running c out"
| "main_loop c (ev # evs) out =
     (case loop_step c ev out of Inl r \<Rightarrow> r | Inr (c', out') \<Rightarrow> main_loop c' evs out')"

partial_function (option) main_loop_forever ::
  "controller \<Rightarrow> loop_event stream \<Rightarrow> roboclaw_cmd list \<Rightarrow> loop_outcome option" where
  "main_loop_forever c evs out =
     (case loop_step c (shd evs) out of
        Inl r \<Rightarrow> Some r
      | Inr (c', out') \<Rightarrow> main_loop_forever c' (stl evs) out')"

text \<open>\<^verbatim>\<open>width = int(vid.get(cv2.CAP_PROP_FRAME_WIDTH))\<close> (line 46): the width the
  loop works with is the capture's reported width, a float, truncated. OpenCV reports
  0.0 for a property the backend cannot read.\<close>

definition frame_width :: "real \<Rightarrow> int" where
  "frame_width p = py_int p"

definition main :: "int \<Rightarrow> loop_event list \<Rightarrow> loop_outcome" where
  "main w evs = main_loop (init_controller w) evs []"

definition main_forever :: "int \<Rightarrow> loop_event stream \<Rightarrow> loop_outcome option" where
  "main_forever w evs = main_loop_forever (init_controller w) evs []"

text \<open>The \<^verbatim>\<open>__main__\<close> block once \<^verbatim>\<open>main\<close> has left: the handler's stop after an
  exception, nothing after a normal return.\<close>

fun finish :: "loop_outcome \<Rightarrow> roboclaw_cmd list" where
  "finish (Raised e out) = out @ shutdown_stop"
| "finish (Quit out) = out"
| "finish (Running c out) = out"

definition run_program :: "int \<Rightarrow> loop_event list \<Rightarrow> roboclaw_cmd list" where
  "run_program w evs = finish (main w evs)"

definition run_program_forever :: "int \<Rightarrow> loop_event stream \<Rightarrow> roboclaw_cmd list option" where
  "run_program_forever w evs = map_option finish (main_forever w evs)"

text \<open>Classification of frames and outcomes used by the lemmas.\<close>

definition good_frame :: "camera_frame \<Rightarrow> bool" where
  "good_frame f = (ret f \<and> list_all wf_detection (detections f) \<and> \<not> quit_pressed (key f))"

text \<open>An event on which the loop goes on: a frame read, with four-corner detections
  and without \<^verbatim>\<open>q\<close>.\<close>

definition good_event :: "loop_event \<Rightarrow> bool" where
  "good_event ev = (case ev of Frame f \<Rightarrow> good_frame f | Fault f k e \<Rightarrow> False)"

definition tick_input :: "camera_frame \<Rightarrow> detection list \<times> millis" where
  "tick_input f = (detections f, millis (clock f))"

fun running :: "loop_outcome \<Rightarrow> bool" where
  "running (Running c out) = True"
| "running (Quit out) = False"
| "running (Raised e out) = False"

declare main_def [model_defs] run_program_def [model_defs] main_forever_def [model_defs]
  run_program_forever_def [model_defs] millis_def [model_defs] KEY_Q_def [model_defs]
  quit_pressed_def [model_defs] iteration_def [model_defs] loop_step_def [model_defs]
  good_frame_def [model_defs] tick_input_def [model_defs]

subsection \<open>Lemmas of one iteration\<close>

lemma and_0xFF: "(k :: int) AND 0xFF = k mod 256"
proof -
  have "k AND 0xFF = k AND mask 8" by (simp add: mask_eq_exp_minus_1)
  also have "\<dots> = take_bit 8 k" by (simp add: take_bit_eq_mask)
  finally show ?thesis by (simp add: take_bit_eq_mod)
qed

lemma iteration_good:
  assumes "width c \<noteq> 0" "ret f" "list_all wf_detection (detections f)"
  shows "\<exists>c'. tick c (detections f) (millis (clock f)) = Inr c'
           \<and> iteration c f = Inr (c', drive_wheels (left_speed c') (right_speed c'))"
proof -
  obtain ops where "overlay (detections f) = Inr ops"
    using overlay_cases [of "detections f"] assms(3) by blast
  moreover obtain c' where "tick c (detections f) (millis (clock f)) = Inr c'"
    using tick_total [OF assms(1)] by blast
  ultimately show ?thesis using assms(2) by (simp add: iteration_def)
qed

lemma loop_step_exit: "loop_step c ev out = Inl r \<Longrightarrow> \<not> running r"
  by (auto simp: loop_step_def split: loop_event.splits sum.splits prod.splits if_splits)

lemma loop_step_good:
  assumes "width c \<noteq> 0" "good_frame f"
  shows "\<exists>c'. tick c (detections f) (millis (clock f)) = Inr c'
           \<and> loop_step c (Frame f) out = Inr (c', out @ drive_wheels (left_speed c') (right_speed c'))"
  using iteration_good [OF assms(1)] assms(2) by (fastforce simp: good_frame_def loop_step_def)

subsection \<open>Lemmas of the loop over a list of events\<close>

lemma main_loop_append:
  "main_loop c (xs @ ys) out = (case main_loop c xs out of Running c' out' \<Rightarrow> main_loop c' ys out' | r \<Rightarrow> r)"
  by (induction c xs out rule: main_loop.induct)
     (auto split: sum.split prod.split loop_outcome.split dest: loop_step_exit)

lemma main_loop_fault: "\<exists>e' out'. main_loop c (Fault f k e # evs) out = Raised e' out'"
  by (simp add: loop_step_def split: sum.split prod.split)

lemma main_loop_no_quit:
  assumes "list_all (\<lambda>ev. \<exists>f. ev = Frame f \<and> \<not> quit_pressed (key f)) evs"
  shows "(\<exists>c' out'. main_loop c evs out = Running c' out') \<or> (\<exists>e out'. main_loop c evs out = Raised e out')"
  using assms
proof (induction evs arbitrary: c out)
  case Nil
  then show ?case by simp
next
  case (Cons ev evs)
  then obtain f where "ev = Frame f" "\<not> quit_pressed (key f)" by auto
  with Cons show ?case by (auto simp: loop_step_def split: sum.split prod.split)
qed

lemma main_loop_good:
  assumes "width c \<noteq> 0" "list_all good_frame frames"
  shows "\<exists>c' out'. main_loop c (map Frame frames) out = Running c' (out @ out')
           \<and> run_ticks c (map tick_input frames) = Inr c'
           \<and> map cmd_motor out' = concat (replicate (length frames) [1, 2])
           \<and> (frames \<noteq> [] \<longrightarrow> (\<exists>pre. out' = pre @ drive_wheels (left_speed c') (right_speed c')))"
  using assms
proof (induction frames arbitrary: c out)
  case Nil
  then show ?case by simp
next
  case (Cons f frames)
  from loop_step_good [OF Cons.prems(1)] Cons.prems(2) obtain c1 where
    c1: "tick c (detections f) (millis (clock f)) = Inr c1"
    and step: "loop_step c (Frame f) out = Inr (c1, out @ drive_wheels (left_speed c1) (right_speed c1))"
    by auto
  with tick_frame [OF c1] Cons.prems have "width c1 \<noteq> 0" by simp
  from Cons.IH [OF this, of "out @ drive_wheels (left_speed c1) (right_speed c1)"] Cons.prems(2)
  obtain c' out' where
    loop: "main_loop c1 (map Frame frames) (out @ drive_wheels (left_speed c1) (right_speed c1))
       = Running c' (out @ drive_wheels (left_speed c1) (right_speed c1) @ out')"
    and run: "run_ticks c1 (map tick_input frames) = Inr c'"
    and motors: "map cmd_motor out' = concat (replicate (length frames) [1, 2])"
    and last: "frames \<noteq> [] \<longrightarrow> (\<exists>pre. out' = pre @ drive_wheels (left_speed c') (right_speed c'))"
    by auto
  let ?out = "drive_wheels (left_speed c1) (right_speed c1) @ out'"
  have "main_loop c (map Frame (f # frames)) out = Running c' (out @ ?out)"
    using step loop by simp
  moreover have "run_ticks c (map tick_input (f # frames)) = Inr c'"
    using c1 run by (simp add: tick_input_def)
  moreover have "map cmd_motor ?out = concat (replicate (length (f # frames)) [1, 2])"
    using motors by (simp add: drive_wheels_motors)
  moreover have "\<exists>pre. ?out = pre @ drive_wheels (left_speed c') (right_speed c')"
  proof (cases "frames = []")
    case True
    with run motors have "c' = c1" "out' = []" by simp_all
    then show ?thesis by simp
  next
    case False
    with last obtain pre where "out' = pre @ drive_wheels (left_speed c') (right_speed c')" by blast
    then show ?thesis by (intro exI [of _ "drive_wheels (left_speed c1) (right_speed c1) @ pre"]) simp
  qed
  ultimately show ?case by blast
qed

lemma main_loop_tagless:
  assumes "state c = STATE_GO_FARTHEST" "list_all (\<lambda>f. good_frame f \<and> detections f = []) frames"
  shows "\<exists>c' out'. main_loop c (map Frame frames) out = Running c' out'
           \<and> state c' = STATE_GO_FARTHEST \<and> width c' = width c"
  using assms
proof (induction frames arbitrary: c out)
  case Nil
  then show ?case by simp
next
  case (Cons f frames)
  then have f: "good_frame f" "detections f = []" by simp_all
  from tick_go_farthest_tagless [OF Cons.prems(1)] obtain c1 where
    c1: "tick c [] (millis (clock f)) = Inr c1" "state c1 = STATE_GO_FARTHEST" "width c1 = width c"
    by blast
  then have "loop_step c (Frame f) out = Inr (c1, out @ drive_wheels (left_speed c1) (right_speed c1))"
    using f by (simp add: loop_step_def iteration_def good_frame_def)
  with Cons.IH [OF c1(2)] Cons.prems(2) c1(3) show ?case by auto
qed

lemma good_event_simps [simp]: "good_event (Frame f) = good_frame f" "\<not> good_event (Fault f k e)"
  by (simp_all add: good_event_def)

lemma main_loop_good_events:
  assumes "width c \<noteq> 0" "list_all good_event evs"
  shows "\<exists>c' out'. main_loop c evs out = Running c' out' \<and> width c' = width c"
  using assms
proof (induction evs arbitrary: c out)
  case Nil
  then show ?case by simp
next
  case (Cons ev evs)
  then obtain f where f: "ev = Frame f" "good_frame f" by (cases ev) auto
  from loop_step_good [OF Cons.prems(1) f(2)] obtain c1 where
    c1: "tick c (detections f) (millis (clock f)) = Inr c1"
    and step: "loop_step c (Frame f) out = Inr (c1, out @ drive_wheels (left_speed c1) (right_speed c1))"
    by blast
  have w: "width c1 = width c" using tick_frame [OF c1] by simp
  with Cons.prems Cons.IH [of c1] step f(1) show ?case by auto
qed

lemma loop_step_leaves:
  assumes "width c \<noteq> 0" "\<not> good_event ev"
  shows "\<exists>r. loop_step c ev out = Inl r"
proof (cases ev)
  case (Fault f k e)
  then show ?thesis by (simp add: loop_step_def split: sum.split prod.split)
next
  case (Frame f)
  show ?thesis
  proof (cases "ret f \<and> list_all wf_detection (detections f)")
    case True
    with Frame assms(2) have q: "quit_pressed (key f)" by (simp add: good_frame_def)
    from True iteration_good [OF assms(1)] obtain c' where
      "iteration c f = Inr (c', drive_wheels (left_speed c') (right_speed c'))" by blast
    with Frame q show ?thesis by (simp add: loop_step_def)
  next
    case False
    then have "\<exists>e. iteration c f = Inl e"
      using overlay_cases [of "detections f"] by (auto simp: iteration_def)
    with Frame show ?thesis by (auto simp: loop_step_def)
  qed
qed

lemma loop_reaches_frame:
  assumes "w \<noteq> 0" "list_all good_frame pre" "ret f" "list_all wf_detection (detections f)"
  shows "\<exists>c1 c out. main_loop (init_controller w) (map Frame pre) [] = Running c1 out
           \<and> run_ticks (init_controller w) (map tick_input (pre @ [f])) = Inr c
           \<and> iteration c1 f = Inr (c, drive_wheels (left_speed c) (right_speed c))
           \<and> length out = 2 * length pre"
proof -
  have "width (init_controller w) \<noteq> 0" using assms(1) by (simp add: init_controller_def)
  from main_loop_good [OF this assms(2), of "[]"] obtain c1 out where
    loop: "main_loop (init_controller w) (map Frame pre) [] = Running c1 out"
    and motors: "map cmd_motor out = concat (replicate (length pre) [1, 2])"
    and run: "run_ticks (init_controller w) (map tick_input pre) = Inr c1"
    by auto
  have "width c1 \<noteq> 0" using run_ticks_frame [OF run] assms(1) by (simp add: init_controller_def)
  from iteration_good [OF this assms(3, 4)] obtain c where
    tick: "tick c1 (detections f) (millis (clock f)) = Inr c"
    and it: "iteration c1 f = Inr (c, drive_wheels (left_speed c) (right_speed c))" by blast
  have "run_ticks (init_controller w) (map tick_input (pre @ [f])) = Inr c"
    using run tick by (simp add: run_ticks_append tick_input_def)
  moreover have "length out = 2 * length pre"
    using arg_cong [OF motors, of length] by (simp add: length_concat sum_list_replicate)
  ultimately show ?thesis using loop it by blast
qed

lemma tick_go_turn_state:
  assumes "state c = STATE_GO_TURN" "tick c tags now = Inr c'"
  shows "state c' = (if now - tag_last_seen c > 3000 then STATE_TURN_LEFT else STATE_GO_TURN)"
  using assms
  by (auto simp: tick_def state_machine_step_def go_turn_step_def set_speeds_for_tag_def
      halve_speeds_def update_tag_seen_def snap_speeds_def Let_def
      split: option.splits sum.splits prod.splits if_splits)

subsection \<open>Lemmas of the loop over a stream of events\<close>

lemma main_loop_forever_prefix:
  "main_loop c (stake n s) out = r \<Longrightarrow> \<not> running r \<Longrightarrow> main_loop_forever c s out = Some r"
proof (induction n arbitrary: c s out)
  case 0
  then show ?case by auto
next
  case (Suc n)
  show ?case
  proof (cases "loop_step c (shd s) out")
    case (Inl r')
    with Suc.prems show ?thesis by (simp add: main_loop_forever.simps [of c s out])
  next
    case (Inr p)
    obtain c' out' where "p = (c', out')" by (cases p)
    with Inr Suc.prems Suc.IH [of c' "stl s" out'] show ?thesis
      by (simp add: main_loop_forever.simps [of c s out])
  qed
qed

lemma main_loop_forever_returns:
  assumes "main_loop_forever c s out = Some r"
  shows "\<exists>n. main_loop c (stake n s) out = r \<and> \<not> running r"
proof (rule main_loop_forever.raw_induct
    [where P = "\<lambda>c s out r. \<exists>n. main_loop c (stake n s) out = r \<and> \<not> running r", OF _ assms])
  fix f c s out r
  assume IH: "\<And>c s out r. f c s out = Some r \<Longrightarrow> \<exists>n. main_loop c (stake n s) out = r \<and> \<not> running r"
    and eq: "(case loop_step c (shd s) out of Inl r \<Rightarrow> Some r | Inr (c', out') \<Rightarrow> f c' (stl s) out') = Some r"
  show "\<exists>n. main_loop c (stake n s) out = r \<and> \<not> running r"
  proof (cases "loop_step c (shd s) out")
    case (Inl r')
    with eq loop_step_exit [OF Inl] have "main_loop c (stake 1 s) out = r" "\<not> running r"
      by auto
    then show ?thesis by blast
  next
    case (Inr p)
    obtain c' out' where p: "p = (c', out')" by (cases p)
    with Inr eq have "f c' (stl s) out' = Some r" by simp
    from IH [OF this] obtain n where "main_loop c' (stake n (stl s)) out' = r" "\<not> running r"
      by blast
    with Inr p have "main_loop c (stake (Suc n) s) out = r" by simp
    with \<open>\<not> running r\<close> show ?thesis by blast
  qed
qed

lemma main_loop_forever_terminates_iff:
  "main_loop_forever c s out = Some r \<longleftrightarrow> (\<exists>n. main_loop c (stake n s) out = r \<and> \<not> running r)"
  using main_loop_forever_returns main_loop_forever_prefix by blast

lemma stream_all_shd_stl: "stream_all P s \<longleftrightarrow> P (shd s) \<and> stream_all P (stl s)"
  by (metis stream.collapse stream_all_Stream)

lemma main_loop_good_stream:
  assumes "width c \<noteq> 0" "stream_all (\<lambda>ev. \<exists>f. ev = Frame f \<and> good_frame f) s"
  shows "running (main_loop c (stake n s) out)"
  using assms
proof (induction n arbitrary: c s out)
  case 0
  then show ?case by simp
next
  case (Suc n)
  from Suc.prems(2) have "\<exists>f. shd s = Frame f \<and> good_frame f"
    unfolding stream_all_shd_stl [of _ s] by blast
  then obtain f where f: "shd s = Frame f" "good_frame f" by blast
  from loop_step_good [OF Suc.prems(1) f(2)] obtain c' where
    c': "tick c (detections f) (millis (clock f)) = Inr c'"
    and step: "loop_step c (Frame f) out = Inr (c', out @ drive_wheels (left_speed c') (right_speed c'))"
    by blast
  have "width c' \<noteq> 0" using tick_frame [OF c'] Suc.prems(1) by simp
  moreover have "stream_all (\<lambda>ev. \<exists>f. ev = Frame f \<and> good_frame f) (stl s)"
    using Suc.prems(2) unfolding stream_all_shd_stl [of _ s] by blast
  ultimately have "running (main_loop c' (stake n (stl s)) (out @ drive_wheels (left_speed c') (right_speed c')))"
    by (rule Suc.IH)
  moreover have "main_loop c (stake (Suc n) s) out
      = main_loop c' (stake n (stl s)) (out @ drive_wheels (left_speed c') (right_speed c'))"
    using step f(1) by simp
  ultimately show ?case by simp
qed


lemma main_loop_fault_after:
  assumes "list_all (\<lambda>ev. \<exists>f. ev = Frame f \<and> \<not> quit_pressed (key f)) pre"
  shows "\<exists>e' out'. main_loop c (pre @ [Fault f k e]) out = Raised e' out'"
proof -
  from main_loop_no_quit [OF assms, of c out] main_loop_fault [of _ f k e "[]"]
  show ?thesis by (auto simp: main_loop_append)
qed

lemma stake_shift_Cons: "stake (Suc (length pre)) (pre @- x ## s) = pre @ [x]"
  by (simp add: stake_shift)

lemma main_loop_bounded:
  assumes "speeds_bounded c"
    and "list_all (\<lambda>f. good_frame f \<and> frame_in_range (width c) (detections f)) frames"
  shows "\<exists>c' out'. main_loop c (map Frame frames) out = Running c' (out @ out')
           \<and> list_all (\<lambda>cmd. 0 \<le> cmd_magnitude cmd \<and> cmd_magnitude cmd \<le> 254) out'"
  using assms
proof (induction frames arbitrary: c out)
  case Nil
  then show ?case by simp
next
  case (Cons f frames)
  have w: "width c \<noteq> 0" using Cons.prems(1) by (simp add: speeds_bounded_def)
  from loop_step_good [OF w] Cons.prems(2) obtain c1 where
    c1: "tick c (detections f) (millis (clock f)) = Inr c1"
    and step: "loop_step c (Frame f) out = Inr (c1, out @ drive_wheels (left_speed c1) (right_speed c1))"
    by auto
  have b1: "speeds_bounded c1"
    using tick_bounded [OF Cons.prems(1) _ c1] Cons.prems(2) by simp
  have "list_all (\<lambda>f. good_frame f \<and> frame_in_range (width c1) (detections f)) frames"
    using Cons.prems(2) tick_frame [OF c1] by simp
  from Cons.IH [OF b1 this, of "out @ drive_wheels (left_speed c1) (right_speed c1)"] obtain c' out' where
    loop: "main_loop c1 (map Frame frames) (out @ drive_wheels (left_speed c1) (right_speed c1))
       = Running c' (out @ drive_wheels (left_speed c1) (right_speed c1) @ out')"
    and mags: "list_all (\<lambda>cmd. 0 \<le> cmd_magnitude cmd \<and> cmd_magnitude cmd \<le> 254) out'"
    by auto
  have "\<bar>py_int (left_speed c1)\<bar> \<le> 254" "\<bar>py_int (right_speed c1)\<bar> \<le> 254"
    using b1 by (simp_all add: speeds_bounded_def py_int_bounded)
  then have "list_all (\<lambda>cmd. 0 \<le> cmd_magnitude cmd \<and> cmd_magnitude cmd \<le> 254)
               (drive_wheels (left_speed c1) (right_speed c1))"
    using drive_wheels_magnitudes [of "left_speed c1" "right_speed c1"]
    by (simp add: drive_wheels_def)
  with step loop mags show ?case by auto
qed

subsection \<open>Properties of the loop\<close>

text \<open>
  Claim C4. On a non-zero frame width, the unbounded loop returns at the first event
  that is not a good frame, and at no earlier one: if some event is a fault, a failed
  read, a detection without four corners or a frame on which \<^verbatim>\<open>q\<close> is pressed,
  \<^verbatim>\<open>main\<close> returns, every event before the first such one is a good frame, and the
  outcome is that of the loop over the events up to and including it. With C5 (good
  frames only: no return), this decides when the loop terminates.
\<close>

theorem main_forever_returns_at_first_bad_event:
  assumes "w \<noteq> 0" "\<not> good_event (s !! n)"
  shows "\<exists>i r. i \<le> n \<and> list_all good_event (stake i s) \<and> \<not> good_event (s !! i)
           \<and> main_loop (init_controller w) (stake (Suc i) s) [] = r \<and> main_forever w s = Some r"
proof -
  define i where "i = (LEAST i. \<not> good_event (s !! i))"
  have bad: "\<not> good_event (s !! i)" using assms(2) unfolding i_def by (rule LeastI)
  have le: "i \<le> n" using assms(2) unfolding i_def by (rule Least_le)
  have good: "list_all good_event (stake i s)"
    unfolding list_all_length using not_less_Least [of _ "\<lambda>i. \<not> good_event (s !! i)"]
    by (auto simp: i_def)
  have w: "width (init_controller w) \<noteq> 0" using assms(1) by (simp add: init_controller_def)
  from main_loop_good_events [OF w good, of "[]"] obtain c out where
    loop: "main_loop (init_controller w) (stake i s) [] = Running c out" "width c \<noteq> 0"
    using w by auto
  from loop_step_leaves [OF loop(2) bad] obtain r where r: "loop_step c (s !! i) out = Inl r" by blast
  have run: "main_loop (init_controller w) (stake (Suc i) s) [] = r"
    unfolding stake_Suc main_loop_append using loop(1) r by simp
  then have "main_forever w s = Some r"
    unfolding main_forever_def by (rule main_loop_forever_prefix) (rule loop_step_exit [OF r])
  with le good bad run show ?thesis by blast
qed

theorem main_forever_returns_at_first_bad_event_witness:
  "\<exists>i r. i \<le> 1
     \<and> list_all good_event (stake i (Frame \<lparr>ret = True, detections = [], clock = 1, key = -1\<rparr> ## Frame \<lparr>ret = False, detections = [], clock = 2, key = -1\<rparr> ## sconst (Frame \<lparr>ret = True, detections = [], clock = 3, key = -1\<rparr>)))
     \<and> \<not> good_event ((Frame \<lparr>ret = True, detections = [], clock = 1, key = -1\<rparr> ## Frame \<lparr>ret = False, detections = [], clock = 2, key = -1\<rparr> ## sconst (Frame \<lparr>ret = True, detections = [], clock = 3, key = -1\<rparr>)) !! i)
     \<and> main_loop (init_controller 640) (stake (Suc i) (Frame \<lparr>ret = True, detections = [], clock = 1, key = -1\<rparr> ## Frame \<lparr>ret = False, detections = [], clock = 2, key = -1\<rparr> ## sconst (Frame \<lparr>ret = True, detections = [], clock = 3, key = -1\<rparr>))) [] = r
     \<and> main_forever 640 (Frame \<lparr>ret = True, detections = [], clock = 1, key = -1\<rparr> ## Frame \<lparr>ret = False, detections = [], clock = 2, key = -1\<rparr> ## sconst (Frame \<lparr>ret = True, detections = [], clock = 3, key = -1\<rparr>)) = Some r"
  by (rule main_forever_returns_at_first_bad_event) (simp_all add: good_frame_def)

text \<open>
  Claim C5. On a camera that always delivers a frame, with four-corner detections
  and no \<^verbatim>\<open>q\<close>, and a non-zero frame width, the loop never returns: no
  exception arises inside the core and nothing else breaks it.
\<close>

theorem main_forever_never_returns:
  assumes "w \<noteq> 0" "stream_all (\<lambda>ev. \<exists>f. ev = Frame f \<and> good_frame f) s"
  shows "main_forever w s = None"
proof (rule ccontr)
  assume "main_forever w s \<noteq> None"
  then obtain r where "main_loop_forever (init_controller w) s [] = Some r"
    by (auto simp: main_forever_def)
  from main_loop_forever_returns [OF this] obtain n where
    "main_loop (init_controller w) (stake n s) [] = r" "\<not> running r" by blast
  moreover have "width (init_controller w) \<noteq> 0" using assms(1) by (simp add: init_controller_def)
  ultimately show False using main_loop_good_stream [OF _ assms(2)] by blast
qed

theorem main_forever_never_returns_witness:
  "main_forever 640 (sconst (Frame \<lparr>ret = True, detections = [], clock = 1, key = -1\<rparr>)) = None"
proof -
  have "stream_all (\<lambda>ev. \<exists>f. ev = Frame f \<and> good_frame f)
          (sconst (Frame \<lparr>ret = True, detections = [], clock = 1, key = -1\<rparr>))"
    by (simp add: model_defs)
  from main_forever_never_returns [OF _ this] show ?thesis by simp
qed

text \<open>
  Claim C34. After any number of good frames, a frame on which \<^verbatim>\<open>q\<close> is pressed
  ends the unbounded loop normally: \<^verbatim>\<open>main\<close> returns, after the two motor commands of
  every frame, those of the quitting frame included.
\<close>

theorem main_forever_quits:
  assumes "w \<noteq> 0" "list_all good_frame pre" "ret f" "list_all wf_detection (detections f)"
    and "quit_pressed (key f)"
  shows "\<exists>out. main_forever w (map Frame pre @- Frame f ## s) = Some (Quit out)
           \<and> length out = 2 * length pre + 2"
proof -
  from loop_reaches_frame [OF assms(1-4)] obtain c1 c out where
    loop: "main_loop (init_controller w) (map Frame pre) [] = Running c1 out"
    and it: "iteration c1 f = Inr (c, drive_wheels (left_speed c) (right_speed c))"
    and len: "length out = 2 * length pre"
    by blast
  have "main_loop (init_controller w) (stake (Suc (length (map Frame pre))) (map Frame pre @- Frame f ## s)) []
      = Quit (out @ drive_wheels (left_speed c) (right_speed c))"
    unfolding stake_shift_Cons using loop it assms(5) by (simp add: main_loop_append loop_step_def)
  with len show ?thesis
    using main_loop_forever_prefix by (fastforce simp: main_forever_def)
qed


theorem main_forever_quits_witness:
  "\<exists>out. main_forever 640 ([Frame \<lparr>ret = True, detections = [], clock = 1, key = -1\<rparr>]
             @- Frame \<lparr>ret = True, detections = [], clock = 2, key = 113\<rparr>
             ## sconst (Frame \<lparr>ret = True, detections = [], clock = 3, key = -1\<rparr>)) = Some (Quit out)
     \<and> length out = 4"
  using main_forever_quits [of 640 "[\<lparr>ret = True, detections = [], clock = 1, key = -1\<rparr>]"
      "\<lparr>ret = True, detections = [], clock = 2, key = 113\<rparr>"
      "sconst (Frame \<lparr>ret = True, detections = [], clock = 3, key = -1\<rparr>)"]
  by (simp add: model_defs)

text \<open>
  Claim C37. The loop leaves on a frame exactly when the low byte of the key code is
  \<^verbatim>\<open>q\<close> (\<^verbatim>\<open>waitKey(1) & 0xFF == ord('q')\<close> is \<open>key mod 256 = 113\<close>): after
  any good frames, a frame that can be processed sends its two motor commands and then
  ends the loop normally if and only if its key code is 113 modulo 256, modifier bits
  above the byte included; otherwise (the "no key" value -1 reads as 255) the loop goes
  on with the tick's controller.
\<close>

theorem loop_quits_iff_low_byte_q:
  assumes "w \<noteq> 0" "list_all good_frame pre" "ret f" "list_all wf_detection (detections f)"
  shows "\<exists>c out. run_ticks (init_controller w) (map tick_input (pre @ [f])) = Inr c
           \<and> main_loop (init_controller w) (map Frame (pre @ [f])) []
               = (if key f mod 256 = 113 then Quit else Running c) (out @ drive_wheels (left_speed c) (right_speed c))"
proof -
  from loop_reaches_frame [OF assms] obtain c1 c out where
    loop: "main_loop (init_controller w) (map Frame pre) [] = Running c1 out"
    and run: "run_ticks (init_controller w) (map tick_input (pre @ [f])) = Inr c"
    and it: "iteration c1 f = Inr (c, drive_wheels (left_speed c) (right_speed c))"
    by blast
  have "quit_pressed (key f) \<longleftrightarrow> key f mod 256 = 113"
    by (simp add: quit_pressed_def KEY_Q_def and_0xFF)
  then have "main_loop (init_controller w) (map Frame (pre @ [f])) []
      = (if key f mod 256 = 113 then Quit else Running c) (out @ drive_wheels (left_speed c) (right_speed c))"
    using loop it by (simp add: main_loop_append loop_step_def)
  with run show ?thesis by blast
qed

theorem loop_quits_iff_low_byte_q_witness:
  "\<exists>c out. run_ticks (init_controller 640) (map tick_input ([] @ [\<lparr>ret = True, detections = [], clock = 1, key = 0x100071\<rparr>])) = Inr c
     \<and> main_loop (init_controller 640) (map Frame ([] @ [\<lparr>ret = True, detections = [], clock = 1, key = 0x100071\<rparr>])) []
         = Quit (out @ drive_wheels (left_speed c) (right_speed c))"
  using loop_quits_iff_low_byte_q [of 640 "[]" "\<lparr>ret = True, detections = [], clock = 1, key = 0x100071\<rparr>"]
  by simp

text \<open>
  Claim C38. The 3000 ms timeout of \<^verbatim>\<open>STATE_GO_TURN\<close> in wall-clock seconds:
  with \<^verbatim>\<open>millis() = round(time.time() * 1000)\<close>, a tick at time \<open>t\<close> starts the
  turn exactly when \<open>1000 t\<close> is more than 3000.5 past the last-seen time, or exactly
  3000.5 past an odd last-seen time: Python's \<^verbatim>\<open>round\<close> sends the tie to the even
  neighbour, so at 3000.5 ms the turn starts only after an odd last-seen time.
\<close>

theorem go_turn_timeout_in_seconds:
  assumes "state c = STATE_GO_TURN" "width c \<noteq> 0"
  shows "\<exists>c'. tick c tags (millis t) = Inr c'
           \<and> (state c' = STATE_TURN_LEFT \<longleftrightarrow>
                of_int (tag_last_seen c) + 3000 + 1 / 2 < 1000 * t
                \<or> (1000 * t = of_int (tag_last_seen c) + 3000 + 1 / 2 \<and> odd (tag_last_seen c)))"
proof -
  obtain c' where c': "tick c tags (millis t) = Inr c'" using tick_total [OF assms(2)] by blast
  have "millis t - tag_last_seen c > 3000 \<longleftrightarrow> tag_last_seen c + 3000 < py_round (t * 1000)"
    unfolding millis_def by linarith
  also have "\<dots> \<longleftrightarrow> of_int (tag_last_seen c) + 3000 + 1 / 2 < 1000 * t
                \<or> (1000 * t = of_int (tag_last_seen c) + 3000 + 1 / 2 \<and> odd (tag_last_seen c))"
    unfolding py_round_gt_iff by (simp add: mult.commute)
  finally show ?thesis using tick_go_turn_state [OF assms(1) c'] c' by auto
qed

theorem go_turn_timeout_in_seconds_witness:
  "\<exists>c'. tick \<lparr>left_speed = 63, right_speed = 63, max_speed = 127, state = STATE_GO_TURN, tag_missing_frames = 0, tag_last_seen = 1000, width = 640\<rparr> [] (millis (40005 / 10000)) = Inr c'
     \<and> state c' \<noteq> STATE_TURN_LEFT"
  using go_turn_timeout_in_seconds [of "\<lparr>left_speed = 63, right_speed = 63, max_speed = 127, state = STATE_GO_TURN, tag_missing_frames = 0, tag_last_seen = 1000, width = 640\<rparr>" "[]" "40005 / 10000"]
  by simp

text \<open>
  Claim C28. A frame the core cannot process ends the program at that frame: a failed
  read (\<^verbatim>\<open>cvtColor\<close> raises) or a detection without four corners (the overlay's
  unpacking raises \<open>ValueError\<close>) leaves \<^verbatim>\<open>main\<close> with that exception before the
  frame's motor commands, after exactly the two commands of every earlier frame, and the
  handler of \<^verbatim>\<open>__main__\<close> then stops both motors.
\<close>

theorem unprocessable_frame_raises_before_commands:
  assumes "w \<noteq> 0" "list_all good_frame pre" "\<not> ret f \<or> \<not> list_all wf_detection (detections f)"
  shows "\<exists>out. main_forever w (map Frame pre @- Frame f ## s)
                = Some (Raised (if ret f then ValueError else ExternalFault) out)
           \<and> length out = 2 * length pre
           \<and> run_program_forever w (map Frame pre @- Frame f ## s) = Some (out @ shutdown_stop)"
proof -
  have "width (init_controller w) \<noteq> 0" using assms(1) by (simp add: init_controller_def)
  from main_loop_good [OF this assms(2), of "[]"] obtain c out where
    loop: "main_loop (init_controller w) (map Frame pre) [] = Running c out"
    and motors: "map cmd_motor out = concat (replicate (length pre) [1, 2])"
    by auto
  have "iteration c f = Inl (if ret f then ValueError else ExternalFault)"
    using assms(3) overlay_cases [of "detections f"] by (auto simp: iteration_def)
  then have "main_loop (init_controller w) (stake (Suc (length (map Frame pre))) (map Frame pre @- Frame f ## s)) []
      = Raised (if ret f then ValueError else ExternalFault) out"
    unfolding stake_shift_Cons using loop by (simp add: main_loop_append loop_step_def)
  then have "main_forever w (map Frame pre @- Frame f ## s) = Some (Raised (if ret f then ValueError else ExternalFault) out)"
    unfolding main_forever_def by (rule main_loop_forever_prefix) simp
  moreover have "length out = 2 * length pre"
    using arg_cong [OF motors, of length] by (simp add: length_concat sum_list_replicate)
  ultimately show ?thesis by (simp add: run_program_forever_def)
qed

theorem unprocessable_frame_raises_before_commands_witness:
  "\<exists>out. main_forever 640 (map Frame [] @- Frame \<lparr>ret = True, detections = [\<lparr>tag_id = 1, center = (0, 0), corners = [(0, 0), (1, 0), (1, 1)], pose_t = (0, 0, 1)\<rparr>], clock = 1, key = -1\<rparr>
          ## sconst (Frame \<lparr>ret = True, detections = [], clock = 2, key = -1\<rparr>))
        = Some (Raised ValueError out)
     \<and> length out = 0
     \<and> run_program_forever 640 (map Frame [] @- Frame \<lparr>ret = True, detections = [\<lparr>tag_id = 1, center = (0, 0), corners = [(0, 0), (1, 0), (1, 1)], pose_t = (0, 0, 1)\<rparr>], clock = 1, key = -1\<rparr>
          ## sconst (Frame \<lparr>ret = True, detections = [], clock = 2, key = -1\<rparr>)) = Some (out @ shutdown_stop)"
  using unprocessable_frame_raises_before_commands [of 640 "[]"
      "\<lparr>ret = True, detections = [\<lparr>tag_id = 1, center = (0, 0), corners = [(0, 0), (1, 0), (1, 1)], pose_t = (0, 0, 1)\<rparr>], clock = 1, key = -1\<rparr>"
      "sconst (Frame \<lparr>ret = True, detections = [], clock = 2, key = -1\<rparr>)"]
  by (simp add: wf_detection_def)

text \<open>
  Claim C30. The width the loop works with is the capture's reported width truncated
  (line 46). When the camera reports a width below one pixel (OpenCV's 0.0 for a
  property it cannot read), the program runs on tagless frames, halving the powers in
  \<^verbatim>\<open>STATE_GO_FARTHEST\<close>, and the first frame that shows a tag raises
  \<open>ZeroDivisionError\<close> in \<^verbatim>\<open>get_left_right_power_for_tag\<close>
  (\<^verbatim>\<open>rescale\<close> over the empty range \<open>[-0.0, 0.0]\<close>); the handler of
  \<^verbatim>\<open>__main__\<close> then stops both motors.
\<close>

theorem zero_width_camera_raises_at_first_tag:
  assumes "0 \<le> p" "p < 1" "list_all (\<lambda>f. good_frame f \<and> detections f = []) frames"
    and "good_frame f" "detections f \<noteq> []"
  shows "\<exists>out. main_forever (frame_width p) (map Frame frames @- Frame f ## s)
                = Some (Raised ZeroDivisionError out)
           \<and> run_program_forever (frame_width p) (map Frame frames @- Frame f ## s)
                = Some (out @ shutdown_stop)"
proof -
  have w: "frame_width p = 0" using assms(1, 2) by (simp add: frame_width_def py_int_small)
  have "state (init_controller 0) = STATE_GO_FARTHEST" by (simp add: init_controller_def)
  from main_loop_tagless [OF this assms(3), of "[]"] obtain c out where
    loop: "main_loop (init_controller 0) (map Frame frames) [] = Running c out"
    and c: "state c = STATE_GO_FARTHEST" "width c = 0"
    by (auto simp: init_controller_def)
  have "tick c (detections f) (millis (clock f)) = Inl ZeroDivisionError"
    using tick_go_farthest_zero_width [OF c assms(5)] .
  moreover obtain ops where "overlay (detections f) = Inr ops"
    using overlay_cases [of "detections f"] assms(4) by (auto simp: good_frame_def)
  ultimately have last: "main_loop c [Frame f] out = Raised ZeroDivisionError out"
    using assms(4) by (simp add: loop_step_def iteration_def good_frame_def)
  have "main_loop (init_controller 0) (stake (Suc (length (map Frame frames))) (map Frame frames @- Frame f ## s)) []
      = Raised ZeroDivisionError out"
    unfolding stake_shift_Cons using loop last by (simp add: main_loop_append)
  then have "main_forever 0 (map Frame frames @- Frame f ## s) = Some (Raised ZeroDivisionError out)"
    unfolding main_forever_def by (rule main_loop_forever_prefix) simp
  with w show ?thesis by (simp add: run_program_forever_def)
qed

theorem zero_width_camera_raises_at_first_tag_witness:
  "\<exists>out. main_forever (frame_width 0) ([Frame \<lparr>ret = True, detections = [], clock = 1, key = -1\<rparr>]
          @- Frame \<lparr>ret = True, detections = [\<lparr>tag_id = 1, center = (0, 0), corners = [(0, 0), (1, 0), (1, 1), (0, 1)], pose_t = (0, 0, 1)\<rparr>], clock = 2, key = -1\<rparr>
          ## sconst (Frame \<lparr>ret = True, detections = [], clock = 3, key = -1\<rparr>))
        = Some (Raised ZeroDivisionError out)
     \<and> run_program_forever (frame_width 0) ([Frame \<lparr>ret = True, detections = [], clock = 1, key = -1\<rparr>]
          @- Frame \<lparr>ret = True, detections = [\<lparr>tag_id = 1, center = (0, 0), corners = [(0, 0), (1, 0), (1, 1), (0, 1)], pose_t = (0, 0, 1)\<rparr>], clock = 2, key = -1\<rparr>
          ## sconst (Frame \<lparr>ret = True, detections = [], clock = 3, key = -1\<rparr>))
        = Some (out @ shutdown_stop)"
  using zero_width_camera_raises_at_first_tag [of 0 "[\<lparr>ret = True, detections = [], clock = 1, key = -1\<rparr>]"
      "\<lparr>ret = True, detections = [\<lparr>tag_id = 1, center = (0, 0), corners = [(0, 0), (1, 0), (1, 1), (0, 1)], pose_t = (0, 0, 1)\<rparr>], clock = 2, key = -1\<rparr>"
      "sconst (Frame \<lparr>ret = True, detections = [], clock = 3, key = -1\<rparr>)"]
  by (simp add: model_defs)

end
