(* ===== verification/Spec2Isabelle.thy ===== *)
theory Spec2Isabelle
  imports Prelude PowerModel TagSelector MotionCommander Controller ControllerInvariants Overlay MainLoop
begin

text \<open>
  \<^bold>\<open>Verification model of the tag-following navigation controller \<^verbatim>\<open>src/main.py\<close>.\<close>

  \<^bold>\<open>The program.\<close> A single Python file drives a differential-drive robot towards
  AprilTag markers. Each iteration of the \<^verbatim>\<open>while True\<close> loop of \<^verbatim>\<open>main\<close>
  reads a camera frame, runs the tag detector, picks tags, runs a three-state behaviour
  machine (\<^verbatim>\<open>STATE_GO_FARTHEST\<close>, \<^verbatim>\<open>STATE_GO_TURN\<close>, \<^verbatim>\<open>STATE_TURN_LEFT\<close>)
  that computes two wheel powers, snaps near-zero powers to 0 and sends one Roboclaw
  command per motor, then draws a debug overlay and polls the keyboard. The loop ends
  when \<^verbatim>\<open>q\<close> is pressed; any exception leaving \<^verbatim>\<open>main\<close> is caught in
  \<^verbatim>\<open>__main__\<close>, which stops both motors.

  \<^bold>\<open>The library.\<close>
  \<^item> \<open>Prelude\<close>: Python exceptions (\<open>py_error\<close>), results as \<open>py_error + 'a\<close>, the
    detector's tag observation as the record \<open>detection\<close> (the interface of the
    external detector), Python's \<^verbatim>\<open>int()\<close> of a float as \<open>py_int\<close> (truncation
    towards zero) and \<^verbatim>\<open>round()\<close> as \<open>py_round\<close> (half to even) with their
    lemmas, and the collection \<open>model_defs\<close>.
  \<^item> \<open>PowerModel\<close>: \<^verbatim>\<open>rescale\<close> and \<^verbatim>\<open>get_left_right_power_for_tag\<close>
    (lines 23--34). \<^verbatim>\<open>rescale\<close> raises \<open>ZeroDivisionError\<close> on an empty input
    range, as Python's float division does. Lemmas: the power model refines the spec's
    description \<open>power_spec\<close>; centring, distance endpoints, bounds on in-range
    inputs, the family of in-range tags that break the spec's power bound (C20);
    \<^verbatim>\<open>rescale\<close> round trip.
  \<^item> \<open>TagSelector\<close>: the tag scans of lines 96--99, 114--117, 119--123 and
    138--141, each \<^verbatim>\<open>for\<close> loop a recursive function. Lemmas: equivalence with the
    first minimal tag, with \<^const>\<open>find\<close>, with the farthest tag of a filtered list.
  \<^item> \<open>MotionCommander\<close>: the Roboclaw commands (datatype \<open>roboclaw_cmd\<close>, the
    address byte as an \<open>8 word\<close>), \<open>drive_wheels\<close> (lines 165--173) and the stop of
    the exception handler \<open>shutdown_stop\<close> (lines 194--195).
  \<^item> \<open>Controller\<close>: the loop variables of \<^verbatim>\<open>main\<close> as the record
    \<open>controller\<close>, initialised by \<open>init_controller\<close> (lines 46--54); one handler
    per state (\<open>go_farthest_step\<close>, \<open>go_turn_step\<close>, \<open>turn_left_step\<close>, lines
    105--150) dispatched by \<open>state_machine_step\<close>; \<open>update_tag_seen\<close> (lines
    152--156); \<open>snap_speeds\<close> (lines 160--163); \<open>tick\<close>, one iteration from the
    detections to the powers (lines 95--163); \<open>run_ticks\<close> over a frame sequence;
    the reachable controllers as the inductive predicate \<open>reachable\<close>. Lemmas: the
    error paths of a tick (C12), the snapped powers by rule induction (C6), the
    transitions of each state (C7, C9--C11), the decay of the powers on empty frames
    (C14, C15), the liveness of the turn state (C31) and of the turn-tag state by its
    timeout (C23).
  \<^item> \<open>ControllerInvariants\<close>: over the handlers of \<open>Controller\<close>, the
    controllers reached on frames within range as the inductive predicate
    \<open>reachable_in_range\<close> (tags at most 3 m away and inside the frame), the spec's
    transition table as the inductive relation \<open>nav_transition\<close>, the predicates
    \<open>speeds_bounded\<close>, \<open>halved_int\<close> and \<open>tags_seen_within\<close>. Lemmas: the
    power bound (C8) and the powers as halved ints (C35) by rule induction, the
    refinement of the transition table (C32), the bookkeeping over runs (C29), the hold of
    the turn-tag state while tags are seen (C13); the last-seen time is the time of the
    last frame with tags, whatever the clock did (C29).
  \<^item> \<open>Overlay\<close>: the debug overlay of lines 74--93 as a list of drawing calls
    (\<open>draw_op\<close>), with the \<open>ValueError\<close> of the corner unpacking on a detection
    without four corners; Python's \<^verbatim>\<open>str()\<close> of an int (\<open>py_str_int\<close>) for the
    label, and \<open>draw_labels\<close>, the labels a list of calls draws. Lemmas: the
    overlay's only error and when it arises (C39); one label per tag, at its centre,
    reading back as its id (C40).
  \<^item> \<open>MainLoop\<close>: one iteration as \<open>iteration\<close> (camera read, overlay, tick, the
    two motor commands) and \<open>loop_step\<close> (with the key poll
    \<^verbatim>\<open>waitKey(1) & 0xFF == ord('q')\<close> as \<open>quit_pressed\<close> and
    \<^verbatim>\<open>millis()\<close> as \<open>millis\<close>; the two fixed console lines as
    \<open>console_header\<close>); the \<^verbatim>\<open>while True\<close> loop twice: as
    \<open>main_loop\<close> over a finite list of events and as \<open>main_loop_forever\<close> over an
    infinite stream; \<^verbatim>\<open>main\<close> as \<open>main\<close>/\<open>main_forever\<close>; the
    \<^verbatim>\<open>__main__\<close> block with its exception handler as \<open>finish\<close>,
    \<open>run_program\<close> and \<open>run_program_forever\<close>. An event is a camera frame
    (\<open>camera_frame\<close>: \<^verbatim>\<open>ret\<close>, the detections, \<^verbatim>\<open>time.time()\<close>, the key code)
    or \<open>Fault f k e\<close>, an exception from outside the core arriving in the iteration
    on \<open>f\<close> after \<open>k\<close> of its motor commands. The width \<^verbatim>\<open>main\<close> starts
    with is \<open>frame_width\<close> of the capture's reported width (line 46); an event the
    loop goes on at is a \<open>good_event\<close>. Lemmas: the loop returns at the first event
    that is not a good frame (C4) and never on good frames only (C5); \<^verbatim>\<open>q\<close> ends
    it (C34), exactly when the low byte of the key code is \<^verbatim>\<open>q\<close> (C37); a failed
    read or a malformed detection ends it before that frame's commands (C28); the
    \<^verbatim>\<open>STATE_GO_TURN\<close> timeout in seconds of \<^verbatim>\<open>time.time()\<close>, with the tie of
    \<^verbatim>\<open>round\<close> (C38); the error and the stop at the first tag on a camera reporting a
    zero width (C30).
  \<^item> This theory: the properties that span the components: the guaranteed stop on an
    exception at any point of an iteration (C1, C3), its absence on a normal quit (C2),
    the agreement of the loop with the ticks and the motor commands (C27), the byte
    range of every command (C33), the last-seen time on a monotone clock (C24), and the
    snap to zero against \<^verbatim>\<open>int()\<close> (C36).

  \<^bold>\<open>Modelling choices.\<close> Python floats are reals (no IEEE rounding); C35 shows that
  the wheel powers are ints halved some number of times, which binary floating point
  holds exactly. The \<^verbatim>\<open>while True\<close> loop may run forever, so the program is
  \<open>main_loop_forever\<close>, a \<^theory_text>\<open>partial_function (option)\<close> over an infinite stream
  of events, \<open>None\<close> when it never returns; no fuel is needed. Its finite
  approximation \<open>main_loop\<close> is structural recursion over a list of events, leaving
  the loop \<open>Running\<close> when the list is used up, and C4 proves the two agree: the
  unbounded loop returns \<open>r\<close> exactly when some prefix of the stream ends the finite
  loop with \<open>r\<close>. Every other function is total by structural recursion. The
  frame width is the camera's, read once at start. \<^verbatim>\<open>time.time()\<close> and
  \<^verbatim>\<open>cv2.waitKey(1)\<close> are inputs carried by each frame. An exception raised by a
  library during an iteration (the detector, the serial port, \<^verbatim>\<open>imshow\<close>) or by
  the interpreter (Ctrl-C) is a \<open>Fault\<close> event with the number of motor commands
  the iteration had sent; the exceptions raised by the modelled code itself (the
  \<^verbatim>\<open>cv2.error\<close> of \<^verbatim>\<open>cvtColor\<close> on a failed read, \<open>ValueError\<close>,
  \<open>ZeroDivisionError\<close>) come out of \<open>iteration\<close>.

  \<^bold>\<open>Not modelled.\<close> The pixels: camera capture and colour conversion (only the
  \<^verbatim>\<open>ret\<close> flag of \<^verbatim>\<open>vid.read\<close> and the exception of \<^verbatim>\<open>cvtColor\<close> on a failed
  read are modelled), the AprilTag detector and its pose estimation (their output is the
  \<open>detection\<close> list), the image the overlay draws on and \<^verbatim>\<open>imshow\<close> (the drawing
  calls are values), \<^verbatim>\<open>r.tag_family.decode\<close> (its value is unused); the printed powers of lines
  158--159 (Python's float formatting; the two fixed lines 102--103 are
  \<open>console_header\<close>), which nothing reads; the frame height of line 47, which
  nothing reads; the Roboclaw
  serial driver, a library outside the repository (its commands are values of
  \<open>roboclaw_cmd\<close>); \<^verbatim>\<open>vid.release\<close>, \<^verbatim>\<open>cv2.destroyAllWindows\<close>,
  \<^verbatim>\<open>traceback\<close> printing and \<^verbatim>\<open>sys.exit\<close>/\<^verbatim>\<open>os._exit\<close> after the stop,
  which send no command.

  \<^bold>\<open>Plan.\<close> Sitting 1 modelled the leaves (power model, tag scans), the state
  machine and its tick, the motor commands, the loop over finite event lists and the
  exception handler. Sitting 2 made the loop the program's: the unbounded loop over an
  event stream with its termination and non-termination theorems, the camera read, the
  overlay and its error, the clock, the key poll, exceptions inside an iteration
  (between the motor commands), the byte range of the commands, the float exactness of
  the powers, the liveness of \<^verbatim>\<open>STATE_TURN_LEFT\<close>. Sitting 3 added the timeout liveness of
  \<^verbatim>\<open>STATE_GO_TURN\<close> with its decay bound (C23) and the last-seen invariant on a
  monotone clock (C24), and merged the tag-scan equivalences into C21 and C22. Sitting 4
  moved the invariants and run properties of the state machine into their own theory
  \<open>ControllerInvariants\<close>, and modelled the truncation of the reported frame width
  with its error path (C30, which replaces the round trip of \<^verbatim>\<open>rescale\<close>; that
  stays a lemma of \<open>PowerModel\<close>). The revision after it replaced statements that
  held of one computed input, or of any loop body, by general ones: quitting for any run
  (C2), the first event at which the loop returns (C4), the family of tags over the
  power bound (C20), the error path of an unprocessable frame (C28), the quit test at
  the loop (C37), the timeout in seconds (C38), the labels the overlay draws (C40). Nothing
  of \<^verbatim>\<open>src/main.py\<close> that decides a command is left out of the model; what is left
  is listed under \<^bold>\<open>Not modelled\<close> with the reason.

  \<^bold>\<open>Findings.\<close> The spec's bound \<open>[-max_power, max_power]\<close> on powers does not
  hold (PowerModel, C20; the proved bound is twice that, C8, and every command still fits
  one byte, C33); a power of 0 is sent as a backward command (MotionCommander, C26); the
  \<^verbatim>\<open>STATE_GO_TURN\<close> timeout measures the time since any tag was seen, so it never
  fires while other tags stay in view (ControllerInvariants, C13); the last-seen time follows the
  wall clock and can decrease (C29); quitting with \<^verbatim>\<open>q\<close> leaves the motors at their
  last command, with no stop (C2); an exception between the two motor commands leaves
  the motors at different ticks' powers until the handler's stop (C3); the snap to 0 of
  powers below 0.1 never changes a commanded speed, since \<^verbatim>\<open>int()\<close> already sends 0
  for every power below 1 (C36); the powers are not always integers, as the spec's
  invariant says, but ints halved (C35); a camera reporting a width below one pixel is
  not caught at start: the robot drives on tagless frames and stops with
  \<open>ZeroDivisionError\<close> at the first tag (C30); at exactly 3000.5 ms the timeout
  depends on the parity of the last-seen time, through the half-to-even rule of
  \<^verbatim>\<open>round\<close> (C38).
\<close>

subsection \<open>Shutdown\<close>

text \<open>
  Claim C1. When an exception (Ctrl-C, a camera, detector or serial fault) interrupts the
  loop after any number of frames without \<^verbatim>\<open>q\<close>, at any point of an iteration,
  the program returns, and its last two commands are \<^verbatim>\<open>ForwardM1(0x80, 0)\<close> and
  \<^verbatim>\<open>ForwardM2(0x80, 0)\<close>, issued after all commands of the loop, so both motors
  end stopped. An exception raised inside the loop (a failed camera read, a detection
  without four corners, the \<open>ZeroDivisionError\<close> of a zero frame width) leads to
  the same stop.
\<close>

theorem exception_issues_guaranteed_stop:
  assumes "list_all (\<lambda>ev. \<exists>f. ev = Frame f \<and> \<not> quit_pressed (key f)) pre"
  shows "\<exists>out. run_program_forever w (pre @- Fault f k e ## s) = Some (out @ shutdown_stop)
           \<and> motor_speed 1 (out @ shutdown_stop) = Some 0
           \<and> motor_speed 2 (out @ shutdown_stop) = Some 0"
proof -
  obtain e' out where loop: "main_loop (init_controller w) (pre @ [Fault f k e]) [] = Raised e' out"
    using main_loop_fault_after [OF assms] by blast
  then have "main_loop (init_controller w) (stake (Suc (length pre)) (pre @- Fault f k e ## s)) []
      = Raised e' out"
    by (simp only: stake_shift_Cons)
  then have "main_forever w (pre @- Fault f k e ## s) = Some (Raised e' out)"
    unfolding main_forever_def by (rule main_loop_forever_prefix) simp
  then show ?thesis
    using motor_speed_shutdown [of out] by (simp add: run_program_forever_def)
qed

theorem exception_issues_guaranteed_stop_witness:
  "\<exists>out. run_program_forever 640
      ([Frame \<lparr>ret = True, detections = [\<lparr>tag_id = 2, center = (320, 100), corners = [(300, 80), (340, 80), (340, 120), (300, 120)], pose_t = (0, 0, 3 / 2)\<rparr>], clock = 1, key = -1\<rparr>]
       @- Fault \<lparr>ret = True, detections = [], clock = 2, key = -1\<rparr> 1 KeyboardInterrupt
       ## sconst (Frame \<lparr>ret = True, detections = [], clock = 3, key = -1\<rparr>))
     = Some (out @ shutdown_stop)"
  using exception_issues_guaranteed_stop
      [of "[Frame \<lparr>ret = True, detections = [\<lparr>tag_id = 2, center = (320, 100), corners = [(300, 80), (340, 80), (340, 120), (300, 120)], pose_t = (0, 0, 3 / 2)\<rparr>], clock = 1, key = -1\<rparr>]"
        640 "\<lparr>ret = True, detections = [], clock = 2, key = -1\<rparr>" 1 KeyboardInterrupt
        "sconst (Frame \<lparr>ret = True, detections = [], clock = 3, key = -1\<rparr>)"]
  by (auto simp: quit_pressed_def KEY_Q_def)

text \<open>
  Claim C2. Quitting with \<^verbatim>\<open>q\<close> ends \<^verbatim>\<open>main\<close> normally, and \<^verbatim>\<open>__main__\<close> then
  sends no stop: after any good frames, on the frame with \<^verbatim>\<open>q\<close> the program's last
  commands are that tick's two motor commands, so each motor is left running at the
  tick's (truncated) power, not stopped.
\<close>

theorem quit_skips_guaranteed_stop:
  assumes "w \<noteq> 0" "list_all good_frame pre" "ret f" "list_all wf_detection (detections f)"
    and "quit_pressed (key f)"
  shows "\<exists>c out. run_ticks (init_controller w) (map tick_input (pre @ [f])) = Inr c
           \<and> main_forever w (map Frame pre @- Frame f ## s)
               = Some (Quit (out @ drive_wheels (left_speed c) (right_speed c)))
           \<and> run_program_forever w (map Frame pre @- Frame f ## s)
               = Some (out @ drive_wheels (left_speed c) (right_speed c))
           \<and> motor_speed 1 (out @ drive_wheels (left_speed c) (right_speed c)) = Some (py_int (left_speed c))
           \<and> motor_speed 2 (out @ drive_wheels (left_speed c) (right_speed c)) = Some (py_int (right_speed c))"
proof -
  from loop_reaches_frame [OF assms(1-4)] obtain c1 c out where
    loop: "main_loop (init_controller w) (map Frame pre) [] = Running c1 out"
    and run: "run_ticks (init_controller w) (map tick_input (pre @ [f])) = Inr c"
    and it: "iteration c1 f = Inr (c, drive_wheels (left_speed c) (right_speed c))"
    by blast
  have "main_loop (init_controller w) (stake (Suc (length (map Frame pre))) (map Frame pre @- Frame f ## s)) []
      = Quit (out @ drive_wheels (left_speed c) (right_speed c))"
    unfolding stake_shift_Cons using loop it assms(5) by (simp add: main_loop_append loop_step_def)
  then have "main_forever w (map Frame pre @- Frame f ## s)
      = Some (Quit (out @ drive_wheels (left_speed c) (right_speed c)))"
    unfolding main_forever_def by (rule main_loop_forever_prefix) simp
  with run motor_speed_drive_wheels [of out "left_speed c" "right_speed c"] show ?thesis
    by (simp add: run_program_forever_def)
qed

theorem quit_skips_guaranteed_stop_witness:
  "\<exists>c out. run_ticks (init_controller 640) (map tick_input ([] @ [\<lparr>ret = True, detections = [\<lparr>tag_id = 2, center = (320, 100), corners = [(300, 80), (340, 80), (340, 120), (300, 120)], pose_t = (0, 0, 3 / 2)\<rparr>], clock = 1, key = 113\<rparr>])) = Inr c
     \<and> main_forever 640 (map Frame [] @- Frame \<lparr>ret = True, detections = [\<lparr>tag_id = 2, center = (320, 100), corners = [(300, 80), (340, 80), (340, 120), (300, 120)], pose_t = (0, 0, 3 / 2)\<rparr>], clock = 1, key = 113\<rparr>
          ## sconst (Frame \<lparr>ret = True, detections = [], clock = 2, key = -1\<rparr>))
         = Some (Quit (out @ drive_wheels (left_speed c) (right_speed c)))
     \<and> run_program_forever 640 (map Frame [] @- Frame \<lparr>ret = True, detections = [\<lparr>tag_id = 2, center = (320, 100), corners = [(300, 80), (340, 80), (340, 120), (300, 120)], pose_t = (0, 0, 3 / 2)\<rparr>], clock = 1, key = 113\<rparr>
          ## sconst (Frame \<lparr>ret = True, detections = [], clock = 2, key = -1\<rparr>))
         = Some (out @ drive_wheels (left_speed c) (right_speed c))
     \<and> motor_speed 1 (out @ drive_wheels (left_speed c) (right_speed c)) = Some (py_int (left_speed c))
     \<and> motor_speed 2 (out @ drive_wheels (left_speed c) (right_speed c)) = Some (py_int (right_speed c))"
  by (rule quit_skips_guaranteed_stop) (simp_all add: wf_detection_def quit_pressed_def KEY_Q_def)

text \<open>
  Claim C3. An exception that arrives between the two motor commands of an iteration
  (after \<^verbatim>\<open>ForwardM1\<close>/\<^verbatim>\<open>BackwardM1\<close>, before the motor-2 command) ends
  \<^verbatim>\<open>main\<close> with motor 1 at the new power of that tick and motor 2 at its previous
  command: the two commands of a tick are not atomic. By C1 the handler's stop then
  follows that single command, so both motors still end stopped. The tick's controller is the one the ticks compute over all frames so far.
\<close>

theorem fault_between_motor_commands:
  assumes "w \<noteq> 0" "list_all good_frame pre" "ret f" "list_all wf_detection (detections f)"
  shows "\<exists>c out. main_forever w (map Frame pre @- Fault f 1 e ## s)
             = Some (Raised e (out @ [hd (drive_wheels (left_speed c) (right_speed c))]))
           \<and> run_ticks (init_controller w) (map tick_input (pre @ [f])) = Inr c
           \<and> length out = 2 * length pre
           \<and> motor_speed 1 (out @ [hd (drive_wheels (left_speed c) (right_speed c))])
                = Some (py_int (left_speed c))
           \<and> motor_speed 2 (out @ [hd (drive_wheels (left_speed c) (right_speed c))])
                = motor_speed 2 out"
proof -
  from loop_reaches_frame [OF assms] obtain c1 c out where
    loop: "main_loop (init_controller w) (map Frame pre) [] = Running c1 out"
    and run: "run_ticks (init_controller w) (map tick_input (pre @ [f])) = Inr c"
    and it: "iteration c1 f = Inr (c, drive_wheels (left_speed c) (right_speed c))"
    and len: "length out = 2 * length pre"
    by blast
  have "main_loop (init_controller w) (stake (Suc (length (map Frame pre))) (map Frame pre @- Fault f 1 e ## s)) []
      = Raised e (out @ [hd (drive_wheels (left_speed c) (right_speed c))])"
    unfolding stake_shift_Cons using loop it
    by (simp add: main_loop_append loop_step_def drive_wheels_def)
  then have "main_forever w (map Frame pre @- Fault f 1 e ## s)
      = Some (Raised e (out @ [hd (drive_wheels (left_speed c) (right_speed c))]))"
    unfolding main_forever_def by (rule main_loop_forever_prefix) simp
  with run len show ?thesis using motor_speed_hd_drive_wheels by simp
qed

theorem fault_between_motor_commands_witness:
  "\<exists>c out. main_forever 640 (map Frame [] @- Fault \<lparr>ret = True, detections = [\<lparr>tag_id = 2, center = (320, 100), corners = [(300, 80), (340, 80), (340, 120), (300, 120)], pose_t = (0, 0, 3 / 2)\<rparr>], clock = 1, key = -1\<rparr> 1 KeyboardInterrupt
        ## sconst (Frame \<lparr>ret = True, detections = [], clock = 2, key = -1\<rparr>))
      = Some (Raised KeyboardInterrupt (out @ [hd (drive_wheels (left_speed c) (right_speed c))]))
     \<and> run_ticks (init_controller 640) (map tick_input ([] @ [\<lparr>ret = True, detections = [\<lparr>tag_id = 2, center = (320, 100), corners = [(300, 80), (340, 80), (340, 120), (300, 120)], pose_t = (0, 0, 3 / 2)\<rparr>], clock = 1, key = -1\<rparr>])) = Inr c
     \<and> length out = 2 * length ([] :: camera_frame list)
     \<and> motor_speed 1 (out @ [hd (drive_wheels (left_speed c) (right_speed c))])
          = Some (py_int (left_speed c))
     \<and> motor_speed 2 (out @ [hd (drive_wheels (left_speed c) (right_speed c))])
          = motor_speed 2 out"
  by (rule fault_between_motor_commands) (simp_all add: wf_detection_def)

subsection \<open>The last-seen time on a monotone clock\<close>

text \<open>
  Claim C24. The spec's invariant that the last-seen time only increases holds when the
  wall clock does: if \<^verbatim>\<open>time.time()\<close> never goes back (and starts at or after the
  epoch, above the initial last-seen time 0), then on every iteration of the loop over
  good frames the last-seen time does not decrease, and it is at most that iteration's
  \<^verbatim>\<open>millis()\<close>. (By C29 the last-seen time is always the last frame's time with
  tags, so a clock stepping back breaks it.)
\<close>

theorem last_seen_monotone_on_monotone_clock:
  assumes "w \<noteq> 0" "list_all good_frame frames" "sorted (0 # map clock frames)"
  shows "list_all (\<lambda>i. \<exists>ci cj outi outj.
             main w (map Frame (take i frames)) = Running ci outi
           \<and> main w (map Frame (take (Suc i) frames)) = Running cj outj
           \<and> tag_last_seen ci \<le> tag_last_seen cj \<and> tag_last_seen cj \<le> millis (clock (frames ! i)))
           [0..<length frames]"
proof -
  have w: "width (init_controller w) \<noteq> 0" using assms(1) by (simp add: init_controller_def)
  have "sorted (map millis (0 # map clock frames))"
    unfolding sorted_map using assms(3)
    by (rule sorted_wrt_mono_rel [rotated]) (simp add: millis_def py_round_mono)
  then have sorted: "sorted (tag_last_seen (init_controller w) # map snd (map tick_input frames))"
    by (simp add: init_controller_def tick_input_def millis_def o_def)
  have step: "\<exists>ci cj outi outj.
             main w (map Frame (take i frames)) = Running ci outi
           \<and> main w (map Frame (take (Suc i) frames)) = Running cj outj
           \<and> tag_last_seen ci \<le> tag_last_seen cj \<and> tag_last_seen cj \<le> millis (clock (frames ! i))"
    if i: "i < length frames" for i
  proof -
    have good: "list_all good_frame (take i frames)" "list_all good_frame (take (Suc i) frames)"
      using assms(2) by (auto simp: list_all_iff dest: in_set_takeD)
    from main_loop_good [OF w good(1), of "[]"] obtain ci outi where
      li: "main_loop (init_controller w) (map Frame (take i frames)) [] = Running ci outi"
      and ri: "run_ticks (init_controller w) (map tick_input (take i frames)) = Inr ci" by auto
    from main_loop_good [OF w good(2), of "[]"] obtain cj outj where
      lj: "main_loop (init_controller w) (map Frame (take (Suc i) frames)) [] = Running cj outj"
      and rj: "run_ticks (init_controller w) (map tick_input (take (Suc i) frames)) = Inr cj" by auto
    have split: "take (Suc i) frames = take i frames @ [frames ! i]" using i by (rule take_Suc_conv_app_nth)
    with ri rj have tick: "tick ci (detections (frames ! i)) (millis (clock (frames ! i))) = Inr cj"
      by (simp add: run_ticks_append tick_input_def split: sum.splits)
    have "sorted (tag_last_seen (init_controller w)
        # map snd (map tick_input (take i frames) @ map tick_input (drop i frames)))"
      using sorted by (simp only: map_append [symmetric] append_take_drop_id)
    from run_ticks_last_seen_sorted [OF ri this]
    have "sorted (tag_last_seen ci # map snd (map tick_input (drop i frames)))" by blast
    moreover have "drop i frames = frames ! i # drop (Suc i) frames" using i by (rule Cons_nth_drop_Suc [symmetric])
    ultimately have le: "tag_last_seen ci \<le> millis (clock (frames ! i))"
      by (simp add: tick_input_def)
    have "tag_last_seen cj = (if detections (frames ! i) = [] then tag_last_seen ci else millis (clock (frames ! i)))"
      using tick_bookkeeping [OF tick] by blast
    with le li lj show ?thesis by (auto simp: main_def)
  qed
  then show ?thesis by (simp add: list_all_iff)
qed

theorem last_seen_monotone_on_monotone_clock_witness:
  "list_all (\<lambda>i. \<exists>ci cj outi outj.
       main 640 (map Frame (take i [\<lparr>ret = True, detections = [\<lparr>tag_id = 2, center = (320, 100), corners = [(300, 80), (340, 80), (340, 120), (300, 120)], pose_t = (0, 0, 3 / 2)\<rparr>], clock = 1, key = -1\<rparr>, \<lparr>ret = True, detections = [], clock = 2, key = -1\<rparr>])) = Running ci outi
     \<and> main 640 (map Frame (take (Suc i) [\<lparr>ret = True, detections = [\<lparr>tag_id = 2, center = (320, 100), corners = [(300, 80), (340, 80), (340, 120), (300, 120)], pose_t = (0, 0, 3 / 2)\<rparr>], clock = 1, key = -1\<rparr>, \<lparr>ret = True, detections = [], clock = 2, key = -1\<rparr>])) = Running cj outj
     \<and> tag_last_seen ci \<le> tag_last_seen cj
     \<and> tag_last_seen cj \<le> millis (clock ([\<lparr>ret = True, detections = [\<lparr>tag_id = 2, center = (320, 100), corners = [(300, 80), (340, 80), (340, 120), (300, 120)], pose_t = (0, 0, 3 / 2)\<rparr>], clock = 1, key = -1\<rparr>, \<lparr>ret = True, detections = [], clock = 2, key = -1\<rparr>] ! i)))
     [0..<length [\<lparr>ret = True, detections = [\<lparr>tag_id = 2, center = (320, 100), corners = [(300, 80), (340, 80), (340, 120), (300, 120)], pose_t = (0, 0, 3 / 2)\<rparr>], clock = 1, key = -1\<rparr>, \<lparr>ret = True, detections = [], clock = 2, key = -1 :: int\<rparr>]]"
  by (rule last_seen_monotone_on_monotone_clock) (simp_all add: model_defs)

subsection \<open>The snap to zero and the motor commands\<close>

text \<open>
  Claim C36. The snap of powers below 0.1 to zero (lines 160--163) never changes
  the speed a motor is asked for: \<^verbatim>\<open>int()\<close> already truncates every power of
  magnitude below 1 to 0. The snap changes only the direction of a zero command, for
  powers in \<open>(0, 0.1)\<close>: \<^verbatim>\<open>ForwardM1(0x80, 0)\<close> becomes
  \<^verbatim>\<open>BackwardM1(0x80, 0)\<close>.
\<close>

theorem snap_preserves_commanded_speeds:
  "map cmd_speed (drive_wheels (snap_speed l) (snap_speed r)) = map cmd_speed (drive_wheels l r)
   \<and> drive_wheels (snap_speed (1 / 20)) r \<noteq> drive_wheels (1 / 20) r"
  by (simp add: drive_wheels_speeds) (simp add: drive_wheels_def snap_speed_def)

subsection \<open>The loop, the ticks and the motors\<close>

text \<open>
  Claim C27. For a non-zero frame width and good frames (read, four-corner detections,
  no \<^verbatim>\<open>q\<close>), the loop is still running after the frames, its controller is the one
  the ticks compute on the frames' detections and \<^verbatim>\<open>millis()\<close>, it issued one
  motor-1 command followed by one motor-2 command per frame, and the last commands ask
  the motors for the truncated powers of that controller.
\<close>

theorem main_loop_refines_ticks:
  assumes "w \<noteq> 0" "list_all good_frame frames"
  shows "\<exists>c out. main w (map Frame frames) = Running c out
     \<and> run_ticks (init_controller w) (map tick_input frames) = Inr c
     \<and> map cmd_motor out = concat (replicate (length frames) [1, 2])
     \<and> (frames \<noteq> [] \<longrightarrow> motor_speed 1 out = Some (py_int (left_speed c))
                         \<and> motor_speed 2 out = Some (py_int (right_speed c)))"
proof -
  have "width (init_controller w) \<noteq> 0" using assms(1) by (simp add: init_controller_def)
  from main_loop_good [OF this assms(2), of "[]"] obtain c out where
    loop: "main_loop (init_controller w) (map Frame frames) [] = Running c ([] @ out)"
    and run: "run_ticks (init_controller w) (map tick_input frames) = Inr c"
    and motors: "map cmd_motor out = concat (replicate (length frames) [1, 2])"
    and last: "frames \<noteq> [] \<longrightarrow> (\<exists>pre. out = pre @ drive_wheels (left_speed c) (right_speed c))"
    by blast
  have "frames \<noteq> [] \<longrightarrow> motor_speed 1 out = Some (py_int (left_speed c))
                         \<and> motor_speed 2 out = Some (py_int (right_speed c))"
    using last motor_speed_drive_wheels by blast
  with loop run motors show ?thesis
    by (auto simp: main_def)
qed

theorem main_loop_refines_ticks_witness:
  "\<exists>c out. main 640 (map Frame [\<lparr>ret = True, detections = [\<lparr>tag_id = 2, center = (320, 100), corners = [(300, 80), (340, 80), (340, 120), (300, 120)], pose_t = (0, 0, 3 / 2)\<rparr>], clock = 1, key = -1\<rparr>, \<lparr>ret = True, detections = [], clock = 11 / 10, key = -1\<rparr>]) = Running c out
     \<and> map cmd_motor out = [1, 2, 1, 2]"
  using main_loop_refines_ticks [of 640 "[\<lparr>ret = True, detections = [\<lparr>tag_id = 2, center = (320, 100), corners = [(300, 80), (340, 80), (340, 120), (300, 120)], pose_t = (0, 0, 3 / 2)\<rparr>], clock = 1, key = -1\<rparr>, \<lparr>ret = True, detections = [], clock = 11 / 10, key = -1\<rparr>]"]
  by (auto simp: numeral_2_eq_2 model_defs)

text \<open>
  Claim C33. On a frame wider than 127 pixels and frames whose tags are at most 3 m
  away and inside the frame, every command the loop sends has a magnitude in 0..254: it
  fits the one data byte of a Roboclaw speed command (the 8-bit conversion is
  lossless), though it can exceed the 0..127 range of the spec (C20).
\<close>

theorem motor_commands_fit_byte:
  assumes "127 < w" "list_all (\<lambda>f. good_frame f \<and> frame_in_range w (detections f)) frames"
  shows "\<exists>c out. main w (map Frame frames) = Running c out
           \<and> list_all (\<lambda>cmd. 0 \<le> cmd_magnitude cmd \<and> cmd_magnitude cmd \<le> 254
                             \<and> uint (word_of_int (cmd_magnitude cmd) :: 8 word) = cmd_magnitude cmd) out"
proof -
  have "speeds_bounded (init_controller w)" using assms(1) by (simp add: speeds_bounded_def init_controller_def)
  moreover have "width (init_controller w) = w" by (simp add: init_controller_def)
  ultimately obtain c out where
    "main_loop (init_controller w) (map Frame frames) [] = Running c ([] @ out)"
    "list_all (\<lambda>cmd. 0 \<le> cmd_magnitude cmd \<and> cmd_magnitude cmd \<le> 254) out"
    using main_loop_bounded [of "init_controller w" frames "[]"] assms(2) by auto
  moreover have "uint (word_of_int m :: 8 word) = m" if "0 \<le> m" "m \<le> 254" for m :: int
    using that by (simp add: uint_word_of_int_eq take_bit_int_eq_self)
  ultimately show ?thesis by (auto simp: main_def list_all_iff)
qed

theorem motor_commands_fit_byte_witness:
  "\<exists>c out. main 640 (map Frame [\<lparr>ret = True, detections = [\<lparr>tag_id = 2, center = (320, 100), corners = [(300, 80), (340, 80), (340, 120), (300, 120)], pose_t = (0, 0, 3 / 2)\<rparr>], clock = 1, key = -1\<rparr>]) = Running c out
           \<and> list_all (\<lambda>cmd. 0 \<le> cmd_magnitude cmd \<and> cmd_magnitude cmd \<le> 254
                             \<and> uint (word_of_int (cmd_magnitude cmd) :: 8 word) = cmd_magnitude cmd) out"
  by (rule motor_commands_fit_byte) (simp_all add: model_defs frame_in_range_def tag_distance_def)

end
